theory Spec2Isabelle
  imports Complex_Main "HOL-Library.Char_ord" "HOL-Library.List_Lexorder"
    "HOL-Library.Log_Nat"
begin

section \<open>Spreadsheet cells and the JavaScript built-ins the handlers call\<close>

text \<open>
  \<^verbatim>\<open>XLSX.utils.sheet_to_json(sheet, { header: 1 })\<close> delivers the first worksheet as an
  array of rows, each row an array of cell values: a number, a string, a boolean, or
  \<^verbatim>\<open>undefined\<close> for an empty cell. Numbers are IEEE doubles in the program; the model
  writes a double as the real it denotes, and rounds where the program does (section
  Numbers below). \<^verbatim>\<open>NaN\<close> cells and infinities are outside it. A conversion that yields
  \<^verbatim>\<open>NaN\<close> in JavaScript yields \<open>None\<close> here. Counts and sums of counts are integers,
  taken to stay below \<open>2\<^sup>5\<^sup>3\<close>, where doubles are exact.
\<close>

datatype cell = Undefined | Num real | Str string | Bool bool

type_synonym row = "cell list"
type_synonym sheet = "row list"

text \<open>\<^verbatim>\<open>row[i]\<close>: an index outside the array (also \<^verbatim>\<open>-1\<close>, the result of a failed
  \<^verbatim>\<open>indexOf\<close>) reads \<^verbatim>\<open>undefined\<close>.\<close>

definition cell_at :: "row \<Rightarrow> int \<Rightarrow> cell" where
  "cell_at r i = (if 0 \<le> i \<and> i < int (length r) then r ! nat i else Undefined)"

text \<open>Truthiness, as \<^verbatim>\<open>!x\<close> and \<^verbatim>\<open>x || y\<close> test it.\<close>

fun truthy :: "cell \<Rightarrow> bool" where
  "truthy Undefined = False"
| "truthy (Num x) = (x \<noteq> 0)"
| "truthy (Str s) = (s \<noteq> [])"
| "truthy (Bool b) = b"

text \<open>\<^verbatim>\<open>a || b\<close> on cells.\<close>

definition or_else :: "cell \<Rightarrow> cell \<Rightarrow> cell" where
  "or_else a b = (if truthy a then a else b)"

subsection \<open>Characters and digits (ASCII)\<close>

definition is_space :: "char \<Rightarrow> bool" where
  "is_space c = (c = CHR '' '' \<or> c = CHR 0x09 \<or> c = CHR 0x0A \<or> c = CHR 0x0B
                 \<or> c = CHR 0x0C \<or> c = CHR 0x0D)"

definition digit10 :: "char \<Rightarrow> nat option" where
  "digit10 c = (let n = (of_char c :: nat) in
                if 48 \<le> n \<and> n \<le> 57 then Some (n - 48) else None)"

definition digit16 :: "char \<Rightarrow> nat option" where
  "digit16 c = (let n = (of_char c :: nat) in
                if 48 \<le> n \<and> n \<le> 57 then Some (n - 48)
                else if 97 \<le> n \<and> n \<le> 102 then Some (n - 87)
                else if 65 \<le> n \<and> n \<le> 70 then Some (n - 55)
                else None)"

definition is_digit :: "char \<Rightarrow> bool" where
  "is_digit c = (digit10 c \<noteq> None)"

definition digits_value :: "int \<Rightarrow> (char \<Rightarrow> nat option) \<Rightarrow> string \<Rightarrow> int" where
  "digits_value radix dig ds = foldl (\<lambda>a c. a * radix + int (the (dig c))) 0 ds"

text \<open>\<^verbatim>\<open>String.prototype.toUpperCase\<close> on ASCII letters.\<close>

definition upper_char :: "char \<Rightarrow> char" where
  "upper_char c = (let n = (of_char c :: nat) in
                   if 97 \<le> n \<and> n \<le> 122 then char_of (n - 32) else c)"

definition toUpperCase :: "string \<Rightarrow> string" where
  "toUpperCase s = map upper_char s"

definition startsWith :: "string \<Rightarrow> string \<Rightarrow> bool" where
  "startsWith s p = (take (length p) s = p)"

text \<open>\<^verbatim>\<open>s.split(c)[0]\<close>: the part of \<open>s\<close> before the first occurrence of the separator,
  all of \<open>s\<close> when there is none.\<close>

definition split_first :: "char \<Rightarrow> string \<Rightarrow> string" where
  "split_first c s = takeWhile (\<lambda>x. x \<noteq> c) s"

subsection \<open>Decimal and base-36 rendering of integers\<close>

definition digit_char :: "int \<Rightarrow> char" where
  "digit_char n = (if n < 10 then char_of (48 + n) else char_of (87 + n))"

function show_radix :: "int \<Rightarrow> int \<Rightarrow> string" where
  "show_radix b n = (if b < 2 \<or> n < b then [digit_char n]
                     else show_radix b (n div b) @ [digit_char (n mod b)])"
  by pat_completeness auto
termination
  by (relation "measure (\<lambda>(b, n). nat n)") (auto simp: int_div_less_self)

declare show_radix.simps [simp del]

definition show_int :: "int \<Rightarrow> string" where
  "show_int i = (if i < 0 then CHR ''-'' # show_radix 10 (- i) else show_radix 10 i)"

definition pad_left :: "nat \<Rightarrow> string \<Rightarrow> string" where
  "pad_left w s = replicate (w - length s) CHR ''0'' @ s"

subsection \<open>Numbers\<close>

text \<open>
  A JavaScript number is an IEEE 754 double; the model writes it as the real it denotes.
  The result of an arithmetic operation, and the value of a numeric literal, is the exact
  result rounded to the nearest double, a tie going to the double with an even significand:
  \<open>to_double\<close>. A double has a significand of 53 bits; below \<open>2\<^sup>-\<^sup>1\<^sup>0\<^sup>2\<^sup>2\<close> the doubles are
  \<open>2\<^sup>-\<^sup>1\<^sup>0\<^sup>7\<^sup>4\<close> apart. \<open>binary_exponent x\<close> is the integer \<open>k\<close> with \<open>2\<^sup>k \<le> x < 2\<^sup>k\<^sup>+\<^sup>1\<close>,
  for positive \<open>x\<close>. A result beyond the largest double, which JavaScript gives as
  \<^verbatim>\<open>Infinity\<close>, is not modelled, and neither is the sign of zero.
\<close>

definition pow2 :: "int \<Rightarrow> real" where
  "pow2 k = (if 0 \<le> k then 2 ^ nat k else 1 / 2 ^ nat (- k))"

definition binary_exponent :: "real \<Rightarrow> int" where
  "binary_exponent x = (if 1 \<le> x then bitlen \<lfloor>x\<rfloor> - 1 else - bitlen (\<lceil>1 / x\<rceil> - 1))"

definition round_half_even :: "real \<Rightarrow> int" where
  "round_half_even m =
     (let f = \<lfloor>m\<rfloor>
      in if m - of_int f < 1 / 2 then f
         else if 1 / 2 < m - of_int f then f + 1
         else if even f then f else f + 1)"

definition to_double :: "real \<Rightarrow> real" where
  "to_double x =
     (if x = 0 then 0
      else (let u = pow2 (max (binary_exponent \<bar>x\<bar>) (- 1022) - 52)
            in sgn x * of_int (round_half_even (\<bar>x\<bar> / u)) * u))"

subsection \<open>\<^verbatim>\<open>parseInt\<close>, \<^verbatim>\<open>parseFloat\<close> and \<^verbatim>\<open>ToNumber\<close>\<close>

text \<open>
  \<^verbatim>\<open>parseInt(string)\<close>: leading white space is skipped, an optional sign is read, a
  \<^verbatim>\<open>0x\<close> prefix selects radix 16, and the longest run of digits is the value; no digit at
  all is \<^verbatim>\<open>NaN\<close>.
\<close>

definition parseInt_str :: "string \<Rightarrow> int option" where
  "parseInt_str s =
     (let t = dropWhile is_space s;
          neg = (case t of c # _ \<Rightarrow> c = CHR ''-'' | [] \<Rightarrow> False);
          u = (case t of c # r \<Rightarrow> if c = CHR ''-'' \<or> c = CHR ''+'' then r else t | [] \<Rightarrow> t);
          hex = (case u of a # b # _ \<Rightarrow> a = CHR ''0'' \<and> (b = CHR ''x'' \<or> b = CHR ''X'')
                 | _ \<Rightarrow> False);
          v = (if hex then drop 2 u else u);
          dig = (if hex then digit16 else digit10);
          ds = takeWhile (\<lambda>c. dig c \<noteq> None) v
      in if ds = [] then None
         else Some ((if neg then - 1 else 1) *
                    digits_value (if hex then 16 else 10) dig ds))"

text \<open>
  \<^verbatim>\<open>parseInt(x)\<close> on a cell converts the cell to a string first. For a number whose
  magnitude lies in \<open>[1e-6, 1e21)\<close>, or zero, that string is its plain decimal expansion and
  the result is the number truncated towards zero; numbers outside that range print in
  exponent notation and are not covered by the model. \<^verbatim>\<open>undefined\<close>, \<^verbatim>\<open>true\<close> and
  \<^verbatim>\<open>false\<close> print as words and give \<^verbatim>\<open>NaN\<close>.
\<close>

fun parseInt :: "cell \<Rightarrow> int option" where
  "parseInt Undefined = None"
| "parseInt (Num x) = Some (if 0 \<le> x then \<lfloor>x\<rfloor> else \<lceil>x\<rceil>)"
| "parseInt (Str s) = parseInt_str s"
| "parseInt (Bool b) = None"

text \<open>\<^verbatim>\<open>parseInt(x) || 0\<close>: \<^verbatim>\<open>NaN\<close> and \<open>0\<close> are both falsy.\<close>

definition parseInt_or0 :: "cell \<Rightarrow> int" where
  "parseInt_or0 c = (case parseInt c of None \<Rightarrow> 0 | Some n \<Rightarrow> n)"

text \<open>
  An unsigned decimal literal at the front of a string: digits, an optional fraction, an
  optional exponent (taken only when it has a digit). The result is the value and the
  unread rest; \<open>None\<close> when there is no digit.
\<close>

definition read_exponent :: "string \<Rightarrow> int \<times> string" where
  "read_exponent s =
     (case s of
        e # r \<Rightarrow>
          if e = CHR ''e'' \<or> e = CHR ''E'' then
            (let neg = (case r of c # _ \<Rightarrow> c = CHR ''-'' | [] \<Rightarrow> False);
                 r' = (case r of c # q \<Rightarrow> if c = CHR ''-'' \<or> c = CHR ''+'' then q else r
                       | [] \<Rightarrow> r);
                 ds = takeWhile is_digit r'
             in if ds = [] then (0, s)
                else ((if neg then - 1 else 1) * digits_value 10 digit10 ds,
                      dropWhile is_digit r'))
          else (0, s)
      | [] \<Rightarrow> (0, s))"

definition read_decimal :: "string \<Rightarrow> (real \<times> string) option" where
  "read_decimal s =
     (let ip = takeWhile is_digit s;
          r1 = dropWhile is_digit s;
          dot = (case r1 of c # _ \<Rightarrow> c = CHR ''.'' | [] \<Rightarrow> False);
          fp = (if dot then takeWhile is_digit (tl r1) else []);
          r2 = (if dot then dropWhile is_digit (tl r1) else r1)
      in if ip = [] \<and> fp = [] then None
         else
           (let mant = of_int (digits_value 10 digit10 ip)
                       + of_int (digits_value 10 digit10 fp) / 10 ^ length fp;
                (ex, r3) = read_exponent r2
            in Some (if 0 \<le> ex then mant * 10 ^ nat ex else mant / 10 ^ nat (- ex), r3)))"

definition read_signed_decimal :: "string \<Rightarrow> (real \<times> string) option" where
  "read_signed_decimal s =
     (case s of
        c # r \<Rightarrow>
          if c = CHR ''-'' then map_option (\<lambda>(x, q). (- x, q)) (read_decimal r)
          else if c = CHR ''+'' then read_decimal r
          else read_decimal s
      | [] \<Rightarrow> None)"

text \<open>
  \<^verbatim>\<open>parseFloat(x)\<close>: the longest decimal literal after leading white space, as the
  double nearest to its value; a number reads as itself. The literal \<^verbatim>\<open>Infinity\<close> is
  not modelled (it reads as \<^verbatim>\<open>NaN\<close> here).
\<close>

fun parseFloat :: "cell \<Rightarrow> real option" where
  "parseFloat Undefined = None"
| "parseFloat (Num x) = Some x"
| "parseFloat (Str s) =
     map_option (\<lambda>(x, rest). to_double x) (read_signed_decimal (dropWhile is_space s))"
| "parseFloat (Bool b) = None"

definition parseFloat_or0 :: "cell \<Rightarrow> real" where
  "parseFloat_or0 c = (case parseFloat c of None \<Rightarrow> 0 | Some x \<Rightarrow> x)"

text \<open>
  \<^verbatim>\<open>ToNumber\<close>, the coercion behind \<^verbatim>\<open>serial - 25569\<close>: a string must be a numeric
  literal as a whole (white space trimmed; the empty string is \<open>0\<close>) and gives the double
  nearest to the value of the literal. Hexadecimal, octal and
  binary literals and \<^verbatim>\<open>Infinity\<close> are not modelled. \<open>None\<close> stands for a value that is
  not a finite number.
\<close>

fun ToNumber :: "cell \<Rightarrow> real option" where
  "ToNumber Undefined = None"
| "ToNumber (Num x) = Some x"
| "ToNumber (Bool b) = Some (if b then 1 else 0)"
| "ToNumber (Str s) =
     (let t = dropWhile is_space s in
      if t = [] then Some 0
      else case read_signed_decimal t of
             None \<Rightarrow> None
           | Some (x, rest) \<Rightarrow>
               if dropWhile is_space rest = [] then Some (to_double x) else None)"

subsection \<open>\<^verbatim>\<open>Date\<close>: time values, calendar dates and ISO strings\<close>

text \<open>
  A \<^verbatim>\<open>Date\<close> holds a time value: milliseconds since 1970-01-01T00:00:00Z, or \<^verbatim>\<open>NaN\<close>
  (\<open>None\<close>) for an invalid date. \<^verbatim>\<open>new Date(v)\<close> clips: a value beyond 8.64e15 ms on
  either side is invalid.
\<close>

definition msPerDay :: int where
  "msPerDay = 86400000"

definition Date_new :: "int \<Rightarrow> int option" where
  "Date_new v = (if \<bar>v\<bar> \<le> 8640000000000000 then Some v else None)"

text \<open>
  The proleptic Gregorian calendar that \<^verbatim>\<open>Date\<close> uses, by day number (days since
  1970-01-01): year, month (1 to 12) and day of the month of a day number, and back.
\<close>

definition civil_from_days :: "int \<Rightarrow> int \<times> int \<times> int" where
  "civil_from_days z0 =
     (let z = z0 + 719468;
          era = z div 146097;
          doe = z - era * 146097;
          yoe = (doe - doe div 1460 + doe div 36524 - doe div 146096) div 365;
          y = yoe + era * 400;
          doy = doe - (365 * yoe + yoe div 4 - yoe div 100);
          mp = (5 * doy + 2) div 153;
          d = doy - (153 * mp + 2) div 5 + 1;
          m = (if mp < 10 then mp + 3 else mp - 9)
      in (if m \<le> 2 then y + 1 else y, m, d))"

definition days_from_civil :: "int \<Rightarrow> int \<Rightarrow> int \<Rightarrow> int" where
  "days_from_civil y0 m d =
     (let y = (if m \<le> 2 then y0 - 1 else y0);
          era = y div 400;
          yoe = y - era * 400;
          doy = (153 * (if m > 2 then m - 3 else m + 9) + 2) div 5 + d - 1;
          doe = yoe * 365 + yoe div 4 - yoe div 100 + doy
      in era * 146097 + doe - 719468)"

text \<open>
  The date part of \<^verbatim>\<open>toISOString()\<close>: \<^verbatim>\<open>YYYY-MM-DD\<close>, the year with four digits from
  0 to 9999 and with a sign and six digits otherwise.
\<close>

definition iso_year :: "int \<Rightarrow> string" where
  "iso_year y = (if 0 \<le> y \<and> y \<le> 9999 then pad_left 4 (show_radix 10 y)
                 else (if y < 0 then CHR ''-'' else CHR ''+'') # pad_left 6 (show_radix 10 \<bar>y\<bar>))"

definition iso_date :: "int \<Rightarrow> string" where
  "iso_date days =
     (case civil_from_days days of
        (y, m, d) \<Rightarrow> iso_year y @ ''-'' @ pad_left 2 (show_radix 10 m) @ ''-''
                       @ pad_left 2 (show_radix 10 d))"

datatype js_error = RangeError string | TypeError string

text \<open>\<^verbatim>\<open>date.toISOString().split('T')[0]\<close>; \<^verbatim>\<open>toISOString\<close> throws a
  \<^verbatim>\<open>RangeError\<close> on an invalid date.\<close>

definition toISOString_date :: "int option \<Rightarrow> js_error + string" where
  "toISOString_date t = (case t of None \<Rightarrow> Inl (RangeError ''Invalid time value'')
                         | Some ms \<Rightarrow> Inr (iso_date (ms div msPerDay)))"

text \<open>
  \<^verbatim>\<open>new Date(s)\<close> on a date-only ISO string \<^verbatim>\<open>YYYY-MM-DD\<close>: midnight UTC of that day.
  Only this form is modelled (it is the form every stored \<^verbatim>\<open>date\<close> has); any other string
  is taken as an invalid date.
\<close>

definition Date_parse :: "string \<Rightarrow> int option" where
  "Date_parse s =
     (if length s = 10 \<and> s ! 4 = CHR ''-'' \<and> s ! 7 = CHR ''-''
         \<and> list_all is_digit (take 4 s) \<and> list_all is_digit (take 2 (drop 5 s))
         \<and> list_all is_digit (drop 8 s)
      then (let y = digits_value 10 digit10 (take 4 s);
                m = digits_value 10 digit10 (take 2 (drop 5 s));
                d = digits_value 10 digit10 (drop 8 s)
            in if 1 \<le> m \<and> m \<le> 12 \<and> 1 \<le> d \<and> d \<le> 31
               then Some (days_from_civil y m d * msPerDay) else None)
      else None)"

subsection \<open>The date normalizer and the identifier generator\<close>

text \<open>
  \<^verbatim>\<open>
  function excelDateToISO(serial) {
      const utc_days = Math.floor(serial - 25569);
      const date = new Date(utc_days * 86400 * 1000);
      return date.toISOString().split('T')[0];
  }
  \<close>
  The difference \<^verbatim>\<open>serial - 25569\<close> is a double, so it is rounded before the floor is
  taken. The two products are whole numbers; within the range of a \<^verbatim>\<open>Date\<close> they are
  below \<open>2\<^sup>5\<^sup>3\<close> and exact.
\<close>

definition excelDateToISO :: "cell \<Rightarrow> js_error + string" where
  "excelDateToISO serial =
     (case ToNumber serial of
        None \<Rightarrow> toISOString_date None
      | Some x \<Rightarrow> (let utc_days = \<lfloor>to_double (x - 25569)\<rfloor>
                   in toISOString_date (Date_new (utc_days * 86400 * 1000))))"

text \<open>
  \<^verbatim>\<open>
  function generateId() {
      return Date.now().toString(36) + Math.random().toString(36).substr(2, 9);
  }
  \<close>
  The clock reading and the random digits come from the environment of a request: \<open>clock k\<close>
  is the \<open>k\<close>-th reading of the clock (milliseconds since the epoch), \<open>random k\<close> the string
  \<^verbatim>\<open>Math.random().toString(36).substr(2, 9)\<close> of the \<open>k\<close>-th draw. The environment also
  holds the time zone of the server process, as the function \<^verbatim>\<open>LocalTZA(t, isUTC)\<close> of the
  language specification: the offset of local time from UTC in milliseconds, at the instant
  \<open>t\<close> when \<open>isUTC\<close> is true, and at the local time value \<open>t\<close> when it is false.
\<close>

record env =
  clock :: "nat \<Rightarrow> int"
  random :: "nat \<Rightarrow> string"
  LocalTZA :: "int \<Rightarrow> bool \<Rightarrow> int"

text \<open>\<^verbatim>\<open>LocalTime(t)\<close> and \<^verbatim>\<open>UTC(t)\<close> of the language specification.\<close>

definition LocalTime :: "env \<Rightarrow> int \<Rightarrow> int" where
  "LocalTime e t = t + LocalTZA e t True"

definition UTC :: "env \<Rightarrow> int \<Rightarrow> int" where
  "UTC e t = t - LocalTZA e t False"

definition generateId :: "env \<Rightarrow> nat \<Rightarrow> string" where
  "generateId e k = show_radix 36 (clock e k) @ random e k"

text \<open>\<^verbatim>\<open>new Date().toISOString().split('T')[0]\<close> at the \<open>k\<close>-th reading of the clock.\<close>

definition today_iso :: "env \<Rightarrow> nat \<Rightarrow> string" where
  "today_iso e k = iso_date (clock e k div msPerDay)"

section \<open>Stored data, objects and the persisted store\<close>

text \<open>
  A JavaScript object used as a dictionary is an association list in insertion order:
  assigning to a key that is present replaces the value where it stands, a new key goes to
  the end. (\<^verbatim>\<open>Object.entries\<close> lists integer-like keys first, in ascending order; the
  model lists every key in insertion order. The two agree for \<^verbatim>\<open>hourMap\<close>, whose keys
  are inserted in ascending order.) Keys that are numbers in the source (\<^verbatim>\<open>hourly[hour]\<close>,
  \<^verbatim>\<open>by_priority[priority]\<close>) are kept as numbers; JavaScript stores their decimal strings,
  which are distinct for distinct integers. An hour key is \<open>None\<close> for \<^verbatim>\<open>NaN\<close>.
  Properties inherited from \<^verbatim>\<open>Object.prototype\<close> are not modelled.
\<close>

fun obj_set :: "'k \<Rightarrow> 'v \<Rightarrow> ('k \<times> 'v) list \<Rightarrow> ('k \<times> 'v) list" where
  "obj_set k v [] = [(k, v)]"
| "obj_set k v (p # ps) = (if fst p = k then (k, v) # ps else p # obj_set k v ps)"

text \<open>\<^verbatim>\<open>Array.prototype.findIndex\<close>; \<open>None\<close> is the result \<^verbatim>\<open>-1\<close>.\<close>

fun findIndex :: "('a \<Rightarrow> bool) \<Rightarrow> 'a list \<Rightarrow> nat option" where
  "findIndex P [] = None"
| "findIndex P (x # xs) = (if P x then Some 0 else map_option Suc (findIndex P xs))"

text \<open>
  Each collection lives twice: in the module-level variable (\<open>mem\<close>) and in its JSON file
  (\<open>disk\<close>), which \<^verbatim>\<open>saveData\<close> overwrites with the variable's value. File-system failures
  are not modelled.
\<close>

record 'a store =
  mem :: 'a
  disk :: 'a

text \<open>What a handler answers: \<^verbatim>\<open>res.json({ success: true, results })\<close>, or
  \<^verbatim>\<open>res.status(code).json({ error: message })\<close>.\<close>

datatype 'r response = Success 'r | Failure nat string

fun message :: "js_error \<Rightarrow> string" where
  "message (RangeError m) = m"
| "message (TypeError m) = m"

record results =
  added :: nat
  updated :: nat

record production_record =
  id' :: string
  date :: string
  total_doses :: int
  hourly :: "(int option \<times> int) list"
  uploaded_at :: int

record bypass_record =
  b_id :: string
  location :: cell
  total_bypasses :: int
  b_hourly :: "(int option \<times> int) list"
  b_uploaded_at :: int

section \<open>Production and bypass ingest\<close>

text \<open>
  \<^verbatim>\<open>
  const hourMap = {};
  for (let i = 1; i < headerRow.length; i++) {
      const hourStr = headerRow[i];
      if (typeof hourStr === 'string' && hourStr.includes(':')) {
          const hour = parseInt(hourStr.split(':')[0]);
          hourMap[i] = hour;
      }
  }
  \<close>
\<close>

definition parse_hour_columns :: "row \<Rightarrow> (nat \<times> int option) list" where
  "parse_hour_columns headerRow =
     concat (map (\<lambda>i. case headerRow ! i of
                         Str hourStr \<Rightarrow>
                           if CHR '':'' \<in> set hourStr
                           then [(i, parseInt_str (split_first CHR '':'' hourStr))] else []
                       | _ \<Rightarrow> [])
                 [1 ..< length headerRow])"

text \<open>
  \<^verbatim>\<open>
  const hourly = {};
  let totalDoses = 0;
  Object.entries(hourMap).forEach(([colIdx, hour]) => {
      const count = parseInt(row[parseInt(colIdx)]) || 0;
      hourly[hour] = count;
      totalDoses += count;
  });
  \<close>
\<close>

definition hour_step ::
  "row \<Rightarrow> nat \<times> int option \<Rightarrow> (int option \<times> int) list \<times> int
   \<Rightarrow> (int option \<times> int) list \<times> int" where
  "hour_step r = (\<lambda>(colIdx, hour) (hourly, totalDoses).
                    let count = parseInt_or0 (cell_at r (int colIdx))
                    in (obj_set hour count hourly, totalDoses + count))"

definition hour_counts :: "(nat \<times> int option) list \<Rightarrow> row \<Rightarrow> (int option \<times> int) list \<times> int" where
  "hour_counts hourMap r = fold (hour_step r) hourMap ([], 0)"

text \<open>
  One iteration of the row loop of \<^verbatim>\<open>POST /api/upload/production\<close>, for the row at index
  \<open>i\<close> of \<^verbatim>\<open>rawData\<close>. \<open>Inl\<close> is an exception thrown in the iteration; it carries the
  collection as mutated so far, which stays in the module-level variable.
\<close>

definition production_row ::
  "env \<Rightarrow> (nat \<times> int option) list \<Rightarrow> nat \<Rightarrow> row \<Rightarrow> production_record list \<times> results
   \<Rightarrow> js_error \<times> production_record list + production_record list \<times> results" where
  "production_row e hourMap i r s =
     (case s of (productionData, res) \<Rightarrow>
        if \<not> truthy (cell_at r 0) then Inr s
        else
          (case excelDateToISO (cell_at r 0) of
             Inl err \<Rightarrow> Inl (err, productionData)
           | Inr d \<Rightarrow>
              (let (hrly, totalDoses) = hour_counts hourMap r;
                   existingIdx = findIndex (\<lambda>x. date x = d) productionData;
                   record = \<lparr> id' = (case existingIdx of
                                       Some j \<Rightarrow> id' (productionData ! j)
                                     | None \<Rightarrow> generateId e (2 * i)),
                              date = d, total_doses = totalDoses, hourly = hrly,
                              uploaded_at = clock e (2 * i + 1) \<rparr>
               in case existingIdx of
                    Some j \<Rightarrow> Inr (productionData[j := record],
                                   res\<lparr>updated := updated res + 1\<rparr>)
                  | None \<Rightarrow> Inr (productionData @ [record],
                                 res\<lparr>added := added res + 1\<rparr>))))"

fun production_rows ::
  "env \<Rightarrow> (nat \<times> int option) list \<Rightarrow> nat \<Rightarrow> row list \<Rightarrow> production_record list \<times> results
   \<Rightarrow> js_error \<times> production_record list + production_record list \<times> results" where
  "production_rows e hourMap i [] s = Inr s"
| "production_rows e hourMap i (r # rs) s =
     (case production_row e hourMap i r s of
        Inl x \<Rightarrow> Inl x
      | Inr s' \<Rightarrow> production_rows e hourMap (Suc i) rs s')"

text \<open>
  \<^verbatim>\<open>productionData.sort((a, b) => b.date.localeCompare(a.date))\<close>: a stable sort,
  descending by date. \<^verbatim>\<open>localeCompare\<close> is taken as the lexicographic order on character
  codes, with which it agrees on ISO date strings.
\<close>

fun insort_date_desc :: "production_record \<Rightarrow> production_record list \<Rightarrow> production_record list" where
  "insort_date_desc r [] = [r]"
| "insort_date_desc r (y # ys) =
     (if date y \<le> date r then r # y # ys else y # insort_date_desc r ys)"

definition sort_date_desc :: "production_record list \<Rightarrow> production_record list" where
  "sort_date_desc xs = foldr insort_date_desc xs []"

text \<open>The handler of \<^verbatim>\<open>POST /api/upload/production\<close> on the rows of the first sheet.\<close>

definition production_upload ::
  "env \<Rightarrow> sheet \<Rightarrow> production_record list store
   \<Rightarrow> results response \<times> production_record list store" where
  "production_upload e rawData st =
     (case rawData of
        [] \<Rightarrow> (Failure 400 ''Invalid file format - expected EntryDate in first column'', st)
      | headerRow # rows \<Rightarrow>
          if cell_at headerRow 0 \<noteq> Str ''EntryDate''
          then (Failure 400 ''Invalid file format - expected EntryDate in first column'', st)
          else
            (case production_rows e (parse_hour_columns headerRow) 1 rows
                    (mem st, \<lparr> added = 0, updated = 0 \<rparr>) of
               Inl (err, productionData) \<Rightarrow>
                 (Failure 500 (message err), st\<lparr>mem := productionData\<rparr>)
             | Inr (productionData, res) \<Rightarrow>
                 (let sorted = sort_date_desc productionData
                  in (Success res, \<lparr> mem = sorted, disk = sorted \<rparr>))))"

text \<open>
  \<^verbatim>\<open>POST /api/upload/bypass\<close>: the same loop keyed on the raw first cell (compared with
  \<^verbatim>\<open>===\<close>), with no date conversion, hence no exception, and no sort.
\<close>

definition bypass_row ::
  "env \<Rightarrow> (nat \<times> int option) list \<Rightarrow> nat \<Rightarrow> row \<Rightarrow> bypass_record list \<times> results
   \<Rightarrow> bypass_record list \<times> results" where
  "bypass_row e hourMap i r s =
     (case s of (bypassData, res) \<Rightarrow>
        if \<not> truthy (cell_at r 0) then s
        else
          (let loc = cell_at r 0;
               (hrly, totalBypasses) = hour_counts hourMap r;
               existingIdx = findIndex (\<lambda>x. location x = loc) bypassData;
               record = \<lparr> b_id = (case existingIdx of
                                    Some j \<Rightarrow> b_id (bypassData ! j)
                                  | None \<Rightarrow> generateId e (2 * i)),
                          location = loc, total_bypasses = totalBypasses, b_hourly = hrly,
                          b_uploaded_at = clock e (2 * i + 1) \<rparr>
           in case existingIdx of
                Some j \<Rightarrow> (bypassData[j := record], res\<lparr>updated := updated res + 1\<rparr>)
              | None \<Rightarrow> (bypassData @ [record], res\<lparr>added := added res + 1\<rparr>)))"

fun bypass_rows ::
  "env \<Rightarrow> (nat \<times> int option) list \<Rightarrow> nat \<Rightarrow> row list \<Rightarrow> bypass_record list \<times> results
   \<Rightarrow> bypass_record list \<times> results" where
  "bypass_rows e hourMap i [] s = s"
| "bypass_rows e hourMap i (r # rs) s = bypass_rows e hourMap (Suc i) rs (bypass_row e hourMap i r s)"

definition bypass_upload ::
  "env \<Rightarrow> sheet \<Rightarrow> bypass_record list store \<Rightarrow> results response \<times> bypass_record list store" where
  "bypass_upload e rawData st =
     (case rawData of
        [] \<Rightarrow> (Failure 400 ''Invalid file format - expected Location in first column'', st)
      | headerRow # rows \<Rightarrow>
          if cell_at headerRow 0 \<noteq> Str ''Location''
          then (Failure 400 ''Invalid file format - expected Location in first column'', st)
          else
            (case bypass_rows e (parse_hour_columns headerRow) 1 rows
                    (mem st, \<lparr> added = 0, updated = 0 \<rparr>) of
               (bypassData, res) \<Rightarrow> (Success res, \<lparr> mem = bypassData, disk = bypassData \<rparr>)))"

text \<open>The first cell of the header row, \<^verbatim>\<open>rawData[0][0]\<close>; \<^verbatim>\<open>undefined\<close> when the sheet
  has no row or the row no cell.\<close>

definition header_cell :: "sheet \<Rightarrow> cell" where
  "header_cell rawData = (case rawData of [] \<Rightarrow> Undefined | headerRow # _ \<Rightarrow> cell_at headerRow 0)"

section \<open>The rolling window of the read endpoints\<close>

text \<open>
  Every windowed endpoint starts with
  \<^verbatim>\<open>
  const { days = 30 } = req.query;
  const cutoff = new Date();
  cutoff.setDate(cutoff.getDate() - parseInt(days));
  const filtered = data.filter(d => new Date(d.date) >= cutoff);
  \<close>
  The query parameter is a string when present. \<^verbatim>\<open>getDate\<close> and \<^verbatim>\<open>setDate\<close> work on
  local time: with \<open>t = LocalTime(now)\<close>, \<^verbatim>\<open>setDate(dt)\<close> stores
  \<^verbatim>\<open>TimeClip(UTC(MakeDate(MakeDay(YearFromTime(t), MonthFromTime(t), dt), TimeWithinDay(t))))\<close>.
  \<^verbatim>\<open>MakeDay(y, m, dt)\<close> is the day number of the first of the month plus \<open>dt - 1\<close>, so for
  \<open>dt = DateFromTime(t) - n\<close> it is \<open>Day(t) - n\<close>, and the local time value that is
  converted back is \<open>t - n * msPerDay\<close>: the same local time of day, \<open>n\<close> calendar days
  earlier. A parameter that \<^verbatim>\<open>parseInt\<close> cannot read makes the cutoff an invalid date,
  with which every comparison is false.
\<close>

definition window_cutoff :: "env \<Rightarrow> string option \<Rightarrow> int option" where
  "window_cutoff e days =
     (case parseInt (case days of None \<Rightarrow> Num 30 | Some s \<Rightarrow> Str s) of
        None \<Rightarrow> None
      | Some n \<Rightarrow> (let t = LocalTime e (clock e 0);
                       newDate = t - n * msPerDay
                   in Date_new (UTC e newDate)))"

text \<open>\<^verbatim>\<open>new Date(d.date) >= cutoff\<close>: false when either side is an invalid date.\<close>

definition on_or_after :: "string \<Rightarrow> int option \<Rightarrow> bool" where
  "on_or_after d cutoff =
     (case (Date_parse d, cutoff) of (Some t, Some c) \<Rightarrow> c \<le> t | _ \<Rightarrow> False)"

text \<open>\<^verbatim>\<open>GET /api/production/daily\<close> with the default grouping \<^verbatim>\<open>daily\<close>: the filtered
  records, in stored order. (The weekly grouping is not modelled.)\<close>

definition production_daily :: "env \<Rightarrow> string option \<Rightarrow> production_record list \<Rightarrow> production_record list" where
  "production_daily e days productionData =
     filter (\<lambda>d. on_or_after (date d) (window_cutoff e days)) productionData"

section \<open>Stock-doses ingest\<close>

text \<open>
  \<^verbatim>\<open>XLSX.utils.sheet_to_json(sheet)\<close> without the \<^verbatim>\<open>header\<close> option delivers one object
  per data row, keyed by the labels of the header row; an empty cell leaves its key out.
  \<^verbatim>\<open>row.Dose\<close> on a missing key is \<^verbatim>\<open>undefined\<close>.
\<close>

type_synonym labelled_row = "(string \<times> cell) list"

definition field :: "labelled_row \<Rightarrow> string \<Rightarrow> cell" where
  "field r k = (case map_of r k of None \<Rightarrow> Undefined | Some c \<Rightarrow> c)"

text \<open>A stable sort, descending by a numeric key: \<^verbatim>\<open>xs.sort((a, b) => b.k - a.k)\<close>.\<close>

fun insort_desc :: "('a \<Rightarrow> 'k::linorder) \<Rightarrow> 'a \<Rightarrow> 'a list \<Rightarrow> 'a list" where
  "insort_desc f r [] = [r]"
| "insort_desc f r (y # ys) = (if f y \<le> f r then r # y # ys else y # insort_desc f r ys)"

definition sort_desc :: "('a \<Rightarrow> 'k::linorder) \<Rightarrow> 'a list \<Rightarrow> 'a list" where
  "sort_desc f xs = foldr (insort_desc f) xs []"

text \<open>\<^verbatim>\<open>String.prototype.trim\<close>.\<close>

definition trim :: "string \<Rightarrow> string" where
  "trim s = rev (dropWhile is_space (rev (dropWhile is_space s)))"

text \<open>
  \<^verbatim>\<open>dose.replace(/^(DILUTION|STOCK):\s*/i, '').replace(/BAXA\s*-\s*/i, '').trim()\<close>:
  the type prefix with the white space after it goes, then the first occurrence of
  \<^verbatim>\<open>BAXA\<close>, optional white space, a hyphen and the white space after it.
\<close>

definition strip_type_prefix :: "string \<Rightarrow> string" where
  "strip_type_prefix s =
     (if startsWith (toUpperCase s) ''DILUTION:'' then dropWhile is_space (drop 9 s)
      else if startsWith (toUpperCase s) ''STOCK:'' then dropWhile is_space (drop 6 s)
      else s)"

fun remove_baxa :: "string \<Rightarrow> string" where
  "remove_baxa [] = []"
| "remove_baxa (c # cs) =
     (if toUpperCase (take 4 (c # cs)) = ''BAXA''
      then (case dropWhile is_space (drop 4 (c # cs)) of
              x # r \<Rightarrow> if x = CHR ''-'' then dropWhile is_space r else c # remove_baxa cs
            | [] \<Rightarrow> c # remove_baxa cs)
      else c # remove_baxa cs)"

definition clean_name :: "string \<Rightarrow> string" where
  "clean_name dose = trim (remove_baxa (strip_type_prefix dose))"

text \<open>
  \<^verbatim>\<open>dose.match(/(\d+\.?\d*)\s*(ML|MG|MCG|UNITS?)/i)\<close>, element 0 of the result: the text
  of the leftmost match, the empty string when there is none. At a start position the
  greedy reading (all digits, a dot if there is one, all digits, all white space, then a
  unit) is the only one that can succeed.
\<close>

definition unit_length :: "string \<Rightarrow> nat option" where
  "unit_length s =
     (let u = toUpperCase (take 5 s) in
      if startsWith u ''ML'' then Some 2
      else if startsWith u ''MG'' then Some 2
      else if startsWith u ''MCG'' then Some 3
      else if startsWith u ''UNITS'' then Some 5
      else if startsWith u ''UNIT'' then Some 4
      else None)"

definition size_match_at :: "string \<Rightarrow> nat option" where
  "size_match_at s =
     (let ds = takeWhile is_digit s;
          r1 = dropWhile is_digit s;
          dot = (case r1 of c # _ \<Rightarrow> c = CHR ''.'' | [] \<Rightarrow> False);
          r2 = (if dot then tl r1 else r1);
          fs = takeWhile is_digit r2;
          r3 = dropWhile is_digit r2;
          sp = takeWhile is_space r3;
          r4 = dropWhile is_space r3
      in if ds = [] then None
         else map_option (\<lambda>n. length ds + (if dot then 1 else 0) + length fs + length sp + n)
                (unit_length r4))"

fun size_match :: "string \<Rightarrow> string" where
  "size_match [] = []"
| "size_match (c # cs) =
     (case size_match_at (c # cs) of Some n \<Rightarrow> take n (c # cs) | None \<Rightarrow> size_match cs)"

record stock_record =
  name :: string
  original :: string
  total' :: int
  size' :: string
  dose_type :: string

record stock_results =
  n_stocks :: nat
  n_dilutions :: nat
  n_total_doses :: int

record stock_summary =
  total_stock_types :: nat
  total_dilution_types :: nat
  total_doses_made :: int

record stock_doc =
  stocks :: "stock_record list"
  dilutions :: "stock_record list"
  all' :: "stock_record list"
  summary :: stock_summary
  doc_uploaded_at :: int

text \<open>\<^verbatim>\<open>const dose = row.Dose || row.dose || ''\<close>.\<close>

definition dose_of :: "labelled_row \<Rightarrow> cell" where
  "dose_of r = or_else (field r ''Dose'') (or_else (field r ''dose'') (Str ''''))"

text \<open>
  The body of \<^verbatim>\<open>rawData.forEach(row => ...)\<close> in \<^verbatim>\<open>POST /api/upload/stock-doses\<close>.
  A truthy \<^verbatim>\<open>dose\<close> that is not a string has no \<^verbatim>\<open>toUpperCase\<close>: the call throws.
\<close>

definition stock_row ::
  "labelled_row \<Rightarrow> stock_record list \<times> stock_record list \<times> stock_results
   \<Rightarrow> js_error + stock_record list \<times> stock_record list \<times> stock_results" where
  "stock_row r s =
     (case s of (stocks0, dilutions0, res) \<Rightarrow>
        (let dose = dose_of r;
             tot = parseInt_or0 (field r ''Total'')
         in if \<not> truthy dose then Inr s
            else
              (case dose of
                 Str d \<Rightarrow>
                   (let res1 = res\<lparr>n_total_doses := n_total_doses res + tot\<rparr>;
                        isDilution = startsWith (toUpperCase d) ''DILUTION:'';
                        isStock = startsWith (toUpperCase d) ''STOCK:'';
                        record = \<lparr> name = clean_name d, original = d, total' = tot,
                                   size' = size_match d,
                                   dose_type = (if isDilution then ''Dilution''
                                                else if isStock then ''Stock'' else ''Other'') \<rparr>
                    in if isDilution
                       then Inr (stocks0, dilutions0 @ [record],
                                 res1\<lparr>n_dilutions := n_dilutions res1 + 1\<rparr>)
                       else Inr (stocks0 @ [record], dilutions0,
                                 res1\<lparr>n_stocks := n_stocks res1 + 1\<rparr>))
               | _ \<Rightarrow> Inl (TypeError ''dose.toUpperCase is not a function''))))"

fun stock_rows ::
  "labelled_row list \<Rightarrow> stock_record list \<times> stock_record list \<times> stock_results
   \<Rightarrow> js_error + stock_record list \<times> stock_record list \<times> stock_results" where
  "stock_rows [] s = Inr s"
| "stock_rows (r # rs) s = (case stock_row r s of Inl err \<Rightarrow> Inl err | Inr s' \<Rightarrow> stock_rows rs s')"

text \<open>
  The document that replaces \<^verbatim>\<open>stockDoses\<close> after the loop:
  \<^verbatim>\<open>
  stocks.sort((a, b) => b.total - a.total);
  dilutions.sort((a, b) => b.total - a.total);
  stockDoses = { stocks, dilutions,
      all: [...stocks, ...dilutions].sort((a, b) => b.total - a.total),
      summary: { total_stock_types: results.stocks, total_dilution_types: results.dilutions,
                 total_doses_made: results.total_doses },
      uploaded_at: new Date().toISOString() };
  \<close>
\<close>

definition stock_document ::
  "env \<Rightarrow> stock_record list \<Rightarrow> stock_record list \<Rightarrow> stock_results \<Rightarrow> stock_doc" where
  "stock_document e stocks0 dilutions0 res =
     \<lparr> stocks = sort_desc total' stocks0, dilutions = sort_desc total' dilutions0,
       all' = sort_desc total' (sort_desc total' stocks0 @ sort_desc total' dilutions0),
       summary = \<lparr> total_stock_types = n_stocks res,
                   total_dilution_types = n_dilutions res,
                   total_doses_made = n_total_doses res \<rparr>,
       doc_uploaded_at = clock e 0 \<rparr>"

text \<open>The handler. Before the first upload \<^verbatim>\<open>stockDoses\<close> holds no document (\<open>None\<close>);
  an exception in the loop leaves it as it is.\<close>

definition stock_doses_upload ::
  "env \<Rightarrow> labelled_row list \<Rightarrow> stock_doc option store
   \<Rightarrow> stock_results response \<times> stock_doc option store" where
  "stock_doses_upload e rawData st =
     (case stock_rows rawData ([], [], \<lparr> n_stocks = 0, n_dilutions = 0, n_total_doses = 0 \<rparr>) of
        Inl err \<Rightarrow> (Failure 500 (message err), st)
      | Inr (stocks0, dilutions0, res) \<Rightarrow>
          (Success res, \<lparr> mem = Some (stock_document e stocks0 dilutions0 res),
                          disk = Some (stock_document e stocks0 dilutions0 res) \<rparr>))"

section \<open>Turnaround ingest and the by-priority rollup\<close>

text \<open>\<^verbatim>\<open>headerRow.indexOf(label)\<close>: the position of the first cell that is the string
  \<open>label\<close>, \<open>-1\<close> when there is none.\<close>

definition indexOf :: "row \<Rightarrow> string \<Rightarrow> int" where
  "indexOf r label = (case findIndex (\<lambda>c. c = Str label) r of None \<Rightarrow> - 1 | Some i \<Rightarrow> int i)"

text \<open>
  The string a number prints as, used where a cell becomes a property key: the integer part
  and, for a number that is not whole, up to 17 digits of its fraction (numbers in exponent
  notation are outside the model).
\<close>

fun fraction_digits :: "nat \<Rightarrow> real \<Rightarrow> string" where
  "fraction_digits 0 x = []"
| "fraction_digits (Suc n) x =
     (if x = 0 then [] else digit_char \<lfloor>x * 10\<rfloor> # fraction_digits n (x * 10 - of_int \<lfloor>x * 10\<rfloor>))"

definition number_to_string :: "real \<Rightarrow> string" where
  "number_to_string x =
     (let a = \<bar>x\<bar>
      in (if x < 0 then ''-'' else []) @ show_radix 10 \<lfloor>a\<rfloor>
         @ (if a = of_int \<lfloor>a\<rfloor> then [] else CHR ''.'' # fraction_digits 17 (a - of_int \<lfloor>a\<rfloor>)))"

text \<open>\<^verbatim>\<open>ToString\<close> of a cell, as taken when the cell is used as a property key.\<close>

fun to_key :: "cell \<Rightarrow> string" where
  "to_key Undefined = ''undefined''"
| "to_key (Num x) = number_to_string x"
| "to_key (Str s) = s"
| "to_key (Bool b) = (if b then ''true'' else ''false'')"

text \<open>
  \<^verbatim>\<open>x.toFixed(1)\<close>, as the number its digits denote: the multiple of one tenth nearest
  to the exact value of the double \<open>x\<close>, the larger one of two that are equally near (for a
  negative \<open>x\<close>, the sign is set aside first). \<^verbatim>\<open>parseFloat\<close> then reads the digits as
  the nearest double.
\<close>

definition toFixed1 :: "real \<Rightarrow> real" where
  "toFixed1 x = (if x < 0 then - (of_int \<lfloor>- x * 10 + 1 / 2\<rfloor> / 10) else of_int \<lfloor>x * 10 + 1 / 2\<rfloor> / 10)"

text \<open>\<^verbatim>\<open>count > 0 ? parseFloat((total_time / count).toFixed(1)) : 0\<close>\<close>

definition average1 :: "real \<Rightarrow> int \<Rightarrow> real" where
  "average1 time n =
     (if n > 0 then to_double (toFixed1 (to_double (time / real_of_int n))) else 0)"

record stats =
  count :: int
  total_time :: real

text \<open>
  \<^verbatim>\<open>
  if (!acc[k]) { acc[k] = { count: 0, total_time: 0 }; }
  acc[k].count += s.count;
  acc[k].total_time += s.total_time;
  \<close>
  The ingest loop does the same with \<^verbatim>\<open>count++\<close> and its row's time, that is with
  \<open>s = {count: 1, total_time: t}\<close>.
\<close>

fun add_stats :: "'k \<Rightarrow> stats \<Rightarrow> ('k \<times> stats) list \<Rightarrow> ('k \<times> stats) list" where
  "add_stats k s [] = [(k, \<lparr> count = 0 + count s, total_time = to_double (0 + total_time s) \<rparr>)]"
| "add_stats k s (p # ps) =
     (if fst p = k
      then (k, \<lparr> count = count (snd p) + count s,
                 total_time = to_double (total_time (snd p) + total_time s) \<rparr>) # ps
      else p # add_stats k s ps)"

record col_index =
  col_doseId :: int
  col_priority :: int
  col_doseDesc :: int
  col_status :: int
  col_totalTimeline :: int
  col_workstation :: int

text \<open>The columns the loop reads; the handler looks up six more labels that it never uses.\<close>

definition turnaround_columns :: "row \<Rightarrow> col_index" where
  "turnaround_columns headerRow =
     \<lparr> col_doseId = indexOf headerRow ''DoseID'',
       col_priority = indexOf headerRow ''Priority'',
       col_doseDesc = indexOf headerRow ''DoseDescription'',
       col_status = indexOf headerRow ''DoseStatus'',
       col_totalTimeline = indexOf headerRow ''Total Dose Timeline - Start to Sort (m)'',
       col_workstation = indexOf headerRow ''WorkStation'' \<rparr>"

record day_bucket =
  day_count :: int
  day_total_time :: real
  day_by_priority :: "(int \<times> stats) list"
  day_by_workstation :: "(string \<times> stats) list"
  day_by_drug :: "(string \<times> stats) list"

definition empty_bucket :: day_bucket where
  "empty_bucket = \<lparr> day_count = 0, day_total_time = 0, day_by_priority = [],
                     day_by_workstation = [], day_by_drug = [] \<rparr>"

record turnaround_record =
  t_id :: string
  t_date :: string
  t_total_doses :: int
  avg_turnaround :: real
  by_priority :: "(int \<times> stats) list"
  by_workstation :: "(string \<times> stats) list"
  by_drug :: "(string \<times> stats) list"
  t_uploaded_at :: int

record turnaround_results = results +
  counted_doses :: nat

text \<open>
  What a sorted dose adds to the bucket of its day:
  \<^verbatim>\<open>
  byDate[date].count++;
  byDate[date].total_time += totalTimeline;
  // by_priority[priority], by_workstation[workstation]: created when missing, then
  //   .count++; .total_time += totalTimeline;
  // by_drug[drugName]: the same, only when drugName is not empty
  \<close>
\<close>

definition add_to_bucket :: "int \<Rightarrow> string \<Rightarrow> string \<Rightarrow> real \<Rightarrow> day_bucket \<Rightarrow> day_bucket" where
  "add_to_bucket priority workstation drugName totalTimeline b =
     (let one = \<lparr> count = 1, total_time = totalTimeline \<rparr>
      in \<lparr> day_count = day_count b + 1,
           day_total_time = to_double (day_total_time b + totalTimeline),
           day_by_priority = add_stats priority one (day_by_priority b),
           day_by_workstation = add_stats workstation one (day_by_workstation b),
           day_by_drug = (if drugName \<noteq> [] then add_stats drugName one (day_by_drug b)
                          else day_by_drug b) \<rparr>)"

text \<open>
  One iteration of the row loop of \<^verbatim>\<open>POST /api/upload/turnaround\<close>, for the row at index
  \<open>i\<close>. The date of the bucket is read from the clock in the iteration:
  \<^verbatim>\<open>const date = new Date().toISOString().split('T')[0];\<close>
  (reading \<open>i\<close> of the clock). \<^verbatim>\<open>doseDesc.split\<close> throws when the description cell is a
  truthy value that is not a string; it is called before the status is looked at.
\<close>

definition turnaround_row ::
  "env \<Rightarrow> col_index \<Rightarrow> nat \<Rightarrow> row \<Rightarrow> (string \<times> day_bucket) list \<times> nat
   \<Rightarrow> js_error + (string \<times> day_bucket) list \<times> nat" where
  "turnaround_row e colIdx i r s =
     (case s of (byDate, counted) \<Rightarrow>
        if \<not> truthy (cell_at r (col_doseId colIdx)) then Inr s
        else
          (case or_else (cell_at r (col_doseDesc colIdx)) (Str '''') of
             Str doseDesc \<Rightarrow>
               (let drugName = split_first CHR '' '' doseDesc;
                    totalTimeline = parseFloat_or0 (cell_at r (col_totalTimeline colIdx));
                    priority = parseInt_or0 (cell_at r (col_priority colIdx));
                    workstation = to_key (or_else (cell_at r (col_workstation colIdx)) (Str ''Unknown''));
                    status = or_else (cell_at r (col_status colIdx)) (Str '''')
                in if status \<noteq> Str ''Sorted'' then Inr s
                   else
                     (let d = today_iso e i;
                          b = (case map_of byDate d of None \<Rightarrow> empty_bucket | Some b0 \<Rightarrow> b0)
                      in Inr (obj_set d (add_to_bucket priority workstation drugName totalTimeline b)
                                byDate,
                              counted + 1)))
           | _ \<Rightarrow> Inl (TypeError ''doseDesc.split is not a function'')))"

fun turnaround_rows ::
  "env \<Rightarrow> col_index \<Rightarrow> nat \<Rightarrow> row list \<Rightarrow> (string \<times> day_bucket) list \<times> nat
   \<Rightarrow> js_error + (string \<times> day_bucket) list \<times> nat" where
  "turnaround_rows e colIdx i [] s = Inr s"
| "turnaround_rows e colIdx i (r # rs) s =
     (case turnaround_row e colIdx i r s of
        Inl err \<Rightarrow> Inl err
      | Inr s' \<Rightarrow> turnaround_rows e colIdx (Suc i) rs s')"

text \<open>
  \<^verbatim>\<open>Object.entries(byDate).forEach(([date, data]) => { ... })\<close>: the upsert of one bucket.
  \<open>k\<close> numbers the readings of the clock after the row loop.
\<close>

definition turnaround_record_of :: "string \<Rightarrow> string \<Rightarrow> day_bucket \<Rightarrow> int \<Rightarrow> turnaround_record" where
  "turnaround_record_of ident d b t =
     \<lparr> t_id = ident, t_date = d, t_total_doses = day_count b,
       avg_turnaround = average1 (day_total_time b) (day_count b),
       by_priority = day_by_priority b, by_workstation = day_by_workstation b,
       by_drug = day_by_drug b, t_uploaded_at = t \<rparr>"

definition turnaround_save_one ::
  "env \<Rightarrow> nat \<Rightarrow> string \<times> day_bucket \<Rightarrow> turnaround_record list \<times> turnaround_results
   \<Rightarrow> turnaround_record list \<times> turnaround_results" where
  "turnaround_save_one e k entry s =
     (case (entry, s) of ((d, b), (turnaroundData, res)) \<Rightarrow>
        (case findIndex (\<lambda>x. t_date x = d) turnaroundData of
           Some j \<Rightarrow>
             (turnaroundData[j := turnaround_record_of (t_id (turnaroundData ! j)) d b (clock e (k + 1))],
              res\<lparr>updated := updated res + 1\<rparr>)
         | None \<Rightarrow>
             (turnaroundData @ [turnaround_record_of (generateId e k) d b (clock e (k + 1))],
              res\<lparr>added := added res + 1\<rparr>)))"

fun turnaround_save ::
  "env \<Rightarrow> nat \<Rightarrow> (string \<times> day_bucket) list \<Rightarrow> turnaround_record list \<times> turnaround_results
   \<Rightarrow> turnaround_record list \<times> turnaround_results" where
  "turnaround_save e k [] s = s"
| "turnaround_save e k (entry # entries) s =
     turnaround_save e (k + 2) entries (turnaround_save_one e k entry s)"

text \<open>The handler. \<^verbatim>\<open>rawData[0]\<close> of an empty sheet is \<^verbatim>\<open>undefined\<close>, on which
  \<^verbatim>\<open>indexOf\<close> throws. The collection is touched only after the row loop.\<close>

definition turnaround_upload ::
  "env \<Rightarrow> sheet \<Rightarrow> turnaround_record list store
   \<Rightarrow> turnaround_results response \<times> turnaround_record list store" where
  "turnaround_upload e rawData st =
     (case rawData of
        [] \<Rightarrow> (Failure 500 ''Cannot read properties of undefined (reading 'indexOf')'', st)
      | headerRow # rows \<Rightarrow>
          (case turnaround_rows e (turnaround_columns headerRow) 1 rows ([], 0) of
             Inl err \<Rightarrow> (Failure 500 (message err), st)
           | Inr (byDate, counted) \<Rightarrow>
               (case turnaround_save e (length rawData) byDate
                       (mem st, \<lparr> added = 0, updated = 0, counted_doses = counted \<rparr>) of
                  (turnaroundData, res) \<Rightarrow>
                    (let sorted = sort_desc t_date turnaroundData
                     in (Success res, \<lparr> mem = sorted, disk = sorted \<rparr>)))))"

text \<open>
  \<^verbatim>\<open>GET /api/turnaround/by-priority\<close>. The keys of \<^verbatim>\<open>by_priority\<close> are the decimal
  strings of the priorities, which \<^verbatim>\<open>parseInt(priority)\<close> reads back; the model keeps the
  integers. \<^verbatim>\<open>Object.entries\<close> visits the priorities of one record in ascending order and
  the model in the order of insertion; a record has one entry for a priority, so the entries
  of any one priority are met in the order of the records either way. The final sort is
  ascending and stable.
\<close>

definition getPriorityLabel :: "int \<Rightarrow> string" where
  "getPriorityLabel p =
     (if p = 10 then ''STAT'' else if p = 20 then ''ASAP'' else if p = 30 then ''Urgent''
      else if p = 40 then ''Routine'' else if p = 45 then ''Standard''
      else if p = 50 then ''Low'' else if p = 55 then ''Batch''
      else ''Priority '' @ show_int p)"

record priority_row =
  priority :: int
  priority_label :: string
  row_count :: int
  row_avg_turnaround :: real

definition merge_by_priority :: "turnaround_record list \<Rightarrow> (int \<times> stats) list" where
  "merge_by_priority filtered =
     fold (\<lambda>d acc. fold (\<lambda>(p, s) acc'. add_stats p s acc') (by_priority d) acc) filtered []"

definition priority_row_of :: "int \<times> stats \<Rightarrow> priority_row" where
  "priority_row_of entry =
     (case entry of (p, s) \<Rightarrow>
        \<lparr> priority = p, priority_label = getPriorityLabel p, row_count = count s,
          row_avg_turnaround = average1 (total_time s) (count s) \<rparr>)"

definition turnaround_by_priority ::
  "env \<Rightarrow> string option \<Rightarrow> turnaround_record list \<Rightarrow> priority_row list" where
  "turnaround_by_priority e days turnaroundData =
     (let filtered = filter (\<lambda>d. on_or_after (t_date d) (window_cutoff e days)) turnaroundData
      in sort_key priority (map priority_row_of (merge_by_priority filtered)))"

section \<open>Usage and detailed-wastage ingest\<close>



subsection \<open>\<^verbatim>\<open>POST /api/upload/usage\<close>\<close>





















subsection \<open>\<^verbatim>\<open>POST /api/upload/detailed-wastage\<close>\<close>














section \<open>Concrete inputs\<close>

text \<open>An environment whose clock starts at 2023-11-14T22:13:20Z and advances one
  millisecond per reading, on a server that runs in UTC, and empty stores.\<close>

definition env0 :: env where
  "env0 = \<lparr> clock = (\<lambda>k. 1700000000000 + int k), random = (\<lambda>k. ''q1w2e3r4t''),
            LocalTZA = (\<lambda>t isUTC. 0) \<rparr>"

definition no_production :: "production_record list store" where
  "no_production = \<lparr> mem = [], disk = [] \<rparr>"

definition no_bypass :: "bypass_record list store" where
  "no_bypass = \<lparr> mem = [], disk = [] \<rparr>"


definition sheet_half_hours :: sheet where
  "sheet_half_hours = [[Str ''EntryDate'', Str ''8:00'', Str ''8:30''], [Num 45000, Num 5, Num 7]]"

definition bypass_half_hours :: sheet where
  "bypass_half_hours = [[Str ''Location'', Str ''8:00'', Str ''8:30''], [Str ''ICU'', Num 5, Num 7]]"

definition sheet_wrong_header :: sheet where
  "sheet_wrong_header = [[Str ''Date'', Str ''8:00''], [Num 45000, Num 5]]"

definition hours_8_9 :: "(nat \<times> int option) list" where
  "hours_8_9 = [(1, Some 8), (2, Some 9)]"

definition row_45000 :: row where
  "row_45000 = [Num 45000, Num 5, Num 7]"

definition row_icu :: row where
  "row_icu = [Str ''ICU'', Num 5, Num 7]"

definition stored_day :: "production_record list" where
  "stored_day = [\<lparr> id' = ''lf9x0k3ab12cd34ef'', date = ''2023-03-15'', total_doses = 3,
                   hourly = [(Some 8, 3)], uploaded_at = 1678900000000 \<rparr>]"

definition stored_icu :: "bypass_record list" where
  "stored_icu = [\<lparr> b_id = ''lf9x0k3zz98yx76wv'', location = Str ''ICU'', total_bypasses = 1,
                   b_hourly = [(Some 8, 1)], b_uploaded_at = 1678900000000 \<rparr>]"

definition no_results :: results where
  "no_results = \<lparr> added = 0, updated = 0 \<rparr>"

text \<open>An environment in which every reading of the clock gives the same millisecond and
  every random draw the same digits.\<close>

definition env_frozen :: env where
  "env_frozen = \<lparr> clock = (\<lambda>k. 1700000000000), random = (\<lambda>k. ''q1w2e3r4t''),
            LocalTZA = (\<lambda>t isUTC. 0) \<rparr>"

text \<open>A second environment (a later upload), and a file with two rows of one date.\<close>

definition env1 :: env where
  "env1 = \<lparr> clock = (\<lambda>k. 1700000600000 + int k), random = (\<lambda>k. ''z9y8x7w6v''),
            LocalTZA = (\<lambda>t isUTC. 0) \<rparr>"

definition sheet_three_rows :: sheet where
  "sheet_three_rows =
     [[Str ''EntryDate'', Str ''8:00'', Str ''9:00''],
      [Num 45000, Num 5, Num 7],
      [Num 45001.5, Num 1, Str ''2''],
      [Undefined, Num 9, Num 9],
      [Num 45000, Num 3, Num 4]]"

text \<open>Three stored days around the boundary of a 30-day window asked for at
  2023-11-14T22:13:20Z: 2023-10-14, 2023-10-15 (today minus 30) and 2023-10-16.\<close>

definition day_record :: "string \<Rightarrow> production_record" where
  "day_record d = \<lparr> id' = ''lnp0000aa1b2c3d4e'', date = d, total_doses = 1,
                    hourly = [(Some 8, 1)], uploaded_at = 1697500000000 \<rparr>"

definition boundary_days :: "production_record list" where
  "boundary_days = [day_record ''2023-10-16'', day_record ''2023-10-15'', day_record ''2023-10-14'']"

text \<open>An environment whose clock reads 2023-11-14T00:00:00.000Z.\<close>

definition env_midnight :: env where
  "env_midnight = \<lparr> clock = (\<lambda>k. 1699920000000), random = (\<lambda>k. ''q1w2e3r4t''),
            LocalTZA = (\<lambda>t isUTC. 0) \<rparr>"

text \<open>
  A server in New York at 2023-11-14T00:30:00Z, which is 19:30 of 13 November there
  (UTC-5). Until 2023-11-05T06:00:00Z, 02:00 local time, the zone was at UTC-4; no other
  change of the offset is described.
\<close>

definition env_new_york :: env where
  "env_new_york =
     \<lparr> clock = (\<lambda>k. 1699921800000), random = (\<lambda>k. ''q1w2e3r4t''),
       LocalTZA = (\<lambda>t isUTC. if isUTC then (if t < 1699164000000 then - 14400000 else - 18000000)
                             else (if t < 1699149600000 then - 14400000 else - 18000000)) \<rparr>"

text \<open>A stock-doses sheet: a dilution, a stock, a dose of neither kind, and a row whose
  Dose cell is empty.\<close>

definition stock_sheet :: "labelled_row list" where
  "stock_sheet =
     [[(''Dose'', Str ''DILUTION: BAXA - VIT C 25ML''), (''Total'', Num 4)],
      [(''Dose'', Str ''stock: Heparin 10 units''), (''Total'', Num 9)],
      [(''Dose'', Str ''Cefazolin 1 g''), (''Total'', Str ''6'')],
      [(''Total'', Num 5)]]"

definition no_stock_doc :: "stock_doc option store" where
  "no_stock_doc = \<lparr> mem = None, disk = None \<rparr>"

text \<open>Two rows without a usable Dose: an empty string, and no Dose cell at all.\<close>

definition doseless_sheet :: "labelled_row list" where
  "doseless_sheet = [[(''Dose'', Str ''''), (''Total'', Num 5)], [(''Total'', Num 5)]]"

definition no_stock_results :: stock_results where
  "no_stock_results = \<lparr> n_stocks = 0, n_dilutions = 0, n_total_doses = 0 \<rparr>"

text \<open>A turnaround sheet with three sorted doses, one dose still in preparation and one
  row without a dose identifier.\<close>

definition turnaround_sheet :: sheet where
  "turnaround_sheet =
     [[Str ''DoseID'', Str ''Priority'', Str ''DoseDescription'', Str ''DoseStatus'',
       Str ''Total Dose Timeline - Start to Sort (m)'', Str ''WorkStation''],
      [Num 101, Num 10, Str ''Heparin 5000 units'', Str ''Sorted'', Num 12.5, Str ''WS1''],
      [Num 102, Num 40, Str ''Cefazolin 1 g'', Str ''Sorted'', Num 30, Num 2],
      [Num 103, Num 10, Str ''Heparin 5000 units'', Str ''Preparing'', Num 3, Str ''WS1''],
      [Undefined, Num 10, Str ''Heparin'', Str ''Sorted'', Num 3, Str ''WS1''],
      [Num 104, Str ''10'', Str ''Insulin 10 units'', Str ''Sorted'', Str ''7.25'', Undefined]]"

definition no_turnaround :: "turnaround_record list store" where
  "no_turnaround = \<lparr> mem = [], disk = [] \<rparr>"

text \<open>An environment whose clock passes midnight UTC between the first and the second
  reading after the start: 2023-11-14T23:59:59.999Z, then 2023-11-15T00:00:00.000Z.\<close>

definition env_straddle :: env where
  "env_straddle = \<lparr> clock = (\<lambda>k. 1700006399998 + int k), random = (\<lambda>k. ''q1w2e3r4t''),
            LocalTZA = (\<lambda>t isUTC. 0) \<rparr>"

text \<open>
  Two turnaround sheets, uploaded one on 13 November 2023 at 10:00 UTC and the other on
  the day after: three doses of priority 20 and one of priority 10, then two doses of
  priority 20 and one of priority 40. All times are doubles, and the five times of priority
  20 add up to 1.75 without rounding.
\<close>

definition env_monday :: env where
  "env_monday = \<lparr> clock = (\<lambda>k. 1699869600000 + int k), random = (\<lambda>k. ''m0n1d2a3y''),
            LocalTZA = (\<lambda>t isUTC. 0) \<rparr>"

definition turnaround_header :: row where
  "turnaround_header =
     [Str ''DoseID'', Str ''Priority'', Str ''DoseDescription'', Str ''DoseStatus'',
      Str ''Total Dose Timeline - Start to Sort (m)'', Str ''WorkStation'']"

definition turnaround_monday :: sheet where
  "turnaround_monday =
     [turnaround_header,
      [Num 1, Num 20, Str ''A 1'', Str ''Sorted'', Num 0.25, Str ''W''],
      [Num 2, Num 20, Str ''A 1'', Str ''Sorted'', Num 0.5, Str ''W''],
      [Num 3, Num 20, Str ''A 1'', Str ''Sorted'', Num 0.25, Str ''W''],
      [Num 4, Num 10, Str ''B 1'', Str ''Sorted'', Num 12.5, Str ''W'']]"

definition turnaround_tuesday :: sheet where
  "turnaround_tuesday =
     [turnaround_header,
      [Num 5, Num 20, Str ''A 1'', Str ''Sorted'', Num 0.5, Str ''W''],
      [Num 6, Num 20, Str ''A 1'', Str ''Sorted'', Num 0.25, Str ''W''],
      [Num 7, Num 40, Str ''C 1'', Str ''Sorted'', Num 30, Str ''W'']]"

text \<open>What the two uploads leave, the first one in an empty collection.\<close>

definition monday_record :: turnaround_record where
  "monday_record =
     \<lparr> t_id = ''lowqgxs5m0n1d2a3y'', t_date = ''2023-11-13'', t_total_doses = 4,
       avg_turnaround = to_double 3.4,
       by_priority = [(20, \<lparr> count = 3, total_time = 1 \<rparr>),
                      (10, \<lparr> count = 1, total_time = 12.5 \<rparr>)],
       by_workstation = [(''W'', \<lparr> count = 4, total_time = 13.5 \<rparr>)],
       by_drug = [(''A'', \<lparr> count = 3, total_time = 1 \<rparr>),
                  (''B'', \<lparr> count = 1, total_time = 12.5 \<rparr>)],
       t_uploaded_at = 1699869600006 \<rparr>"

definition tuesday_record :: turnaround_record where
  "tuesday_record =
     \<lparr> t_id = ''loyw3v2cq1w2e3r4t'', t_date = ''2023-11-14'', t_total_doses = 3,
       avg_turnaround = to_double 10.3,
       by_priority = [(20, \<lparr> count = 2, total_time = 0.75 \<rparr>),
                      (40, \<lparr> count = 1, total_time = 30 \<rparr>)],
       by_workstation = [(''W'', \<lparr> count = 3, total_time = 30.75 \<rparr>)],
       by_drug = [(''A'', \<lparr> count = 2, total_time = 0.75 \<rparr>),
                  (''C'', \<lparr> count = 1, total_time = 30 \<rparr>)],
       t_uploaded_at = 1700000000005 \<rparr>"

definition after_monday :: "turnaround_record list store" where
  "after_monday = \<lparr> mem = [monday_record], disk = [monday_record] \<rparr>"

definition after_tuesday :: "turnaround_record list store" where
  "after_tuesday = \<lparr> mem = [tuesday_record, monday_record],
                     disk = [tuesday_record, monday_record] \<rparr>"







section \<open>Notions used to state and prove the properties\<close>

text \<open>
  By how much the server's offset from UTC at the instant of the request exceeds the offset
  in force at the same local time \<open>n\<close> days earlier (zero where the zone has no daylight
  saving time), and the instant of the request moved by that much.
\<close>

definition offset_change :: "env \<Rightarrow> int \<Rightarrow> int" where
  "offset_change e n =
     LocalTZA e (clock e 0) True - LocalTZA e (LocalTime e (clock e 0) - n * msPerDay) False"

definition window_instant :: "env \<Rightarrow> int \<Rightarrow> int" where
  "window_instant e n = clock e 0 + offset_change e n"

text \<open>The data rows of a sheet that the production and bypass loops do not skip: the rows
  after the header whose first cell is truthy.\<close>

definition ingested_rows :: "sheet \<Rightarrow> row list" where
  "ingested_rows rawData = filter (\<lambda>r. truthy (cell_at r 0)) (tl rawData)"

text \<open>A production record with its upload time blanked, to compare records up to
  \<^verbatim>\<open>uploaded_at\<close>.\<close>

definition without_upload_time :: "production_record \<Rightarrow> production_record" where
  "without_upload_time x = x\<lparr>uploaded_at := 0\<rparr>"

text \<open>The upsert of the row loop written by recursion on the collection: the first record
  of the date is replaced by the new record under the old identifier, and a collection
  without the date gets the new record, under the fresh identifier, at its end.\<close>

fun place :: "(string \<Rightarrow> production_record) \<Rightarrow> string \<Rightarrow> string \<Rightarrow> production_record list
    \<Rightarrow> production_record list" where
  "place mk fresh d [] = [mk fresh]"
| "place mk fresh d (x # xs) = (if date x = d then mk (id' x) # xs else x # place mk fresh d xs)"

text \<open>The totals and hourly map of the first record of a date.\<close>

fun first_body :: "string \<Rightarrow> production_record list \<Rightarrow> (int \<times> (int option \<times> int) list) option" where
  "first_body d [] = None"
| "first_body d (x # xs) = (if date x = d then Some (total_doses x, hourly x) else first_body d xs)"

text \<open>Overwriting, for every date in a table, the totals and hourly map of the first record
  of that date (and blanking its upload time).\<close>

fun overwrite :: "(string \<rightharpoonup> int \<times> (int option \<times> int) list) \<Rightarrow> production_record list
    \<Rightarrow> production_record list" where
  "overwrite m [] = []"
| "overwrite m (x # xs) =
     (case m (date x) of
        None \<Rightarrow> x
      | Some (t, h) \<Rightarrow> x\<lparr>total_doses := t, hourly := h, uploaded_at := 0\<rparr>)
     # overwrite (m(date x := None)) xs"

text \<open>The table of a file: for every date among its ingested rows, the totals and hourly
  map of the last row of that date.\<close>

fun final_rows :: "(nat \<times> int option) list \<Rightarrow> row list \<Rightarrow> (string \<rightharpoonup> int \<times> (int option \<times> int) list)" where
  "final_rows hourMap [] = Map.empty"
| "final_rows hourMap (r # rs) =
     (if truthy (cell_at r 0)
      then (case excelDateToISO (cell_at r 0) of
              Inr d \<Rightarrow> [d \<mapsto> (snd (hour_counts hourMap r), fst (hour_counts hourMap r))]
            | Inl err \<Rightarrow> Map.empty)
      else Map.empty) ++ final_rows hourMap rs"

text \<open>The stock record the loop builds from a row whose Dose is the string \<open>d\<close>.\<close>

definition stock_record_of :: "labelled_row \<Rightarrow> string \<Rightarrow> stock_record" where
  "stock_record_of r d =
     \<lparr> name = clean_name d, original = d, total' = parseInt_or0 (field r ''Total''),
       size' = size_match d,
       dose_type = (if startsWith (toUpperCase d) ''DILUTION:'' then ''Dilution''
                    else if startsWith (toUpperCase d) ''STOCK:'' then ''Stock'' else ''Other'') \<rparr>"

text \<open>The Dose string of a row, when it has one.\<close>

definition dose_string :: "labelled_row \<Rightarrow> string" where
  "dose_string r = (case dose_of r of Str d \<Rightarrow> d | _ \<Rightarrow> [])"

definition is_dilution_row :: "labelled_row \<Rightarrow> bool" where
  "is_dilution_row r = (truthy (dose_of r) \<and> startsWith (toUpperCase (dose_string r)) ''DILUTION:'')"

definition is_stock_row :: "labelled_row \<Rightarrow> bool" where
  "is_stock_row r = (truthy (dose_of r) \<and> \<not> startsWith (toUpperCase (dose_string r)) ''DILUTION:'')"

text \<open>
  The count of a priority in a list of by-priority entries: the sum of the counts of the
  entries of that priority. The time of a priority: the sum of the times of those entries,
  added one after the other in the order of the list, each sum a double. The count of all
  entries together.
\<close>

definition count_at :: "int \<Rightarrow> (int \<times> stats) list \<Rightarrow> int" where
  "count_at p es = sum_list (map (\<lambda>entry. if fst entry = p then count (snd entry) else 0) es)"

definition time_at :: "int \<Rightarrow> (int \<times> stats) list \<Rightarrow> real" where
  "time_at p es =
     foldl (\<lambda>a x. to_double (a + x)) 0
       (map (\<lambda>entry. total_time (snd entry)) (filter (\<lambda>entry. fst entry = p) es))"

text \<open>The time stored under a key of an object, \<open>0\<close> when the key is not there.\<close>

definition time_of :: "'k \<Rightarrow> ('k \<times> stats) list \<Rightarrow> real" where
  "time_of p acc = (case map_of acc p of None \<Rightarrow> 0 | Some s \<Rightarrow> total_time s)"

definition counts_total :: "('k \<times> stats) list \<Rightarrow> int" where
  "counts_total es = sum_list (map (\<lambda>entry. count (snd entry)) es)"

text \<open>The records a windowed turnaround query keeps, and all their by-priority entries.\<close>

definition turnaround_window :: "env \<Rightarrow> string option \<Rightarrow> turnaround_record list \<Rightarrow> turnaround_record list" where
  "turnaround_window e days turnaroundData =
     filter (\<lambda>d. on_or_after (t_date d) (window_cutoff e days)) turnaroundData"

definition priority_entries :: "turnaround_record list \<Rightarrow> (int \<times> stats) list" where
  "priority_entries filtered = concat (map by_priority filtered)"

text \<open>The turnaround collections the program can hold: the empty one (at the start, and
  after the bulk clear) and what a successful turnaround upload leaves.\<close>

inductive ingested_turnaround :: "turnaround_record list \<Rightarrow> bool" where
  nothing: "ingested_turnaround []"
| upload: "ingested_turnaround (mem st) \<Longrightarrow> turnaround_upload e rawData st = (Success res, st')
           \<Longrightarrow> ingested_turnaround (mem st')"









section \<open>Basic facts about the built-ins\<close>

lemma findIndex_Some_iff:
  "findIndex P xs = Some j \<longleftrightarrow> j < length xs \<and> P (xs ! j) \<and> (\<forall>k<j. \<not> P (xs ! k))"
proof (induction xs arbitrary: j)
  case Nil
  then show ?case by simp
next
  case (Cons x xs)
  show ?case
  proof (cases "P x")
    case True
    then show ?thesis by (cases j) auto
  next
    case False
    then show ?thesis using Cons.IH
      by (cases j) (auto simp: less_Suc_eq_0_disj)
  qed
qed

lemma findIndex_None_iff: "findIndex P xs = None \<longleftrightarrow> (\<forall>x\<in>set xs. \<not> P x)"
  by (induction xs) auto

lemma findIndex_ex: "\<exists>x\<in>set xs. P x \<Longrightarrow> \<exists>j. findIndex P xs = Some j"
  using findIndex_None_iff [of P xs] by (cases "findIndex P xs") auto

lemma set_insort_desc [simp]: "set (insort_desc f r xs) = insert r (set xs)"
  by (induction xs) auto

lemma set_sort_desc [simp]: "set (sort_desc f xs) = set xs"
  by (induction xs) (auto simp: sort_desc_def)

lemma length_insort_desc [simp]: "length (insort_desc f r xs) = Suc (length xs)"
  by (induction xs) auto

lemma length_sort_desc [simp]: "length (sort_desc f xs) = length xs"
  by (induction xs) (auto simp: sort_desc_def)

section \<open>Rounding to a double\<close>









section \<open>The row loop of the turnaround ingest\<close>

lemma set_obj_set: "set (obj_set k v kvs) \<subseteq> insert (k, v) (set kvs)"
  by (induction kvs) auto

lemma turnaround_row_cases:
  assumes "turnaround_row e colIdx i r (byDate, n) = Inr (byDate', n')"
  shows "(byDate', n') = (byDate, n)
       \<or> (\<exists>p w g t. byDate' = obj_set (today_iso e i)
                 (add_to_bucket p w g t
                    (case map_of byDate (today_iso e i) of None \<Rightarrow> empty_bucket | Some b0 \<Rightarrow> b0))
                 byDate \<and> n' = n + 1)"
  using assms
  by (auto simp: turnaround_row_def Let_def split: if_splits cell.splits)

section \<open>The hourly invariant\<close>

text \<open>
  The loop over the hour columns adds every count to the total and stores it under its
  hour. When no hour occurs twice among the columns, the stored values add up to the
  total.
\<close>

lemma sum_obj_set_fresh:
  "k \<notin> fst ` set kvs \<Longrightarrow> sum_list (map snd (obj_set k v kvs)) = sum_list (map snd kvs) + (v::int)"
  by (induction kvs) auto

lemma keys_obj_set: "fst ` set (obj_set k v kvs) = insert k (fst ` set kvs)"
  by (induction kvs) auto

lemma hour_fold_sum:
  "distinct (map snd hourMap) \<Longrightarrow> fst ` set hrly \<inter> snd ` set hourMap = {} \<Longrightarrow>
   sum_list (map snd hrly) = tot \<Longrightarrow>
   sum_list (map snd (fst (fold (hour_step r) hourMap (hrly, tot))))
     = snd (fold (hour_step r) hourMap (hrly, tot))"
proof (induction hourMap arbitrary: hrly tot)
  case Nil
  then show ?case by simp
next
  case (Cons p hourMap)
  obtain c h where p: "p = (c, h)" by (cases p)
  define n where "n = parseInt_or0 (cell_at r (int c))"
  have step: "hour_step r p (hrly, tot) = (obj_set h n hrly, tot + n)"
    by (simp add: hour_step_def p n_def Let_def)
  have fresh: "h \<notin> fst ` set hrly" using Cons.prems(2) p by auto
  have d: "distinct (map snd hourMap)" and hn: "h \<notin> snd ` set hourMap"
    using Cons.prems(1) p by auto
  have disj: "fst ` set (obj_set h n hrly) \<inter> snd ` set hourMap = {}"
    using Cons.prems(2) hn by (auto simp: keys_obj_set)
  have sm: "sum_list (map snd (obj_set h n hrly)) = tot + n"
    using fresh Cons.prems(3) by (simp add: sum_obj_set_fresh)
  show ?case
    using Cons.IH [OF d disj sm] by (simp add: step)
qed

lemma hour_counts_sum:
  "distinct (map snd hourMap) \<Longrightarrow>
   sum_list (map snd (fst (hour_counts hourMap r))) = snd (hour_counts hourMap r)"
  using hour_fold_sum [of hourMap "[]" 0 r]
  by (simp add: hour_counts_def)

text \<open>
  Claim C1. Every stored production (bypass) record has \<open>total_doses\<close>
  (\<open>total_bypasses\<close>) equal to the sum of the values of its hourly map, for any workbook.
  The handlers do not keep this on a header with two columns of the same hour: with the
  header \<^verbatim>\<open>["EntryDate","8:00","8:30"]\<close> and the row \<^verbatim>\<open>[45000, 5, 7]\<close>, both counts enter
  the total, 12, while \<^verbatim>\<open>hourly[8]\<close> is assigned twice and keeps 7. The same happens in
  the bypass handler.
\<close>

theorem hourly_sum_lost_on_repeated_hour:
  "map (\<lambda>r. (total_doses r, hourly r, sum_list (map snd (hourly r))))
       (mem (snd (production_upload env0 sheet_half_hours no_production)))
     = [(12, [(Some 8, 7)], 7)]
   \<and> map (\<lambda>r. (total_bypasses r, b_hourly r, sum_list (map snd (b_hourly r))))
       (mem (snd (bypass_upload env0 bypass_half_hours no_bypass)))
     = [(12, [(Some 8, 7)], 7)]"
proof -
  have p: "map (\<lambda>r. (total_doses r, hourly r, sum_list (map snd (hourly r))))
       (mem (snd (production_upload env0 sheet_half_hours no_production)))
     = [(12, [(Some 8, 7)], 7)]"
    by code_simp
  have b: "map (\<lambda>r. (total_bypasses r, b_hourly r, sum_list (map snd (b_hourly r))))
       (mem (snd (bypass_upload env0 bypass_half_hours no_bypass)))
     = [(12, [(Some 8, 7)], 7)]"
    by code_simp
  from p b show ?thesis by blast
qed

section \<open>The rolling window\<close>

lemma window_cutoff_Some:
  "parseInt (case days of None \<Rightarrow> Num 30 | Some s \<Rightarrow> Str s) = Some n \<Longrightarrow>
   \<bar>window_instant e n - n * msPerDay\<bar> \<le> 8640000000000000 \<Longrightarrow>
   window_cutoff e days = Some (window_instant e n - n * msPerDay)"
  by (simp add: window_cutoff_def Date_new_def window_instant_def offset_change_def
      LocalTime_def UTC_def Let_def)

lemma day_compare:
  fixes now D n :: int
  shows "now - n * 86400000 \<le> D * 86400000 \<longleftrightarrow>
         (if now mod 86400000 = 0 then now div 86400000 - n \<le> D else now div 86400000 - n + 1 \<le> D)"
proof -
  define q where "q = now div 86400000"
  define r where "r = now mod 86400000"
  have now: "now = q * 86400000 + r" and r: "0 \<le> r" "r < 86400000"
    by (simp_all add: q_def r_def)
  show ?thesis
    unfolding q_def [symmetric] r_def [symmetric] using r
    by (auto simp: now)
qed

lemma in_window_iff:
  assumes "parseInt (case days of None \<Rightarrow> Num 30 | Some s \<Rightarrow> Str s) = Some n"
    and "\<bar>window_instant e n - n * msPerDay\<bar> \<le> 8640000000000000"
    and "Date_parse d = Some (D * msPerDay)"
  shows "on_or_after d (window_cutoff e days) \<longleftrightarrow>
         (if window_instant e n mod msPerDay = 0 then window_instant e n div msPerDay - n \<le> D
          else window_instant e n div msPerDay - n + 1 \<le> D)"
  using assms(3) day_compare [of "window_instant e n" n D]
  by (simp add: on_or_after_def window_cutoff_Some [OF assms(1,2)] msPerDay_def)

text \<open>
  Claim C2, as the code has it. A windowed query compares the instant a record's date
  denotes, midnight UTC of that day, with the cutoff: the local time of the request moved
  back by \<open>days\<close> calendar days, at the same local time of day. Let \<open>W\<close> be the instant of
  the request, moved by the change of the server's offset from UTC between the request and
  the same local time \<open>days\<close> days earlier; \<open>W\<close> is the instant of the request itself when
  the two offsets are equal, as they are on a server without daylight saving time. The
  cutoff is \<open>W\<close> minus \<open>days\<close> times 24 hours. With \<open>today\<close> the UTC date of \<open>W\<close>: a record
  dated \<open>today - days + 1\<close> or later passes the filter, a record dated \<open>today - days - 1\<close>
  or earlier does not, and a record dated exactly \<open>today - days\<close> passes only when \<open>W\<close>
  falls on 00:00:00.000 UTC. This is so for the filter that every windowed endpoint applies
  (any date string \<open>d\<close>), and so for the records of the production daily query. (\<open>days\<close>
  is the number \<^verbatim>\<open>parseInt\<close> reads from the parameter, 30 by default.)
\<close>

theorem window_counts_back_from_the_instant:
  assumes "parseInt (case days of None \<Rightarrow> Num 30 | Some s \<Rightarrow> Str s) = Some n"
    and "\<bar>window_instant e n - n * msPerDay\<bar> \<le> 8640000000000000"
    and "r \<in> set productionData"
    and "Date_parse (date r) = Some (D * msPerDay)"
    and "Date_parse d = Some (D' * msPerDay)"
  shows "(window_instant e n div msPerDay - n + 1 \<le> D \<longrightarrow>
            r \<in> set (production_daily e days productionData))
       \<and> (D \<le> window_instant e n div msPerDay - n - 1 \<longrightarrow>
            r \<notin> set (production_daily e days productionData))
       \<and> (D = window_instant e n div msPerDay - n \<longrightarrow>
            (r \<in> set (production_daily e days productionData)
               \<longleftrightarrow> window_instant e n mod msPerDay = 0))
       \<and> (on_or_after d (window_cutoff e days) \<longleftrightarrow>
            (if window_instant e n mod msPerDay = 0 then window_instant e n div msPerDay - n \<le> D'
             else window_instant e n div msPerDay - n + 1 \<le> D'))
       \<and> window_cutoff e days = Some (window_instant e n - n * msPerDay)
       \<and> (LocalTZA e (clock e 0) True
             = LocalTZA e (LocalTime e (clock e 0) - n * msPerDay) False \<longrightarrow>
            window_instant e n = clock e 0)"
proof -
  have 1: "(window_instant e n div msPerDay - n + 1 \<le> D \<longrightarrow>
            r \<in> set (production_daily e days productionData))
       \<and> (D \<le> window_instant e n div msPerDay - n - 1 \<longrightarrow>
            r \<notin> set (production_daily e days productionData))
       \<and> (D = window_instant e n div msPerDay - n \<longrightarrow>
            (r \<in> set (production_daily e days productionData)
               \<longleftrightarrow> window_instant e n mod msPerDay = 0))"
    using assms(3) in_window_iff [OF assms(1,2,4)]
    by (auto simp: production_daily_def split: if_splits)
  have 2: "on_or_after d (window_cutoff e days) \<longleftrightarrow>
            (if window_instant e n mod msPerDay = 0 then window_instant e n div msPerDay - n \<le> D'
             else window_instant e n div msPerDay - n + 1 \<le> D')"
    using assms(1,2,5) by (rule in_window_iff)
  have 3: "window_cutoff e days = Some (window_instant e n - n * msPerDay)"
    using assms(1,2) by (rule window_cutoff_Some)
  have 4: "LocalTZA e (clock e 0) True
             = LocalTZA e (LocalTime e (clock e 0) - n * msPerDay) False \<longrightarrow>
            window_instant e n = clock e 0"
    by (simp add: window_instant_def offset_change_def)
  show ?thesis by (insert 1 2 3 4, elim conjE, intro conjI, assumption+)
qed

theorem window_counts_back_from_the_instant_witness:
  "production_daily env0 (Some ''30'') boundary_days = [day_record ''2023-10-16'']
   \<and> production_daily env_midnight (Some ''30'') boundary_days
       = [day_record ''2023-10-16'', day_record ''2023-10-15'']
   \<and> production_daily env_new_york (Some ''30'') boundary_days
       = [day_record ''2023-10-16'', day_record ''2023-10-15'']
   \<and> window_instant env0 30 = clock env0 0 \<and> clock env0 0 mod msPerDay \<noteq> 0
   \<and> window_instant env_midnight 30 = clock env_midnight 0
   \<and> clock env_midnight 0 mod msPerDay = 0
   \<and> window_instant env_new_york 30 = clock env_new_york 0 - 3600000
   \<and> clock env_new_york 0 div msPerDay = 19675
   \<and> window_instant env_new_york 30 div msPerDay = 19674
   \<and> window_cutoff env_new_york (Some ''30'') = Some 1697326200000
   \<and> day_record ''2023-10-16'' \<in> set (production_daily env0 (Some ''30'') boundary_days)
   \<and> day_record ''2023-10-15'' \<notin> set (production_daily env0 (Some ''30'') boundary_days)
   \<and> day_record ''2023-10-14'' \<notin> set (production_daily env0 (Some ''30'') boundary_days)
   \<and> day_record ''2023-10-15'' \<in> set (production_daily env_midnight (Some ''30'') boundary_days)
   \<and> day_record ''2023-10-15'' \<in> set (production_daily env_new_york (Some ''30'') boundary_days)
   \<and> day_record ''2023-10-14'' \<notin> set (production_daily env_new_york (Some ''30'') boundary_days)
   \<and> on_or_after ''2023-10-16'' (window_cutoff env0 (Some ''30''))
   \<and> \<not> on_or_after ''2023-10-15'' (window_cutoff env0 (Some ''30''))"
proof -
  have p: "parseInt (case Some ''30'' of None \<Rightarrow> Num 30 | Some s \<Rightarrow> Str s) = Some 30"
    by code_simp
  have i: "window_instant env0 30 = 1700000000000"
          "window_instant env_midnight 30 = 1699920000000"
          "window_instant env_new_york 30 = 1699918200000"
    by (simp_all add: window_instant_def offset_change_def LocalTime_def env0_def
        env_midnight_def env_new_york_def msPerDay_def)
  have c: "clock env0 0 = 1700000000000" "clock env_midnight 0 = 1699920000000"
          "clock env_new_york 0 = 1699921800000"
    by (simp_all add: env0_def env_midnight_def env_new_york_def)
  have b: "\<bar>window_instant env0 30 - 30 * msPerDay\<bar> \<le> 8640000000000000"
          "\<bar>window_instant env_midnight 30 - 30 * msPerDay\<bar> \<le> 8640000000000000"
          "\<bar>window_instant env_new_york 30 - 30 * msPerDay\<bar> \<le> 8640000000000000"
    by (simp_all add: i msPerDay_def)
  have m: "day_record ''2023-10-16'' \<in> set boundary_days"
          "day_record ''2023-10-15'' \<in> set boundary_days"
          "day_record ''2023-10-14'' \<in> set boundary_days"
    by (simp_all add: boundary_days_def)
  have d: "Date_parse (date (day_record ''2023-10-16'')) = Some (19646 * msPerDay)"
          "Date_parse (date (day_record ''2023-10-15'')) = Some (19645 * msPerDay)"
          "Date_parse (date (day_record ''2023-10-14'')) = Some (19644 * msPerDay)"
          "Date_parse ''2023-10-16'' = Some (19646 * msPerDay)"
          "Date_parse ''2023-10-15'' = Some (19645 * msPerDay)"
    by code_simp+
  have l: "production_daily env0 (Some ''30'') boundary_days = [day_record ''2023-10-16'']"
          "production_daily env_midnight (Some ''30'') boundary_days
             = [day_record ''2023-10-16'', day_record ''2023-10-15'']"
          "production_daily env_new_york (Some ''30'') boundary_days
             = [day_record ''2023-10-16'', day_record ''2023-10-15'']"
    by code_simp+
  note w = window_counts_back_from_the_instant
  from w [OF p b(1) m(1) d(1) d(4)] w [OF p b(1) m(2) d(2) d(5)] w [OF p b(1) m(3) d(3) d(5)]
       w [OF p b(2) m(2) d(2) d(5)] w [OF p b(3) m(2) d(2) d(5)] w [OF p b(3) m(3) d(3) d(5)]
       i c l
  show ?thesis by (simp add: msPerDay_def)
qed

text \<open>As the claim states it, the record dated exactly \<open>today - days\<close> would be in the
  result. At 2023-11-14T22:13:20Z on a server that runs in UTC and with \<open>days = 30\<close>, the
  stored record of 2023-10-15 is not.\<close>

theorem boundary_day_left_out:
  "Date_parse (date (day_record ''2023-10-15'')) = Some ((clock env0 0 div msPerDay - 30) * msPerDay)
   \<and> day_record ''2023-10-15'' \<in> set boundary_days
   \<and> day_record ''2023-10-15'' \<notin> set (production_daily env0 (Some ''30'') boundary_days)"
  by code_simp

section \<open>Upsert by natural key\<close>

text \<open>Different clock readings print differently in base 36, so two identifiers whose
  clock parts have one length differ when their clock readings or their random suffixes
  differ.\<close>

lemma digit_char_inj:
  assumes "0 \<le> a" "a < 36" "0 \<le> b" "b < 36" "digit_char a = digit_char b"
  shows "a = b"
proof -
  have "(of_char (digit_char a) :: int) = of_char (digit_char b)"
    using assms(5) by simp
  then show ?thesis
    using assms(1-4) by (auto simp: digit_char_def split: if_splits)
qed

lemma show_radix_nonempty: "show_radix b n \<noteq> []"
  by (subst show_radix.simps) simp

lemma show_radix_inj:
  "0 \<le> a \<Longrightarrow> 0 \<le> b \<Longrightarrow> show_radix 36 a = show_radix 36 b \<Longrightarrow> a = b"
proof (induction "nat a" arbitrary: a b rule: less_induct)
  case less
  have sa: "show_radix 36 a = (if a < 36 then [digit_char a]
                               else show_radix 36 (a div 36) @ [digit_char (a mod 36)])"
    by (subst show_radix.simps) simp
  have sb: "show_radix 36 b = (if b < 36 then [digit_char b]
                               else show_radix 36 (b div 36) @ [digit_char (b mod 36)])"
    by (subst show_radix.simps) simp
  show ?case
  proof (cases "a < 36")
    case a: True
    show ?thesis
    proof (cases "b < 36")
      case True
      then show ?thesis
        using a less.prems sa sb by (auto intro: digit_char_inj)
    next
      case False
      then show ?thesis
        using a less.prems(3) sa sb show_radix_nonempty [of 36 "b div 36"] by simp
    qed
  next
    case a: False
    show ?thesis
    proof (cases "b < 36")
      case True
      then show ?thesis
        using a less.prems(3) sa sb show_radix_nonempty [of 36 "a div 36"] by simp
    next
      case False
      then have eq: "show_radix 36 (a div 36) = show_radix 36 (b div 36)"
        and dg: "digit_char (a mod 36) = digit_char (b mod 36)"
        using a less.prems(3) sa sb by simp_all
      have "nat (a div 36) < nat a" using a by (simp add: int_div_less_self nat_less_iff)
      moreover have "0 \<le> a div 36" "0 \<le> b div 36"
        using less.prems(1,2) by (simp_all add: pos_imp_zdiv_nonneg_iff)
      ultimately have q: "a div 36 = b div 36"
        using less.hyps eq by blast
      have "a mod 36 = b mod 36"
        using dg by (intro digit_char_inj) simp_all
      then show ?thesis using q by (metis div_mult_mod_eq)
    qed
  qed
qed

lemma generated_ids_differ:
  assumes "0 \<le> t" and "0 \<le> t'"
    and "length (show_radix 36 t) = length (show_radix 36 t')"
    and "t \<noteq> t' \<or> s \<noteq> s'"
  shows "show_radix 36 t @ s \<noteq> show_radix 36 t' @ s'"
proof
  assume "show_radix 36 t @ s = show_radix 36 t' @ s'"
  then have "show_radix 36 t = show_radix 36 t'" and s: "s = s'"
    using assms(3) by simp_all
  then have "t = t'" using assms(1,2) by (intro show_radix_inj)
  then show False using assms(4) s by simp
qed

lemma generateId_fresh:
  assumes "0 \<le> clock e k"
    and "\<forall>x\<in>set xs. \<exists>t s.
           ident x = show_radix 36 t @ s \<and> 0 \<le> t
           \<and> length (show_radix 36 t) = length (show_radix 36 (clock e k))
           \<and> (t \<noteq> clock e k \<or> s \<noteq> random e k)"
  shows "generateId e k \<notin> ident ` set xs"
proof
  assume "generateId e k \<in> ident ` set xs"
  then obtain x where x: "x \<in> set xs" and g: "ident x = generateId e k" by auto
  from assms(2) x obtain t s where ts: "ident x = show_radix 36 t @ s" "0 \<le> t"
    "length (show_radix 36 t) = length (show_radix 36 (clock e k))"
    "t \<noteq> clock e k \<or> s \<noteq> random e k"
    by blast
  have "show_radix 36 t @ s \<noteq> show_radix 36 (clock e k) @ random e k"
    using ts(2) assms(1) ts(3,4) by (rule generated_ids_differ)
  then show False using g ts(1) by (simp add: generateId_def)
qed

text \<open>The step of the row loop, in its two cases, for a production row and a bypass row.\<close>

lemma upsert_row_steps:
  "(truthy (cell_at r 0) \<and> excelDateToISO (cell_at r 0) = Inr d
      \<and> (\<exists>x\<in>set productionData. date x = d) \<longrightarrow>
      (\<exists>j<length productionData.
         date (productionData ! j) = d \<and> (\<forall>k<j. date (productionData ! k) \<noteq> d) \<and>
         production_row e hourMap i r (productionData, res) =
           Inr (productionData[j := \<lparr> id' = id' (productionData ! j), date = d,
                                        total_doses = snd (hour_counts hourMap r),
                                        hourly = fst (hour_counts hourMap r),
                                        uploaded_at = clock e (2 * i + 1) \<rparr>],
                res\<lparr>updated := updated res + 1\<rparr>)))
   \<and> (truthy (cell_at r 0) \<and> excelDateToISO (cell_at r 0) = Inr d
      \<and> (\<forall>x\<in>set productionData. date x \<noteq> d) \<longrightarrow>
      production_row e hourMap i r (productionData, res) =
        Inr (productionData @ [\<lparr> id' = generateId e (2 * i), date = d,
                                    total_doses = snd (hour_counts hourMap r),
                                    hourly = fst (hour_counts hourMap r),
                                    uploaded_at = clock e (2 * i + 1) \<rparr>],
             res\<lparr>added := added res + 1\<rparr>))
   \<and> (truthy (cell_at r' 0) \<and> (\<exists>x\<in>set bypassData. location x = cell_at r' 0) \<longrightarrow>
      (\<exists>j<length bypassData.
         location (bypassData ! j) = cell_at r' 0
         \<and> (\<forall>k<j. location (bypassData ! k) \<noteq> cell_at r' 0) \<and>
         bypass_row e hourMap i r' (bypassData, res) =
           (bypassData[j := \<lparr> b_id = b_id (bypassData ! j), location = cell_at r' 0,
                                 total_bypasses = snd (hour_counts hourMap r'),
                                 b_hourly = fst (hour_counts hourMap r'),
                                 b_uploaded_at = clock e (2 * i + 1) \<rparr>],
            res\<lparr>updated := updated res + 1\<rparr>)))
   \<and> (truthy (cell_at r' 0) \<and> (\<forall>x\<in>set bypassData. location x \<noteq> cell_at r' 0) \<longrightarrow>
      bypass_row e hourMap i r' (bypassData, res) =
        (bypassData @ [\<lparr> b_id = generateId e (2 * i), location = cell_at r' 0,
                          total_bypasses = snd (hour_counts hourMap r'),
                          b_hourly = fst (hour_counts hourMap r'),
                          b_uploaded_at = clock e (2 * i + 1) \<rparr>],
         res\<lparr>added := added res + 1\<rparr>))"
proof (intro conjI impI)
  assume a: "truthy (cell_at r 0) \<and> excelDateToISO (cell_at r 0) = Inr d
             \<and> (\<exists>x\<in>set productionData. date x = d)"
  then obtain j where j: "findIndex (\<lambda>x. date x = d) productionData = Some j"
    using findIndex_ex [of productionData "\<lambda>x. date x = d"] by blast
  then have "j < length productionData" "date (productionData ! j) = d"
    "\<forall>k<j. date (productionData ! k) \<noteq> d"
    by (simp_all add: findIndex_Some_iff)
  moreover have "production_row e hourMap i r (productionData, res) =
                 Inr (productionData[j := \<lparr> id' = id' (productionData ! j), date = d,
                                              total_doses = snd (hour_counts hourMap r),
                                              hourly = fst (hour_counts hourMap r),
                                              uploaded_at = clock e (2 * i + 1) \<rparr>],
                      res\<lparr>updated := updated res + 1\<rparr>)"
    using a j by (simp add: production_row_def Let_def split: prod.splits)
  ultimately show "\<exists>j<length productionData.
         date (productionData ! j) = d \<and> (\<forall>k<j. date (productionData ! k) \<noteq> d) \<and>
         production_row e hourMap i r (productionData, res) =
           Inr (productionData[j := \<lparr> id' = id' (productionData ! j), date = d,
                                        total_doses = snd (hour_counts hourMap r),
                                        hourly = fst (hour_counts hourMap r),
                                        uploaded_at = clock e (2 * i + 1) \<rparr>],
                res\<lparr>updated := updated res + 1\<rparr>)"
    by blast
next
  assume a: "truthy (cell_at r 0) \<and> excelDateToISO (cell_at r 0) = Inr d
             \<and> (\<forall>x\<in>set productionData. date x \<noteq> d)"
  then have "findIndex (\<lambda>x. date x = d) productionData = None"
    by (simp add: findIndex_None_iff)
  then show "production_row e hourMap i r (productionData, res) =
              Inr (productionData @ [\<lparr> id' = generateId e (2 * i), date = d,
                                          total_doses = snd (hour_counts hourMap r),
                                          hourly = fst (hour_counts hourMap r),
                                          uploaded_at = clock e (2 * i + 1) \<rparr>],
                   res\<lparr>added := added res + 1\<rparr>)"
    using a by (simp add: production_row_def Let_def split: prod.splits)
next
  assume a: "truthy (cell_at r' 0) \<and> (\<exists>x\<in>set bypassData. location x = cell_at r' 0)"
  then obtain j where j: "findIndex (\<lambda>x. location x = cell_at r' 0) bypassData = Some j"
    using findIndex_ex [of bypassData "\<lambda>x. location x = cell_at r' 0"] by blast
  then have "j < length bypassData" "location (bypassData ! j) = cell_at r' 0"
    "\<forall>k<j. location (bypassData ! k) \<noteq> cell_at r' 0"
    by (simp_all add: findIndex_Some_iff)
  moreover have "bypass_row e hourMap i r' (bypassData, res) =
                 (bypassData[j := \<lparr> b_id = b_id (bypassData ! j), location = cell_at r' 0,
                                       total_bypasses = snd (hour_counts hourMap r'),
                                       b_hourly = fst (hour_counts hourMap r'),
                                       b_uploaded_at = clock e (2 * i + 1) \<rparr>],
                  res\<lparr>updated := updated res + 1\<rparr>)"
    using a j by (simp add: bypass_row_def Let_def split: prod.splits)
  ultimately show "\<exists>j<length bypassData.
         location (bypassData ! j) = cell_at r' 0
         \<and> (\<forall>k<j. location (bypassData ! k) \<noteq> cell_at r' 0) \<and>
         bypass_row e hourMap i r' (bypassData, res) =
           (bypassData[j := \<lparr> b_id = b_id (bypassData ! j), location = cell_at r' 0,
                                 total_bypasses = snd (hour_counts hourMap r'),
                                 b_hourly = fst (hour_counts hourMap r'),
                                 b_uploaded_at = clock e (2 * i + 1) \<rparr>],
            res\<lparr>updated := updated res + 1\<rparr>)"
    by blast
next
  assume a: "truthy (cell_at r' 0) \<and> (\<forall>x\<in>set bypassData. location x \<noteq> cell_at r' 0)"
  then have "findIndex (\<lambda>x. location x = cell_at r' 0) bypassData = None"
    by (simp add: findIndex_None_iff)
  then show "bypass_row e hourMap i r' (bypassData, res) =
              (bypassData @ [\<lparr> b_id = generateId e (2 * i), location = cell_at r' 0,
                                total_bypasses = snd (hour_counts hourMap r'),
                                b_hourly = fst (hour_counts hourMap r'),
                                b_uploaded_at = clock e (2 * i + 1) \<rparr>],
               res\<lparr>added := added res + 1\<rparr>)"
    using a by (simp add: bypass_row_def Let_def split: prod.splits)
qed

text \<open>
  Claim C3, as the code has it. For the bucket of an ingested row (production: the row's
  date; bypass: the row's location): when the collection holds a record with that key, the
  first such record is replaced by the newly computed record, which takes over the old
  record's identifier, the collection keeps its length and the counter \<open>updated\<close> goes up
  by one; when no record has the key, a record carrying the identifier that
  \<^verbatim>\<open>generateId()\<close> returns is appended and \<open>added\<close> goes up by one. That identifier is
  the clock reading in base 36 followed by the random suffix, and nothing compares it with
  the identifiers in use. It is an identifier not in use when every identifier in use is
  itself a clock reading in base 36, of as many digits, followed by a suffix, and differs
  from the new one in the clock reading or in the suffix.
\<close>

theorem upsert_by_natural_key:
  "(truthy (cell_at r 0) \<and> excelDateToISO (cell_at r 0) = Inr d
      \<and> (\<exists>x\<in>set productionData. date x = d) \<longrightarrow>
      (\<exists>j<length productionData.
         date (productionData ! j) = d \<and> (\<forall>k<j. date (productionData ! k) \<noteq> d) \<and>
         production_row e hourMap i r (productionData, res) =
           Inr (productionData[j := \<lparr> id' = id' (productionData ! j), date = d,
                                        total_doses = snd (hour_counts hourMap r),
                                        hourly = fst (hour_counts hourMap r),
                                        uploaded_at = clock e (2 * i + 1) \<rparr>],
                res\<lparr>updated := updated res + 1\<rparr>)))
   \<and> (truthy (cell_at r 0) \<and> excelDateToISO (cell_at r 0) = Inr d
      \<and> (\<forall>x\<in>set productionData. date x \<noteq> d) \<longrightarrow>
      production_row e hourMap i r (productionData, res) =
        Inr (productionData @ [\<lparr> id' = generateId e (2 * i), date = d,
                                    total_doses = snd (hour_counts hourMap r),
                                    hourly = fst (hour_counts hourMap r),
                                    uploaded_at = clock e (2 * i + 1) \<rparr>],
             res\<lparr>added := added res + 1\<rparr>))
   \<and> (truthy (cell_at r' 0) \<and> (\<exists>x\<in>set bypassData. location x = cell_at r' 0) \<longrightarrow>
      (\<exists>j<length bypassData.
         location (bypassData ! j) = cell_at r' 0
         \<and> (\<forall>k<j. location (bypassData ! k) \<noteq> cell_at r' 0) \<and>
         bypass_row e hourMap i r' (bypassData, res) =
           (bypassData[j := \<lparr> b_id = b_id (bypassData ! j), location = cell_at r' 0,
                                 total_bypasses = snd (hour_counts hourMap r'),
                                 b_hourly = fst (hour_counts hourMap r'),
                                 b_uploaded_at = clock e (2 * i + 1) \<rparr>],
            res\<lparr>updated := updated res + 1\<rparr>)))
   \<and> (truthy (cell_at r' 0) \<and> (\<forall>x\<in>set bypassData. location x \<noteq> cell_at r' 0) \<longrightarrow>
      bypass_row e hourMap i r' (bypassData, res) =
        (bypassData @ [\<lparr> b_id = generateId e (2 * i), location = cell_at r' 0,
                          total_bypasses = snd (hour_counts hourMap r'),
                          b_hourly = fst (hour_counts hourMap r'),
                          b_uploaded_at = clock e (2 * i + 1) \<rparr>],
         res\<lparr>added := added res + 1\<rparr>))
   \<and> generateId e (2 * i) = show_radix 36 (clock e (2 * i)) @ random e (2 * i)
   \<and> (0 \<le> clock e (2 * i)
        \<and> (\<forall>x\<in>set productionData. \<exists>t s.
              id' x = show_radix 36 t @ s \<and> 0 \<le> t
              \<and> length (show_radix 36 t) = length (show_radix 36 (clock e (2 * i)))
              \<and> (t \<noteq> clock e (2 * i) \<or> s \<noteq> random e (2 * i))) \<longrightarrow>
      generateId e (2 * i) \<notin> id' ` set productionData)
   \<and> (0 \<le> clock e (2 * i)
        \<and> (\<forall>x\<in>set bypassData. \<exists>t s.
              b_id x = show_radix 36 t @ s \<and> 0 \<le> t
              \<and> length (show_radix 36 t) = length (show_radix 36 (clock e (2 * i)))
              \<and> (t \<noteq> clock e (2 * i) \<or> s \<noteq> random e (2 * i))) \<longrightarrow>
      generateId e (2 * i) \<notin> b_id ` set bypassData)"
proof -
  have g: "generateId e (2 * i) = show_radix 36 (clock e (2 * i)) @ random e (2 * i)"
    by (simp add: generateId_def)
  have p: "0 \<le> clock e (2 * i)
        \<and> (\<forall>x\<in>set productionData. \<exists>t s.
              id' x = show_radix 36 t @ s \<and> 0 \<le> t
              \<and> length (show_radix 36 t) = length (show_radix 36 (clock e (2 * i)))
              \<and> (t \<noteq> clock e (2 * i) \<or> s \<noteq> random e (2 * i))) \<longrightarrow>
      generateId e (2 * i) \<notin> id' ` set productionData"
    using generateId_fresh [of e "2 * i" productionData id'] by blast
  have b: "0 \<le> clock e (2 * i)
        \<and> (\<forall>x\<in>set bypassData. \<exists>t s.
              b_id x = show_radix 36 t @ s \<and> 0 \<le> t
              \<and> length (show_radix 36 t) = length (show_radix 36 (clock e (2 * i)))
              \<and> (t \<noteq> clock e (2 * i) \<or> s \<noteq> random e (2 * i))) \<longrightarrow>
      generateId e (2 * i) \<notin> b_id ` set bypassData"
    using generateId_fresh [of e "2 * i" bypassData b_id] by blast
  show ?thesis
    by (insert upsert_row_steps [of r d productionData e hourMap i res r' bypassData] g p b,
        (elim conjE)?, intro conjI, assumption+)
qed

theorem upsert_by_natural_key_witness:
  "production_row env0 hours_8_9 1 row_45000 (stored_day, no_results) =
     Inr ([\<lparr> id' = ''lf9x0k3ab12cd34ef'', date = ''2023-03-15'', total_doses = 12,
             hourly = [(Some 8, 5), (Some 9, 7)], uploaded_at = 1700000000003 \<rparr>],
          \<lparr> added = 0, updated = 1 \<rparr>)
   \<and> production_row env0 hours_8_9 1 row_45000 ([], no_results) =
     Inr ([\<lparr> id' = ''loyw3v2aq1w2e3r4t'', date = ''2023-03-15'', total_doses = 12,
             hourly = [(Some 8, 5), (Some 9, 7)], uploaded_at = 1700000000003 \<rparr>],
          \<lparr> added = 1, updated = 0 \<rparr>)
   \<and> bypass_row env0 hours_8_9 1 row_icu (stored_icu, no_results) =
     ([\<lparr> b_id = ''lf9x0k3zz98yx76wv'', location = Str ''ICU'', total_bypasses = 12,
         b_hourly = [(Some 8, 5), (Some 9, 7)], b_uploaded_at = 1700000000003 \<rparr>],
      \<lparr> added = 0, updated = 1 \<rparr>)
   \<and> bypass_row env0 hours_8_9 1 row_icu ([], no_results) =
     ([\<lparr> b_id = ''loyw3v2aq1w2e3r4t'', location = Str ''ICU'', total_bypasses = 12,
         b_hourly = [(Some 8, 5), (Some 9, 7)], b_uploaded_at = 1700000000003 \<rparr>],
      \<lparr> added = 1, updated = 0 \<rparr>)
   \<and> map id' stored_day = [show_radix 36 1678898830006 @ ''b12cd34ef'']
   \<and> map b_id stored_icu = [show_radix 36 1678898830031 @ ''z98yx76wv'']
   \<and> generateId env0 (2 * 1) = show_radix 36 1700000000002 @ ''q1w2e3r4t''
   \<and> generateId env0 (2 * 1) \<notin> id' ` set stored_day
   \<and> generateId env0 (2 * 1) \<notin> b_id ` set stored_icu"
proof -
  have t: "truthy (cell_at row_45000 0)" "truthy (cell_at row_icu 0)"
    by (simp_all add: row_45000_def row_icu_def cell_at_def)
  have d: "excelDateToISO (cell_at row_45000 0) = Inr ''2023-03-15''"
    by code_simp
  have c: "cell_at row_icu 0 = Str ''ICU''"
    by (simp add: row_icu_def cell_at_def)
  have h: "hour_counts hours_8_9 row_45000 = ([(Some 8, 5), (Some 9, 7)], 12)"
          "hour_counts hours_8_9 row_icu = ([(Some 8, 5), (Some 9, 7)], 12)"
    by code_simp+
  have g: "generateId env0 (2 * 1) = ''loyw3v2aq1w2e3r4t''" "clock env0 (2 * 1 + 1) = 1700000000003"
    by code_simp+
  have p: "\<exists>x\<in>set stored_day. date x = ''2023-03-15''"
          "\<exists>x\<in>set stored_icu. location x = cell_at row_icu 0"
    by (simp_all add: stored_day_def stored_icu_def c)
  note u = upsert_by_natural_key [of row_45000 "''2023-03-15''" _ env0 hours_8_9 1 no_results row_icu]
  have 1: "production_row env0 hours_8_9 1 row_45000 (stored_day, no_results) =
     Inr ([\<lparr> id' = ''lf9x0k3ab12cd34ef'', date = ''2023-03-15'', total_doses = 12,
             hourly = [(Some 8, 5), (Some 9, 7)], uploaded_at = 1700000000003 \<rparr>],
          \<lparr> added = 0, updated = 1 \<rparr>)"
    using u [of stored_day "[]"] t d p h g
    by (auto simp: stored_day_def no_results_def)
  have 2: "production_row env0 hours_8_9 1 row_45000 ([], no_results) =
     Inr ([\<lparr> id' = ''loyw3v2aq1w2e3r4t'', date = ''2023-03-15'', total_doses = 12,
             hourly = [(Some 8, 5), (Some 9, 7)], uploaded_at = 1700000000003 \<rparr>],
          \<lparr> added = 1, updated = 0 \<rparr>)"
    using u [of "[]" "[]"] t d h g
    by (auto simp: no_results_def)
  have 3: "bypass_row env0 hours_8_9 1 row_icu (stored_icu, no_results) =
     ([\<lparr> b_id = ''lf9x0k3zz98yx76wv'', location = Str ''ICU'', total_bypasses = 12,
         b_hourly = [(Some 8, 5), (Some 9, 7)], b_uploaded_at = 1700000000003 \<rparr>],
      \<lparr> added = 0, updated = 1 \<rparr>)"
    using u [of "[]" stored_icu] t p h g c
    by (auto simp: stored_icu_def no_results_def)
  have 4: "bypass_row env0 hours_8_9 1 row_icu ([], no_results) =
     ([\<lparr> b_id = ''loyw3v2aq1w2e3r4t'', location = Str ''ICU'', total_bypasses = 12,
         b_hourly = [(Some 8, 5), (Some 9, 7)], b_uploaded_at = 1700000000003 \<rparr>],
      \<lparr> added = 1, updated = 0 \<rparr>)"
    using u [of "[]" "[]"] t h g c
    by (auto simp: no_results_def)
  have s: "show_radix 36 1678898830006 = ''lf9x0k3a''" "show_radix 36 1700000000002 = ''loyw3v2a''"
          "show_radix 36 1678898830031 = ''lf9x0k3z''"
    by code_simp+
  have e: "clock env0 (2 * 1) = 1700000000002" "random env0 (2 * 1) = ''q1w2e3r4t''"
    by (simp_all add: env0_def)
  have 5: "map id' stored_day = [show_radix 36 1678898830006 @ ''b12cd34ef'']"
          "map b_id stored_icu = [show_radix 36 1678898830031 @ ''z98yx76wv'']"
    by (simp_all add: stored_day_def stored_icu_def s)
  have 6: "generateId env0 (2 * 1) = show_radix 36 1700000000002 @ ''q1w2e3r4t''"
    using u [of "[]" "[]"] e by simp
  have h: "0 \<le> clock env0 (2 * 1)
        \<and> (\<forall>x\<in>set stored_day. \<exists>t s.
              id' x = show_radix 36 t @ s \<and> 0 \<le> t
              \<and> length (show_radix 36 t) = length (show_radix 36 (clock env0 (2 * 1)))
              \<and> (t \<noteq> clock env0 (2 * 1) \<or> s \<noteq> random env0 (2 * 1)))"
          "0 \<le> clock env0 (2 * 1)
        \<and> (\<forall>x\<in>set stored_icu. \<exists>t s.
              b_id x = show_radix 36 t @ s \<and> 0 \<le> t
              \<and> length (show_radix 36 t) = length (show_radix 36 (clock env0 (2 * 1)))
              \<and> (t \<noteq> clock env0 (2 * 1) \<or> s \<noteq> random env0 (2 * 1)))"
  proof -
    have "id' x = show_radix 36 1678898830006 @ ''b12cd34ef''" if "x \<in> set stored_day" for x
      using that 5(1) by (simp add: stored_day_def)
    moreover have "b_id x = show_radix 36 1678898830031 @ ''z98yx76wv''"
      if "x \<in> set stored_icu" for x
      using that 5(2) by (simp add: stored_icu_def)
    moreover have "length (show_radix 36 1678898830006) = length (show_radix 36 (clock env0 (2 * 1)))"
      "length (show_radix 36 1678898830031) = length (show_radix 36 (clock env0 (2 * 1)))"
      "(1678898830006 :: int) \<noteq> clock env0 (2 * 1)" "(1678898830031 :: int) \<noteq> clock env0 (2 * 1)"
      "0 \<le> clock env0 (2 * 1)"
      by (simp_all add: env0_def s)
    ultimately show
      "0 \<le> clock env0 (2 * 1)
        \<and> (\<forall>x\<in>set stored_day. \<exists>t s.
              id' x = show_radix 36 t @ s \<and> 0 \<le> t
              \<and> length (show_radix 36 t) = length (show_radix 36 (clock env0 (2 * 1)))
              \<and> (t \<noteq> clock env0 (2 * 1) \<or> s \<noteq> random env0 (2 * 1)))"
      "0 \<le> clock env0 (2 * 1)
        \<and> (\<forall>x\<in>set stored_icu. \<exists>t s.
              b_id x = show_radix 36 t @ s \<and> 0 \<le> t
              \<and> length (show_radix 36 t) = length (show_radix 36 (clock env0 (2 * 1)))
              \<and> (t \<noteq> clock env0 (2 * 1) \<or> s \<noteq> random env0 (2 * 1)))"
      by (metis order_refl zero_le_numeral)+
  qed
  have 7: "generateId env0 (2 * 1) \<notin> id' ` set stored_day"
    using u [of stored_day "[]"] h(1) by blast
  have 8: "generateId env0 (2 * 1) \<notin> b_id ` set stored_icu"
    using u [of "[]" stored_icu] h(2) by blast
  show ?thesis
    by (insert 1 2 3 4 5 6 7 8, intro conjI, assumption+)
qed

text \<open>As the claim states it, the appended identifier would always be a fresh one. With a
  clock that stands still during the upload and equal random draws, the two records that
  the upload of \<open>sheet_three_rows\<close> appends, for 15 and 16 March 2023, carry one and the
  same identifier.\<close>

theorem appended_ids_collide:
  "fst (production_upload env_frozen sheet_three_rows no_production)
     = Success \<lparr> added = 2, updated = 1 \<rparr>
   \<and> map (\<lambda>x. (date x, id' x)) (mem (snd (production_upload env_frozen sheet_three_rows no_production)))
       = [(''2023-03-16'', ''loyw3v28q1w2e3r4t''), (''2023-03-15'', ''loyw3v28q1w2e3r4t'')]"
  by code_simp

section \<open>Re-ingesting a production file\<close>

subsection \<open>The row step as a recursion on the collection\<close>

lemma place_findIndex:
  "(case findIndex (\<lambda>x. date x = d) c of
      Some j \<Rightarrow> c[j := mk (id' (c ! j))]
    | None \<Rightarrow> c @ [mk fresh]) = place mk fresh d c"
  by (induction c) (auto split: option.splits)

lemma findIndex_Some_mem: "(\<exists>j. findIndex P xs = Some j) \<longleftrightarrow> (\<exists>x\<in>set xs. P x)"
  using findIndex_None_iff [of P xs] by (cases "findIndex P xs") auto

lemma production_row_place:
  assumes "truthy (cell_at r 0)" and "excelDateToISO (cell_at r 0) = Inr d"
  shows "production_row e hourMap i r (c, res) =
     Inr (place (\<lambda>ident. \<lparr> id' = ident, date = d, total_doses = snd (hour_counts hourMap r),
                            hourly = fst (hour_counts hourMap r),
                            uploaded_at = clock e (2 * i + 1) \<rparr>)
            (generateId e (2 * i)) d c,
          if d \<in> date ` set c then res\<lparr>updated := updated res + 1\<rparr>
          else res\<lparr>added := added res + 1\<rparr>)"
proof (cases "findIndex (\<lambda>x. date x = d) c")
  case None
  then have "d \<notin> date ` set c" by (auto simp: findIndex_None_iff)
  then show ?thesis
    using assms None place_findIndex [where d = d and c = c and fresh = "generateId e (2 * i)", symmetric]
    by (simp add: production_row_def Let_def split: prod.splits)
next
  case (Some j)
  then have "d \<in> date ` set c"
    using findIndex_Some_mem [of "\<lambda>x. date x = d" c] by auto
  then show ?thesis
    using assms Some place_findIndex [where d = d and c = c and fresh = "generateId e (2 * i)", symmetric]
    by (simp add: production_row_def Let_def split: prod.splits)
qed

lemma production_row_skip:
  "\<not> truthy (cell_at r 0) \<Longrightarrow> production_row e hourMap i r s = Inr s"
  by (simp add: production_row_def split: prod.splits)

lemma production_row_throw:
  "truthy (cell_at r 0) \<Longrightarrow> excelDateToISO (cell_at r 0) = Inl err \<Longrightarrow>
   production_row e hourMap i r (c, res) = Inl (err, c)"
  by (simp add: production_row_def)

subsection \<open>Facts about \<open>place\<close>, \<open>first_body\<close> and \<open>overwrite\<close>\<close>

lemma dates_place:
  "date (mk fresh) = d \<Longrightarrow> (\<And>i. date (mk i) = d) \<Longrightarrow>
   date ` set (place mk fresh d c) = insert d (date ` set c)"
  by (induction c) auto

lemma first_body_place_same:
  "(\<And>i. date (mk i) = d \<and> total_doses (mk i) = t \<and> hourly (mk i) = h) \<Longrightarrow>
   first_body d (place mk fresh d c) = Some (t, h)"
  by (induction c) auto

lemma first_body_place_other:
  "(\<And>i. date (mk i) = d') \<Longrightarrow> d \<noteq> d' \<Longrightarrow>
   first_body d (place mk fresh d' c) = first_body d c"
  by (induction c) auto

lemma overwrite_empty: "overwrite Map.empty c = c"
  by (induction c) auto

lemma dates_overwrite [simp]: "map date (overwrite m c) = map date c"
  by (induction c arbitrary: m) (auto split: option.splits)

lemma map_add_remove: "(m1 ++ m2)(k := None) = m1(k := None) ++ m2(k := None)"
  by (rule ext) (auto simp: map_add_def split: option.splits)

lemma overwrite_overwrite: "overwrite m2 (overwrite m1 c) = overwrite (m1 ++ m2) c"
proof (induction c arbitrary: m1 m2)
  case Nil
  then show ?case by simp
next
  case (Cons x xs)
  have hd: "(m1 ++ m2) (date x) = (case m2 (date x) of None \<Rightarrow> m1 (date x) | Some v \<Rightarrow> Some v)"
    by (simp add: map_add_def)
  have tl: "overwrite (m2(date x := None)) (overwrite (m1(date x := None)) xs)
              = overwrite ((m1 ++ m2)(date x := None)) xs"
    unfolding Cons.IH map_add_remove ..
  show ?case
    by (cases "m1 (date x)"; cases "m2 (date x)") (auto simp: hd tl)
qed

lemma without_upload_time_sel [simp]:
  "id' (without_upload_time x) = id' x" "date (without_upload_time x) = date x"
  "total_doses (without_upload_time x) = total_doses x"
  "hourly (without_upload_time x) = hourly x" "uploaded_at (without_upload_time x) = 0"
  by (simp_all add: without_upload_time_def)

lemma without_upload_time_overwritten:
  "(without_upload_time x)\<lparr>total_doses := t, hourly := h, uploaded_at := 0\<rparr>
     = without_upload_time \<lparr> id' = id' x, date = date x, total_doses = t, hourly = h,
                              uploaded_at = u \<rparr>"
  by (simp add: without_upload_time_def)

lemma without_upload_time_same:
  "total_doses x = t \<Longrightarrow> hourly x = h \<Longrightarrow>
   (without_upload_time x)\<lparr>total_doses := t, hourly := h, uploaded_at := 0\<rparr>
     = without_upload_time x"
  by (simp add: without_upload_time_def)

lemma overwrite_none: "(\<forall>k. m k = None) \<Longrightarrow> overwrite m c = c"
  by (induction c arbitrary: m) auto

lemma overwrite_first_body:
  "first_body d c = Some (t, h) \<Longrightarrow> m d = Some (t, h) \<Longrightarrow> (\<forall>k. k \<noteq> d \<longrightarrow> m k = None) \<Longrightarrow>
   overwrite m (map without_upload_time c) = map without_upload_time c"
proof (induction c arbitrary: m)
  case Nil
  then show ?case by simp
next
  case (Cons x xs)
  show ?case
  proof (cases "date x = d")
    case True
    then have same: "total_doses x = t" "hourly x = h" using Cons.prems(1) by auto
    have "\<forall>k. (m(d := None)) k = None" using Cons.prems(3) by simp
    then have "overwrite (m(d := None)) (map without_upload_time xs) = map without_upload_time xs"
      by (rule overwrite_none)
    then show ?thesis
      using True same Cons.prems(2) by (simp add: without_upload_time_same)
  next
    case False
    then have fb: "first_body d xs = Some (t, h)" using Cons.prems(1) by simp
    have "overwrite (m(date x := None)) (map without_upload_time xs) = map without_upload_time xs"
      using False Cons.prems(2,3) by (intro Cons.IH [OF fb]) auto
    then show ?thesis
      using False Cons.prems(3) by simp
  qed
qed

lemma strip_place:
  assumes mk: "\<And>i. mk i = \<lparr> id' = i, date = d, total_doses = t, hourly = h, uploaded_at = u \<rparr>"
  shows "d \<in> date ` set c \<Longrightarrow> m d = Some (t, h) \<Longrightarrow> (\<forall>k. k \<noteq> d \<longrightarrow> m k = None) \<Longrightarrow>
         map without_upload_time (place mk fresh d c) = overwrite m (map without_upload_time c)"
proof (induction c arbitrary: m)
  case Nil
  then show ?case by simp
next
  case (Cons x xs)
  show ?case
  proof (cases "date x = d")
    case True
    have "\<forall>k. (m(d := None)) k = None" using Cons.prems(3) by simp
    then have "overwrite (m(d := None)) (map without_upload_time xs) = map without_upload_time xs"
      by (rule overwrite_none)
    then show ?thesis
      using True Cons.prems(2) without_upload_time_overwritten [where x = x and t = t and h = h and u = u]
      by (simp add: mk)
  next
    case False
    then have "d \<in> date ` set xs" using Cons.prems(1) by auto
    then have "map without_upload_time (place mk fresh d xs)
           = overwrite (m(date x := None)) (map without_upload_time xs)"
      using False Cons.prems(2,3) by (intro Cons.IH) auto
    then show ?thesis
      using False Cons.prems(3) by simp
  qed
qed

subsection \<open>The stable sort\<close>

lemma set_insort_date_desc [simp]: "set (insort_date_desc r xs) = insert r (set xs)"
  by (induction xs) auto

lemma set_sort_date_desc [simp]: "set (sort_date_desc xs) = set xs"
  by (induction xs) (auto simp: sort_date_desc_def)

lemma sort_date_desc_Cons: "sort_date_desc (x # xs) = insort_date_desc x (sort_date_desc xs)"
  by (simp add: sort_date_desc_def)

lemma sorted_insort_date_desc:
  "sorted_wrt (\<lambda>a b. date b \<le> date a) xs \<Longrightarrow>
   sorted_wrt (\<lambda>a b. date b \<le> date a) (insort_date_desc r xs)"
  by (induction xs) auto

lemma sorted_sort_date_desc: "sorted_wrt (\<lambda>a b. date b \<le> date a) (sort_date_desc xs)"
  by (induction xs) (auto simp: sort_date_desc_Cons sorted_insort_date_desc sort_date_desc_def)

lemma sort_date_desc_sorted:
  "sorted_wrt (\<lambda>a b. date b \<le> date a) xs \<Longrightarrow> sort_date_desc xs = xs"
proof (induction xs)
  case Nil
  then show ?case by (simp add: sort_date_desc_def)
next
  case (Cons x xs)
  then have "sort_date_desc xs = xs" by simp
  then show ?case using Cons.prems
    by (cases xs) (auto simp: sort_date_desc_Cons)
qed

lemma sort_date_desc_idem: "sort_date_desc (sort_date_desc xs) = sort_date_desc xs"
  by (rule sort_date_desc_sorted) (rule sorted_sort_date_desc)

lemma strip_insort:
  "map without_upload_time (insort_date_desc r xs)
     = insort_date_desc (without_upload_time r) (map without_upload_time xs)"
  by (induction xs) auto

lemma strip_sort:
  "map without_upload_time (sort_date_desc xs) = sort_date_desc (map without_upload_time xs)"
  by (induction xs) (auto simp: sort_date_desc_Cons strip_insort sort_date_desc_def)

lemma overwrite_Cons:
  "overwrite m (x # xs) = hd (overwrite m [x]) # overwrite (m(date x := None)) xs"
  by simp

lemma date_hd_overwrite [simp]: "date (hd (overwrite m [x])) = date x"
  by (simp split: option.splits)

lemma hd_overwrite_other:
  "k \<noteq> date x \<Longrightarrow> hd (overwrite (m(k := None)) [x]) = hd (overwrite m [x])"
  by simp

lemma overwrite_insort:
  "overwrite m (insort_date_desc r xs)
     = insort_date_desc (hd (overwrite m [r])) (overwrite (m(date r := None)) xs)"
proof (induction xs arbitrary: m)
  case Nil
  then show ?case by simp
next
  case (Cons y ys)
  let ?r = "hd (overwrite m [r])"
  let ?m1 = "m(date r := None)"
  show ?case
  proof (cases "date y \<le> date r")
    case True
    have "overwrite m (insort_date_desc r (y # ys)) = overwrite m (r # y # ys)"
      using True by simp
    also have "\<dots> = ?r # overwrite ?m1 (y # ys)"
      by (rule overwrite_Cons)
    also have "\<dots> = ?r # hd (overwrite ?m1 [y]) # overwrite (?m1(date y := None)) ys"
      by (simp only: overwrite_Cons [of ?m1 y ys])
    also have "\<dots> = insort_date_desc ?r (hd (overwrite ?m1 [y]) # overwrite (?m1(date y := None)) ys)"
      using True by (simp del: overwrite.simps)
    also have "\<dots> = insort_date_desc ?r (overwrite ?m1 (y # ys))"
      by (simp only: overwrite_Cons [of ?m1 y ys])
    finally show ?thesis .
  next
    case False
    then have ne: "date y \<noteq> date r" by auto
    have sw: "m(date y := None, date r := None) = ?m1(date y := None)"
      using ne by (simp add: fun_upd_twist)
    have "overwrite m (insort_date_desc r (y # ys)) = overwrite m (y # insort_date_desc r ys)"
      using False by simp
    also have "\<dots> = hd (overwrite m [y]) # overwrite (m(date y := None)) (insort_date_desc r ys)"
      by (rule overwrite_Cons)
    also have "\<dots> = hd (overwrite m [y])
                  # insort_date_desc (hd (overwrite (m(date y := None)) [r]))
                      (overwrite (m(date y := None, date r := None)) ys)"
      by (simp only: Cons.IH)
    also have "\<dots> = hd (overwrite ?m1 [y])
                  # insort_date_desc ?r (overwrite (?m1(date y := None)) ys)"
      using ne by (simp only: sw hd_overwrite_other [OF ne] hd_overwrite_other [OF ne [symmetric]])
    also have "\<dots> = insort_date_desc ?r (hd (overwrite ?m1 [y]) # overwrite (?m1(date y := None)) ys)"
      using False by (simp del: overwrite.simps)
    also have "\<dots> = insort_date_desc ?r (overwrite ?m1 (y # ys))"
      by (simp only: overwrite_Cons [of ?m1 y ys])
    finally show ?thesis .
  qed
qed

lemma overwrite_sort: "overwrite m (sort_date_desc xs) = sort_date_desc (overwrite m xs)"
proof (induction xs arbitrary: m)
  case Nil
  then show ?case by (simp add: sort_date_desc_def)
next
  case (Cons x xs)
  have "overwrite m (sort_date_desc (x # xs))
          = insort_date_desc (hd (overwrite m [x])) (overwrite (m(date x := None)) (sort_date_desc xs))"
    by (simp only: sort_date_desc_Cons overwrite_insort)
  also have "\<dots> = insort_date_desc (hd (overwrite m [x])) (sort_date_desc (overwrite (m(date x := None)) xs))"
    by (simp only: Cons.IH)
  also have "\<dots> = sort_date_desc (overwrite m (x # xs))"
    by (simp add: sort_date_desc_Cons)
  finally show ?case .
qed

subsection \<open>The row loop\<close>

lemma final_rows_skip:
  "\<not> truthy (cell_at r 0) \<Longrightarrow> final_rows hourMap (r # rs) = final_rows hourMap rs"
  by simp

lemma final_rows_take:
  "truthy (cell_at r 0) \<Longrightarrow> excelDateToISO (cell_at r 0) = Inr d \<Longrightarrow>
   final_rows hourMap (r # rs)
     = [d \<mapsto> (snd (hour_counts hourMap r), fst (hour_counts hourMap r))] ++ final_rows hourMap rs"
  by simp

lemma production_rows_Cons_skip:
  "\<not> truthy (cell_at r 0) \<Longrightarrow>
   production_rows e hourMap i (r # rs) s = production_rows e hourMap (Suc i) rs s"
  by (simp add: production_row_skip)

lemma production_rows_Cons_take:
  "truthy (cell_at r 0) \<Longrightarrow> excelDateToISO (cell_at r 0) = Inr d \<Longrightarrow>
   production_rows e hourMap i (r # rs) (c, res) =
     production_rows e hourMap (Suc i) rs
       (place (\<lambda>ident. \<lparr> id' = ident, date = d, total_doses = snd (hour_counts hourMap r),
                            hourly = fst (hour_counts hourMap r),
                            uploaded_at = clock e (2 * i + 1) \<rparr>)
            (generateId e (2 * i)) d c,
        if d \<in> date ` set c then res\<lparr>updated := updated res + 1\<rparr>
        else res\<lparr>added := added res + 1\<rparr>)"
  by (simp add: production_row_place)

lemma production_rows_Cons_throw:
  "truthy (cell_at r 0) \<Longrightarrow> excelDateToISO (cell_at r 0) = Inl err \<Longrightarrow>
   production_rows e hourMap i (r # rs) (c, res) = Inl (err, c)"
  by (simp add: production_row_throw)

text \<open>A run that ends without an exception has converted the date of every row it took.\<close>

lemma production_rows_parse:
  "production_rows e hourMap i rows s = Inr s' \<Longrightarrow> r \<in> set rows \<Longrightarrow> truthy (cell_at r 0) \<Longrightarrow>
   \<exists>d. excelDateToISO (cell_at r 0) = Inr d"
proof (induction rows arbitrary: i s)
  case Nil
  then show ?case by simp
next
  case (Cons x xs)
  obtain c res where s: "s = (c, res)" by (cases s)
  show ?case
  proof (cases "truthy (cell_at x 0)")
    case False
    then have "production_rows e hourMap (Suc i) xs s = Inr s'"
      using Cons.prems(1) by (simp only: production_rows_Cons_skip [OF False])
    moreover have "r \<in> set xs" using False Cons.prems(2,3) by auto
    ultimately show ?thesis using Cons.IH Cons.prems(3) by blast
  next
    case True
    show ?thesis
    proof (cases "excelDateToISO (cell_at x 0)")
      case (Inl err)
      then show ?thesis
        using Cons.prems(1) s production_rows_Cons_throw [OF True Inl, of e hourMap i xs c res]
        by simp
    next
      case (Inr d)
      show ?thesis
      proof (cases "r = x")
        case True
        then show ?thesis using Inr by blast
      next
        case False
        then have "r \<in> set xs" using Cons.prems(2) by auto
        moreover have "\<exists>s2. production_rows e hourMap (Suc i) xs s2 = Inr s'"
          using True Inr Cons.prems(1) s production_rows_Cons_take [of x d e hourMap i xs c res]
          by auto
        ultimately show ?thesis using Cons.IH Cons.prems(3) by blast
      qed
    qed
  qed
qed

text \<open>Rows of other dates leave the first record of a date as it is.\<close>

lemma production_rows_first_body:
  "production_rows e hourMap i rows (c, res) = Inr (c', res') \<Longrightarrow>
   final_rows hourMap rows d = None \<Longrightarrow> first_body d c' = first_body d c"
proof (induction rows arbitrary: i c res)
  case Nil
  then show ?case by simp
next
  case (Cons x xs)
  show ?case
  proof (cases "truthy (cell_at x 0)")
    case False
    then show ?thesis
      using Cons.prems Cons.IH [of "Suc i" c res]
      by (simp only: production_rows_Cons_skip [OF False] final_rows_skip [OF False])
  next
    case True
    show ?thesis
    proof (cases "excelDateToISO (cell_at x 0)")
      case (Inl err)
      then show ?thesis
        using Cons.prems(1) production_rows_Cons_throw [OF True Inl, of e hourMap i xs c res]
        by simp
    next
      case (Inr d')
      let ?mk = "\<lambda>ident. \<lparr> id' = ident, date = d', total_doses = snd (hour_counts hourMap x),
                            hourly = fst (hour_counts hourMap x),
                            uploaded_at = clock e (2 * i + 1) \<rparr>"
      let ?c2 = "place ?mk (generateId e (2 * i)) d' c"
      have fin: "final_rows hourMap (x # xs) d = None"
        using Cons.prems(2) .
      have ne: "d \<noteq> d'" and rest: "final_rows hourMap xs d = None"
        using fin True Inr by (auto simp: map_add_def split: option.splits if_splits)
      obtain res2 where run: "production_rows e hourMap (Suc i) xs (?c2, res2) = Inr (c', res')"
        using Cons.prems(1) production_rows_Cons_take [OF True Inr, of e hourMap i xs c res]
        by auto
      have "first_body d c' = first_body d ?c2"
        using Cons.IH [OF run rest] .
      also have "\<dots> = first_body d c"
        by (rule first_body_place_other) (simp_all add: ne)
      finally show ?thesis .
    qed
  qed
qed

text \<open>After a run, the first record of every date of the file carries the values of the
  last row of that date: overwriting with the table of the file changes nothing.\<close>

lemma production_rows_settled:
  "production_rows e hourMap i rows (c, res) = Inr (c', res') \<Longrightarrow>
   overwrite (final_rows hourMap rows) (map without_upload_time c') = map without_upload_time c'"
proof (induction rows arbitrary: i c res)
  case Nil
  then show ?case by (simp add: overwrite_empty)
next
  case (Cons x xs)
  show ?case
  proof (cases "truthy (cell_at x 0)")
    case False
    then show ?thesis
      using Cons.prems Cons.IH [of "Suc i" c res]
      by (simp only: production_rows_Cons_skip [OF False] final_rows_skip [OF False])
  next
    case True
    show ?thesis
    proof (cases "excelDateToISO (cell_at x 0)")
      case (Inl err)
      then show ?thesis
        using Cons.prems(1) production_rows_Cons_throw [OF True Inl, of e hourMap i xs c res]
        by simp
    next
      case (Inr d)
      let ?t = "snd (hour_counts hourMap x)"
      let ?h = "fst (hour_counts hourMap x)"
      let ?mk = "\<lambda>ident. \<lparr> id' = ident, date = d, total_doses = ?t, hourly = ?h,
                            uploaded_at = clock e (2 * i + 1) \<rparr>"
      let ?c2 = "place ?mk (generateId e (2 * i)) d c"
      let ?one = "[d \<mapsto> (?t, ?h)]"
      obtain res2 where run: "production_rows e hourMap (Suc i) xs (?c2, res2) = Inr (c', res')"
        using Cons.prems(1) production_rows_Cons_take [OF True Inr, of e hourMap i xs c res]
        by auto
      have ih: "overwrite (final_rows hourMap xs) (map without_upload_time c') = map without_upload_time c'"
        using Cons.IH [OF run] .
      have fin: "final_rows hourMap (x # xs) = ?one ++ final_rows hourMap xs"
        using True Inr by (rule final_rows_take)
      show ?thesis
      proof (cases "final_rows hourMap xs d")
        case (Some v)
        have "?one ++ final_rows hourMap xs = final_rows hourMap xs"
          using Some by (intro ext) (simp add: map_add_def split: option.splits)
        then show ?thesis using ih fin by simp
      next
        case None
        have "first_body d c' = first_body d ?c2"
          using production_rows_first_body [OF run None] .
        also have "\<dots> = Some (?t, ?h)"
          by (rule first_body_place_same) simp
        finally have fb: "first_body d c' = Some (?t, ?h)" .
        have one: "overwrite ?one (map without_upload_time c') = map without_upload_time c'"
          by (rule overwrite_first_body [OF fb]) simp_all
        have "overwrite (?one ++ final_rows hourMap xs) (map without_upload_time c')
                = overwrite (final_rows hourMap xs) (overwrite ?one (map without_upload_time c'))"
          by (simp only: overwrite_overwrite)
        also have "\<dots> = map without_upload_time c'"
          by (simp only: one ih)
        finally show ?thesis by (simp only: fin)
      qed
    qed
  qed
qed

text \<open>After a run, every date of the file is in the collection.\<close>

lemma dates_place_sub:
  "(\<And>i. date (mk i) = d) \<Longrightarrow> date ` set c \<subseteq> date ` set (place mk fresh d c)"
  by (induction c) auto

lemma production_rows_dates_mono:
  "production_rows e hourMap i rows (c, res) = Inr (c', res') \<Longrightarrow> date ` set c \<subseteq> date ` set c'"
proof (induction rows arbitrary: i c res)
  case Nil
  then show ?case by simp
next
  case (Cons x xs)
  show ?case
  proof (cases "truthy (cell_at x 0)")
    case False
    then show ?thesis
      using Cons.prems Cons.IH [of "Suc i" c res]
      by (simp only: production_rows_Cons_skip [OF False])
  next
    case True
    show ?thesis
    proof (cases "excelDateToISO (cell_at x 0)")
      case (Inl err)
      then show ?thesis
        using Cons.prems(1) production_rows_Cons_throw [OF True Inl, of e hourMap i xs c res]
        by simp
    next
      case (Inr d)
      let ?mk = "\<lambda>ident. \<lparr> id' = ident, date = d, total_doses = snd (hour_counts hourMap x),
                            hourly = fst (hour_counts hourMap x),
                            uploaded_at = clock e (2 * i + 1) \<rparr>"
      let ?c2 = "place ?mk (generateId e (2 * i)) d c"
      obtain res2 where run: "production_rows e hourMap (Suc i) xs (?c2, res2) = Inr (c', res')"
        using Cons.prems(1) production_rows_Cons_take [OF True Inr, of e hourMap i xs c res]
        by auto
      have "date ` set c \<subseteq> date ` set ?c2" by (rule dates_place_sub) simp
      also have "\<dots> \<subseteq> date ` set c'" using Cons.IH [OF run] .
      finally show ?thesis .
    qed
  qed
qed

lemma production_rows_dates_file:
  "production_rows e hourMap i rows (c, res) = Inr (c', res') \<Longrightarrow>
   final_rows hourMap rows d \<noteq> None \<Longrightarrow> d \<in> date ` set c'"
proof (induction rows arbitrary: i c res)
  case Nil
  then show ?case by simp
next
  case (Cons x xs)
  show ?case
  proof (cases "truthy (cell_at x 0)")
    case False
    have run: "production_rows e hourMap (Suc i) xs (c, res) = Inr (c', res')"
      using Cons.prems(1) by (simp only: production_rows_Cons_skip [OF False])
    have fin: "final_rows hourMap xs d \<noteq> None"
      using Cons.prems(2) unfolding final_rows_skip [OF False] .
    show ?thesis using Cons.IH [OF run fin] .
  next
    case True
    show ?thesis
    proof (cases "excelDateToISO (cell_at x 0)")
      case (Inl err)
      then show ?thesis
        using Cons.prems(1) production_rows_Cons_throw [OF True Inl, of e hourMap i xs c res]
        by simp
    next
      case (Inr d')
      let ?mk = "\<lambda>ident. \<lparr> id' = ident, date = d', total_doses = snd (hour_counts hourMap x),
                            hourly = fst (hour_counts hourMap x),
                            uploaded_at = clock e (2 * i + 1) \<rparr>"
      let ?c2 = "place ?mk (generateId e (2 * i)) d' c"
      obtain res2 where run: "production_rows e hourMap (Suc i) xs (?c2, res2) = Inr (c', res')"
        using Cons.prems(1) production_rows_Cons_take [OF True Inr, of e hourMap i xs c res]
        by auto
      show ?thesis
      proof (cases "final_rows hourMap xs d")
        case (Some w)
        then show ?thesis using Cons.IH [OF run] by simp
      next
        case None
        then have "d = d'"
          using Cons.prems(2) True Inr by (auto simp: map_add_def split: if_splits)
        moreover have "d' \<in> date ` set ?c2"
          by (subst dates_place) simp_all
        ultimately show ?thesis
          using production_rows_dates_mono [OF run] by blast
      qed
    qed
  qed
qed

text \<open>A run over a collection that already holds every date of the file only replaces:
  it succeeds when every date converts, adds nothing, counts one update per ingested row,
  and its result is the collection overwritten with the table of the file.\<close>

lemma production_rows_replace:
  "(\<And>r. r \<in> set rows \<Longrightarrow> truthy (cell_at r 0) \<Longrightarrow> \<exists>d. excelDateToISO (cell_at r 0) = Inr d) \<Longrightarrow>
   (\<And>d. final_rows hourMap rows d \<noteq> None \<Longrightarrow> d \<in> date ` set c) \<Longrightarrow>
   \<exists>c' res'. production_rows e hourMap i rows (c, res) = Inr (c', res')
      \<and> added res' = added res
      \<and> updated res' = updated res + length (filter (\<lambda>r. truthy (cell_at r 0)) rows)
      \<and> map without_upload_time c' = overwrite (final_rows hourMap rows) (map without_upload_time c)"
proof (induction rows arbitrary: i c res)
  case Nil
  then show ?case by (simp add: overwrite_empty)
next
  case (Cons x xs)
  have parse: "\<And>r. r \<in> set xs \<Longrightarrow> truthy (cell_at r 0) \<Longrightarrow> \<exists>d. excelDateToISO (cell_at r 0) = Inr d"
    using Cons.prems(1) by simp
  show ?case
  proof (cases "truthy (cell_at x 0)")
    case False
    have dom: "\<And>d. final_rows hourMap xs d \<noteq> None \<Longrightarrow> d \<in> date ` set c"
      using Cons.prems(2) by (simp only: final_rows_skip [OF False])
    obtain c' res' where r: "production_rows e hourMap (Suc i) xs (c, res) = Inr (c', res')"
      "added res' = added res"
      "updated res' = updated res + length (filter (\<lambda>r. truthy (cell_at r 0)) xs)"
      "map without_upload_time c' = overwrite (final_rows hourMap xs) (map without_upload_time c)"
      using Cons.IH [OF parse dom, of "Suc i" res] by blast
    have "production_rows e hourMap i (x # xs) (c, res) = Inr (c', res')"
      using r(1) by (simp only: production_rows_Cons_skip [OF False])
    moreover have "updated res' = updated res + length (filter (\<lambda>r. truthy (cell_at r 0)) (x # xs))"
      using r(3) False by simp
    moreover have "map without_upload_time c'
        = overwrite (final_rows hourMap (x # xs)) (map without_upload_time c)"
      using r(4) by (simp only: final_rows_skip [OF False])
    ultimately show ?thesis using r(2) by blast
  next
    case True
    then obtain d where d: "excelDateToISO (cell_at x 0) = Inr d"
      using Cons.prems(1) [of x] by auto
    let ?t = "snd (hour_counts hourMap x)"
    let ?h = "fst (hour_counts hourMap x)"
    let ?mk = "\<lambda>ident. \<lparr> id' = ident, date = d, total_doses = ?t, hourly = ?h,
                          uploaded_at = clock e (2 * i + 1) \<rparr>"
    let ?c2 = "place ?mk (generateId e (2 * i)) d c"
    let ?one = "[d \<mapsto> (?t, ?h)]"
    have fin: "final_rows hourMap (x # xs) = ?one ++ final_rows hourMap xs"
      using True d by (rule final_rows_take)
    have "final_rows hourMap (x # xs) d \<noteq> None"
      unfolding fin by (simp add: map_add_def split: option.splits)
    then have dc: "d \<in> date ` set c" using Cons.prems(2) by blast
    have step: "production_rows e hourMap i (x # xs) (c, res)
                  = production_rows e hourMap (Suc i) xs (?c2, res\<lparr>updated := updated res + 1\<rparr>)"
      using dc production_rows_Cons_take [OF True d, of e hourMap i xs c res] by simp
    have d2: "date ` set ?c2 = date ` set c"
      using dc dates_place [of ?mk "generateId e (2 * i)" d c] by auto
    have dom: "\<And>k. final_rows hourMap xs k \<noteq> None \<Longrightarrow> k \<in> date ` set ?c2"
    proof -
      fix k assume "final_rows hourMap xs k \<noteq> None"
      then have "final_rows hourMap (x # xs) k \<noteq> None"
        unfolding fin by (simp add: map_add_def split: option.splits)
      then show "k \<in> date ` set ?c2" using Cons.prems(2) d2 by blast
    qed
    obtain c' res' where r:
      "production_rows e hourMap (Suc i) xs (?c2, res\<lparr>updated := updated res + 1\<rparr>) = Inr (c', res')"
      "added res' = added (res\<lparr>updated := updated res + 1\<rparr>)"
      "updated res' = updated (res\<lparr>updated := updated res + 1\<rparr>)
                        + length (filter (\<lambda>r. truthy (cell_at r 0)) xs)"
      "map without_upload_time c' = overwrite (final_rows hourMap xs) (map without_upload_time ?c2)"
      using Cons.IH [OF parse dom, of "Suc i" "res\<lparr>updated := updated res + 1\<rparr>"] by blast
    have s2: "map without_upload_time ?c2 = overwrite ?one (map without_upload_time c)"
      by (rule strip_place [where u = "clock e (2 * i + 1)"]) (simp_all add: dc)
    have "map without_upload_time c'
            = overwrite (final_rows hourMap xs) (overwrite ?one (map without_upload_time c))"
      using r(4) by (simp only: s2)
    also have "\<dots> = overwrite (final_rows hourMap (x # xs)) (map without_upload_time c)"
      by (simp only: overwrite_overwrite fin)
    finally have body: "map without_upload_time c'
            = overwrite (final_rows hourMap (x # xs)) (map without_upload_time c)" .
    have "production_rows e hourMap i (x # xs) (c, res) = Inr (c', res')"
      using r(1) by (simp only: step)
    moreover have "added res' = added res" using r(2) by simp
    moreover have "updated res' = updated res + length (filter (\<lambda>r. truthy (cell_at r 0)) (x # xs))"
      using r(3) True by simp
    ultimately show ?thesis using body by blast
  qed
qed

subsection \<open>Uploading the same file twice\<close>

text \<open>
  Claim C4. When the upload of a production file has succeeded, uploading the same file
  again succeeds as well, reports \<open>added = 0\<close> and \<open>updated = N\<close>, where \<open>N\<close> is the number of
  data rows the loop ingests (the rows with a truthy first cell), and leaves the stored
  collection, in memory and on disk, as the first upload left it, record by record and in
  the same order, except for the field \<^verbatim>\<open>uploaded_at\<close>; the identifiers in particular
  are those of the first run. The two uploads may see any clock and any random draws.
\<close>

theorem reingest_same_file:
  assumes first: "production_upload e1 rawData st0 = (Success res1, st1)"
  shows "fst (production_upload e2 rawData st1)
           = Success \<lparr> added = 0, updated = length (ingested_rows rawData) \<rparr>
       \<and> map without_upload_time (mem (snd (production_upload e2 rawData st1)))
           = map without_upload_time (mem st1)
       \<and> map without_upload_time (disk (snd (production_upload e2 rawData st1)))
           = map without_upload_time (disk st1)
       \<and> map id' (mem (snd (production_upload e2 rawData st1))) = map id' (mem st1)"
proof -
  obtain headerRow rows where raw: "rawData = headerRow # rows"
    using first by (cases rawData) (auto simp: production_upload_def)
  have hdr: "cell_at headerRow 0 = Str ''EntryDate''"
    using first raw by (auto simp: production_upload_def split: if_splits)
  let ?hm = "parse_hour_columns headerRow"
  let ?w = "map without_upload_time"
  obtain c1 where run1: "production_rows e1 ?hm 1 rows (mem st0, \<lparr> added = 0, updated = 0 \<rparr>) = Inr (c1, res1)"
    and st1: "st1 = \<lparr> mem = sort_date_desc c1, disk = sort_date_desc c1 \<rparr>"
    using first raw hdr
    by (auto simp: production_upload_def Let_def split: sum.splits prod.splits)
  have parse: "\<And>r. r \<in> set rows \<Longrightarrow> truthy (cell_at r 0) \<Longrightarrow> \<exists>d. excelDateToISO (cell_at r 0) = Inr d"
    using production_rows_parse [OF run1] .
  have dom: "\<And>d. final_rows ?hm rows d \<noteq> None \<Longrightarrow> d \<in> date ` set (sort_date_desc c1)"
    using production_rows_dates_file [OF run1] by simp
  obtain c2 res2 where run2:
      "production_rows e2 ?hm 1 rows (sort_date_desc c1, \<lparr> added = 0, updated = 0 \<rparr>) = Inr (c2, res2)"
    and a2: "added res2 = added \<lparr> added = 0, updated = 0 \<rparr>"
    and u2: "updated res2 = updated \<lparr> added = 0, updated = 0 \<rparr>
                              + length (filter (\<lambda>r. truthy (cell_at r 0)) rows)"
    and body: "?w c2 = overwrite (final_rows ?hm rows) (?w (sort_date_desc c1))"
    using production_rows_replace [OF parse dom, where e = e2 and i = 1 and res = "\<lparr> added = 0, updated = 0 \<rparr>"]
    by blast
  have res2: "res2 = \<lparr> added = 0, updated = length (ingested_rows rawData) \<rparr>"
    using a2 u2 by (simp add: ingested_rows_def raw)
  have up2: "production_upload e2 rawData st1
               = (Success res2, \<lparr> mem = sort_date_desc c2, disk = sort_date_desc c2 \<rparr>)"
    using run2 hdr by (simp add: production_upload_def raw st1 Let_def)
  have "?w (sort_date_desc c2) = sort_date_desc (?w c2)"
    by (rule strip_sort)
  also have "\<dots> = sort_date_desc (overwrite (final_rows ?hm rows) (sort_date_desc (?w c1)))"
    by (simp only: body strip_sort)
  also have "\<dots> = sort_date_desc (sort_date_desc (overwrite (final_rows ?hm rows) (?w c1)))"
    by (simp only: overwrite_sort)
  also have "\<dots> = sort_date_desc (sort_date_desc (?w c1))"
    by (simp only: production_rows_settled [OF run1])
  also have "\<dots> = sort_date_desc (?w c1)"
    by (rule sort_date_desc_idem)
  also have "\<dots> = ?w (sort_date_desc c1)"
    by (simp only: strip_sort)
  finally have same: "?w (sort_date_desc c2) = ?w (sort_date_desc c1)" .
  have "map id' (?w (sort_date_desc c2)) = map id' (?w (sort_date_desc c1))"
    by (simp only: same)
  then have ids: "map id' (sort_date_desc c2) = map id' (sort_date_desc c1)"
    by (simp add: comp_def)
  show ?thesis
    using same ids unfolding up2 by (simp add: res2 st1)
qed

theorem reingest_same_file_witness:
  "fst (production_upload env0 sheet_three_rows no_production) = Success \<lparr> added = 2, updated = 1 \<rparr>
   \<and> length (ingested_rows sheet_three_rows) = 3
   \<and> fst (production_upload env1 sheet_three_rows
             (snd (production_upload env0 sheet_three_rows no_production)))
       = Success \<lparr> added = 0, updated = 3 \<rparr>
   \<and> map without_upload_time
         (mem (snd (production_upload env1 sheet_three_rows
                      (snd (production_upload env0 sheet_three_rows no_production)))))
       = [\<lparr> id' = ''loyw3v2cq1w2e3r4t'', date = ''2023-03-16'', total_doses = 3,
             hourly = [(Some 8, 1), (Some 9, 2)], uploaded_at = 0 \<rparr>,
          \<lparr> id' = ''loyw3v2aq1w2e3r4t'', date = ''2023-03-15'', total_doses = 7,
             hourly = [(Some 8, 3), (Some 9, 4)], uploaded_at = 0 \<rparr>]"
proof -
  have f: "production_upload env0 sheet_three_rows no_production
             = (fst (production_upload env0 sheet_three_rows no_production),
                snd (production_upload env0 sheet_three_rows no_production))"
    by simp
  have r: "fst (production_upload env0 sheet_three_rows no_production) = Success \<lparr> added = 2, updated = 1 \<rparr>"
    by code_simp
  have n: "length (ingested_rows sheet_three_rows) = 3"
    by code_simp
  have m: "map without_upload_time (mem (snd (production_upload env0 sheet_three_rows no_production)))
       = [\<lparr> id' = ''loyw3v2cq1w2e3r4t'', date = ''2023-03-16'', total_doses = 3,
             hourly = [(Some 8, 1), (Some 9, 2)], uploaded_at = 0 \<rparr>,
          \<lparr> id' = ''loyw3v2aq1w2e3r4t'', date = ''2023-03-15'', total_doses = 7,
             hourly = [(Some 8, 3), (Some 9, 4)], uploaded_at = 0 \<rparr>]"
    by code_simp
  from reingest_same_file [of env0 sheet_three_rows no_production
        "\<lparr> added = 2, updated = 1 \<rparr>" "snd (production_upload env0 sheet_three_rows no_production)" env1]
       f r n m
  show ?thesis by simp
qed

section \<open>Schema errors\<close>

text \<open>
  Claim C5. When the first cell of the header row of a production file is not the string
  \<^verbatim>\<open>EntryDate\<close> (a bypass file: not \<^verbatim>\<open>Location\<close>), the handler answers status 400 with
  a message that names the expected header, and leaves both the in-memory collection and
  the persisted one as they were.
\<close>

theorem schema_mismatch_rejected:
  "(header_cell rawData \<noteq> Str ''EntryDate'' \<longrightarrow>
      production_upload e rawData st =
        (Failure 400 ''Invalid file format - expected EntryDate in first column'', st))
   \<and> (header_cell rawData \<noteq> Str ''Location'' \<longrightarrow>
      bypass_upload e' rawData st' =
        (Failure 400 ''Invalid file format - expected Location in first column'', st'))"
  by (simp add: header_cell_def production_upload_def bypass_upload_def split: list.splits)

theorem schema_mismatch_rejected_witness:
  "header_cell sheet_wrong_header \<noteq> Str ''EntryDate''
   \<and> header_cell sheet_wrong_header \<noteq> Str ''Location''
   \<and> production_upload env0 sheet_wrong_header no_production =
        (Failure 400 ''Invalid file format - expected EntryDate in first column'', no_production)
   \<and> bypass_upload env0 sheet_wrong_header no_bypass =
        (Failure 400 ''Invalid file format - expected Location in first column'', no_bypass)"
proof -
  have h: "header_cell sheet_wrong_header \<noteq> Str ''EntryDate''"
          "header_cell sheet_wrong_header \<noteq> Str ''Location''"
    by (simp_all add: header_cell_def sheet_wrong_header_def cell_at_def)
  from h schema_mismatch_rejected [of sheet_wrong_header env0 no_production env0 no_bypass]
  show ?thesis by blast
qed

section \<open>The date key of the turnaround ingest\<close>

text \<open>The row loop reads no cell for the date: the key of a sorted dose is the day of the
  clock reading taken in its own iteration. When the readings of all the iterations fall on
  one day \<open>D\<close>, the loop leaves no bucket or the single bucket of \<open>D\<close>.\<close>

lemma turnaround_row_one_day:
  assumes "turnaround_row e colIdx i r (byDate, n) = Inr (byDate', n')"
    and "today_iso e i = D"
    and "byDate = [] \<or> (\<exists>b. byDate = [(D, b)])"
  shows "byDate' = [] \<or> (\<exists>b. byDate' = [(D, b)])"
  using turnaround_row_cases [OF assms(1)] assms(2,3) by auto

lemma turnaround_rows_one_day:
  "turnaround_rows e colIdx i rows (byDate, n) = Inr (byDate', n') \<Longrightarrow>
   \<forall>j. i \<le> j \<and> j < i + length rows \<longrightarrow> today_iso e j = D \<Longrightarrow>
   byDate = [] \<or> (\<exists>b. byDate = [(D, b)]) \<Longrightarrow>
   byDate' = [] \<or> (\<exists>b. byDate' = [(D, b)])"
proof (induction rows arbitrary: i byDate n)
  case Nil
  then show ?case by simp
next
  case (Cons r rows)
  obtain byDate1 n1 where step: "turnaround_row e colIdx i r (byDate, n) = Inr (byDate1, n1)"
    and rest: "turnaround_rows e colIdx (Suc i) rows (byDate1, n1) = Inr (byDate', n')"
    using Cons.prems(1) by (auto split: sum.splits)
  have "today_iso e i = D" using Cons.prems(2) by simp
  then have one: "byDate1 = [] \<or> (\<exists>b. byDate1 = [(D, b)])"
    using turnaround_row_one_day [OF step _ Cons.prems(3)] by simp
  have "\<forall>j. Suc i \<le> j \<and> j < Suc i + length rows \<longrightarrow> today_iso e j = D"
    using Cons.prems(2) by simp
  then show ?case using Cons.IH [OF rest _ one] by blast
qed

text \<open>Then the upload adds or updates at most one record, the one dated \<open>D\<close>; it adds none
  when the collection has a record of that day, which it overwrites where it stands.\<close>

lemma turnaround_upload_one_day:
  assumes "turnaround_upload e rawData st = (Success res, st')"
    and "\<forall>j. 1 \<le> j \<and> j < length rawData \<longrightarrow> today_iso e j = D"
  shows "added res + updated res \<le> 1"
    and "length (mem st') = length (mem st) + added res"
    and "\<forall>x\<in>set (mem st'). t_date x = D \<or> x \<in> set (mem st)"
    and "(\<exists>x\<in>set (mem st). t_date x = D) \<Longrightarrow> added res = 0"
proof -
  obtain headerRow rows where raw: "rawData = headerRow # rows"
    using assms(1) by (cases rawData) (auto simp: turnaround_upload_def)
  obtain byDate n where rows:
    "turnaround_rows e (turnaround_columns headerRow) 1 rows ([], 0) = Inr (byDate, n)"
    using assms(1) raw by (auto simp: turnaround_upload_def split: sum.splits)
  let ?saved = "turnaround_save e (length rawData) byDate
                  (mem st, \<lparr> added = 0, updated = 0, counted_doses = n \<rparr>)"
  have out: "mem st' = sort_desc t_date (fst ?saved)" "res = snd ?saved"
    using assms(1) rows raw
    by (auto simp: turnaround_upload_def Let_def split: prod.splits)
  have "\<forall>j. 1 \<le> j \<and> j < 1 + length rows \<longrightarrow> today_iso e j = D"
    using assms(2) raw by simp
  then have one: "byDate = [] \<or> (\<exists>b. byDate = [(D, b)])"
    using turnaround_rows_one_day [OF rows] by blast
  have all: "added res + updated res \<le> 1
             \<and> length (mem st') = length (mem st) + added res
             \<and> (\<forall>x\<in>set (mem st'). t_date x = D \<or> x \<in> set (mem st))
             \<and> ((\<exists>x\<in>set (mem st). t_date x = D) \<longrightarrow> added res = 0)"
    using one
  proof
    assume "byDate = []"
    then show ?thesis by (simp add: out)
  next
    assume "\<exists>b. byDate = [(D, b)]"
    then obtain b where b: "byDate = [(D, b)]" by blast
    show ?thesis
    proof (cases "findIndex (\<lambda>x. t_date x = D) (mem st)")
      case None
      then have "\<not> (\<exists>x\<in>set (mem st). t_date x = D)"
        by (simp add: findIndex_None_iff)
      then show ?thesis
        using None by (auto simp: out b turnaround_save_one_def turnaround_record_of_def)
    next
      case (Some j)
      then show ?thesis
        by (auto simp: out b turnaround_save_one_def turnaround_record_of_def
            dest!: subsetD [OF set_update_subset_insert])
    qed
  qed
  from all show "added res + updated res \<le> 1" by blast
  from all show "length (mem st') = length (mem st) + added res" by blast
  from all show "\<forall>x\<in>set (mem st'). t_date x = D \<or> x \<in> set (mem st)" by blast
  from all show "(\<exists>x\<in>set (mem st). t_date x = D) \<Longrightarrow> added res = 0" by blast
qed

text \<open>
  Claim C6. The rows of one upload are not always aggregated under one key. The sheet
  \<open>turnaround_sheet\<close> has three sorted doses, in its rows 1, 2 and 5. Under \<open>env0\<close>, whose
  clock stays within 14 November 2023, its upload into the empty collection adds one record.
  Under \<open>env_straddle\<close> the clock shows 23:59:59.999 of 14 November when row 1 is looked at
  and 00:00:00.000 of 15 November when row 2 is: the same upload adds two records, the first
  dose under 14 November and the other two under 15 November.
\<close>

theorem upload_across_midnight_splits:
  "today_iso env_straddle 1 = ''2023-11-14'' \<and> today_iso env_straddle 2 = ''2023-11-15''
   \<and> fst (turnaround_upload env0 turnaround_sheet no_turnaround)
       = Success \<lparr> added = 1, updated = 0, counted_doses = 3 \<rparr>
   \<and> fst (turnaround_upload env_straddle turnaround_sheet no_turnaround)
       = Success \<lparr> added = 2, updated = 0, counted_doses = 3 \<rparr>
   \<and> map (\<lambda>x. (t_date x, t_total_doses x))
         (mem (snd (turnaround_upload env_straddle turnaround_sheet no_turnaround)))
       = [(''2023-11-15'', 2), (''2023-11-14'', 1)]"
  by code_simp

section \<open>The by-priority rollup\<close>

subsection \<open>Accumulating statistics under a key\<close>

lemma keys_add_stats: "fst ` set (add_stats k s acc) = insert k (fst ` set acc)"
  by (induction acc) auto

lemma distinct_add_stats:
  "distinct (map fst acc) \<Longrightarrow> distinct (map fst (add_stats k s acc))"
proof (induction acc)
  case Nil
  then show ?case by simp
next
  case (Cons p ps)
  have "fst ` set (add_stats k s ps) = insert k (fst ` set ps)" by (rule keys_add_stats)
  then show ?case using Cons by (auto simp: image_iff)
qed

lemma count_at_add_stats:
  "count_at p (add_stats k s acc) = count_at p acc + (if k = p then count s else 0)"
  by (induction acc) (auto simp: count_at_def)

lemma time_of_add_stats:
  "time_of p (add_stats k s acc)
     = (if k = p then to_double (time_of p acc + total_time s) else time_of p acc)"
  by (induction acc) (auto simp: time_of_def)

lemma counts_total_add_stats: "counts_total (add_stats k s acc) = counts_total acc + count s"
  by (induction acc) (auto simp: counts_total_def)

lemma time_at_Cons:
  "time_at q ((k, s) # es)
     = foldl (\<lambda>a x. to_double (a + x)) (if k = q then to_double (0 + total_time s) else 0)
         (map (\<lambda>entry. total_time (snd entry)) (filter (\<lambda>entry. fst entry = q) es))"
  by (simp add: time_at_def)

lemma fold_add_stats:
  "distinct (map fst acc) \<Longrightarrow>
   distinct (map fst (fold (\<lambda>(p, s) acc'. add_stats p s acc') es acc))
   \<and> fst ` set (fold (\<lambda>(p, s) acc'. add_stats p s acc') es acc) = fst ` set acc \<union> fst ` set es
   \<and> count_at q (fold (\<lambda>(p, s) acc'. add_stats p s acc') es acc) = count_at q acc + count_at q es
   \<and> time_of q (fold (\<lambda>(p, s) acc'. add_stats p s acc') es acc)
       = foldl (\<lambda>a x. to_double (a + x)) (time_of q acc)
           (map (\<lambda>entry. total_time (snd entry)) (filter (\<lambda>entry. fst entry = q) es))
   \<and> counts_total (fold (\<lambda>(p, s) acc'. add_stats p s acc') es acc)
       = counts_total acc + counts_total es"
proof (induction es arbitrary: acc)
  case Nil
  then show ?case by (simp add: count_at_def counts_total_def)
next
  case (Cons x es)
  obtain k s where x: "x = (k, s)" by (cases x)
  have d: "distinct (map fst (add_stats k s acc))"
    using Cons.prems by (rule distinct_add_stats)
  have c: "count_at q ((k, s) # es) = (if k = q then count s else 0) + count_at q es"
          "counts_total ((k, s) # es) = count s + counts_total es"
    by (simp_all add: count_at_def counts_total_def)
  show ?case
    using Cons.IH [OF d]
    by (simp add: x keys_add_stats count_at_add_stats time_of_add_stats counts_total_add_stats c)
qed

lemma count_at_absent:
  "p \<notin> fst ` set xs \<Longrightarrow> count_at p xs = 0"
  by (induction xs) (auto simp: count_at_def)

lemma distinct_key_count:
  "distinct (map fst acc) \<Longrightarrow> (p, a) \<in> set acc \<Longrightarrow>
   count_at p acc = count a \<and> time_of p acc = total_time a"
proof (induction acc)
  case Nil
  then show ?case by simp
next
  case (Cons x xs)
  show ?case
  proof (cases "x = (p, a)")
    case True
    then have "p \<notin> fst ` set xs" using Cons.prems(1) by auto
    then have "count_at p xs = 0"
      using count_at_absent by blast
    then show ?thesis using True by (simp add: count_at_def time_of_def)
  next
    case False
    then have m: "(p, a) \<in> set xs" using Cons.prems(2) by auto
    then have "fst x \<noteq> p" using Cons.prems(1) by (auto simp: image_iff)
    then show ?thesis using Cons.IH m Cons.prems(1) by (simp add: count_at_def time_of_def)
  qed
qed

lemma fold_over_concat: "fold f (concat xss) acc = fold (\<lambda>xs acc'. fold f xs acc') xss acc"
  by (induction xss arbitrary: acc) auto

lemma merge_by_priority_entries:
  "merge_by_priority filtered = fold (\<lambda>(p, s) acc'. add_stats p s acc') (priority_entries filtered) []"
  by (simp add: merge_by_priority_def priority_entries_def fold_over_concat fold_map comp_def)

lemma merged_facts:
  "distinct (map fst (merge_by_priority filtered))"
  "fst ` set (merge_by_priority filtered) = fst ` set (priority_entries filtered)"
  "count_at q (merge_by_priority filtered) = count_at q (priority_entries filtered)"
  "time_of q (merge_by_priority filtered) = time_at q (priority_entries filtered)"
  "counts_total (merge_by_priority filtered) = counts_total (priority_entries filtered)"
  using fold_add_stats [of "[]" "priority_entries filtered" q]
  by (simp_all add: merge_by_priority_entries count_at_def time_at_def time_of_def
      counts_total_def)

subsection \<open>The stable ascending sort\<close>

lemma map_insort_key: "map f (insort_key f x xs) = insort (f x) (map f xs)"
  by (induction xs) auto

lemma map_sort_key: "map f (sort_key f xs) = sort (map f xs)"
  by (induction xs) (auto simp: map_insort_key)

lemma sum_insort_key:
  fixes g :: "'a \<Rightarrow> int"
  shows "sum_list (map g (insort_key f x xs)) = g x + sum_list (map g xs)"
  by (induction xs) auto

lemma sum_sort_key:
  fixes g :: "'a \<Rightarrow> int"
  shows "sum_list (map g (sort_key f xs)) = sum_list (map g xs)"
  by (induction xs) (auto simp: sum_insort_key)

subsection \<open>What the ingest stores\<close>

text \<open>In every bucket of the row loop, and so in every stored record, the number of doses is
  the sum of the counts of the by-priority entries.\<close>

lemma add_to_bucket_counts:
  "day_count b = counts_total (day_by_priority b) \<Longrightarrow>
   day_count (add_to_bucket p w g t b) = counts_total (day_by_priority (add_to_bucket p w g t b))"
  by (simp add: add_to_bucket_def Let_def counts_total_add_stats)

lemma turnaround_row_counts:
  assumes "turnaround_row e colIdx i r (byDate, n) = Inr (byDate', n')"
    and "\<forall>(d, b)\<in>set byDate. day_count b = counts_total (day_by_priority b)"
  shows "\<forall>(d, b)\<in>set byDate'. day_count b = counts_total (day_by_priority b)"
proof -
  let ?d = "today_iso e i"
  let ?b = "(case map_of byDate ?d of None \<Rightarrow> empty_bucket | Some b0 \<Rightarrow> b0)"
  have b: "day_count ?b = counts_total (day_by_priority ?b)"
  proof (cases "map_of byDate ?d")
    case None
    then show ?thesis by (simp add: empty_bucket_def counts_total_def)
  next
    case (Some b0)
    then have "(?d, b0) \<in> set byDate" by (rule map_of_SomeD)
    then show ?thesis using assms(2) Some by auto
  qed
  from turnaround_row_cases [OF assms(1)] show ?thesis
  proof
    assume "(byDate', n') = (byDate, n)"
    then show ?thesis using assms(2) by simp
  next
    assume "\<exists>p w g t. byDate' = obj_set ?d (add_to_bucket p w g t ?b) byDate \<and> n' = n + 1"
    then obtain p w g t where byDate': "byDate' = obj_set ?d (add_to_bucket p w g t ?b) byDate"
      by blast
    have "day_count (add_to_bucket p w g t ?b)
            = counts_total (day_by_priority (add_to_bucket p w g t ?b))"
      using b by (rule add_to_bucket_counts)
    then show ?thesis
      using assms(2) set_obj_set [of ?d "add_to_bucket p w g t ?b" byDate]
      by (auto simp: byDate')
  qed
qed

lemma turnaround_rows_counts:
  "turnaround_rows e colIdx i rows (byDate, n) = Inr (byDate', n') \<Longrightarrow>
   \<forall>(d, b)\<in>set byDate. day_count b = counts_total (day_by_priority b) \<Longrightarrow>
   \<forall>(d, b)\<in>set byDate'. day_count b = counts_total (day_by_priority b)"
proof (induction rows arbitrary: i byDate n)
  case Nil
  then show ?case by simp
next
  case (Cons r rows)
  obtain byDate1 n1 where step: "turnaround_row e colIdx i r (byDate, n) = Inr (byDate1, n1)"
    and rest: "turnaround_rows e colIdx (Suc i) rows (byDate1, n1) = Inr (byDate', n')"
    using Cons.prems(1) by (auto split: sum.splits)
  have "\<forall>(d, b)\<in>set byDate1. day_count b = counts_total (day_by_priority b)"
    using turnaround_row_counts [OF step Cons.prems(2)] .
  then show ?case using Cons.IH [OF rest] by blast
qed

lemma turnaround_save_one_counts:
  assumes "day_count b = counts_total (day_by_priority b)"
    and "\<forall>x\<in>set turnaroundData. t_total_doses x = counts_total (by_priority x)"
  shows "\<forall>x\<in>set (fst (turnaround_save_one e k (d, b) (turnaroundData, res))).
           t_total_doses x = counts_total (by_priority x)"
proof -
  have new: "\<And>ident t. t_total_doses (turnaround_record_of ident d b t)
                = counts_total (by_priority (turnaround_record_of ident d b t))"
    using assms(1) by (simp add: turnaround_record_of_def)
  show ?thesis
  proof (cases "findIndex (\<lambda>x. t_date x = d) turnaroundData")
    case None
    then show ?thesis using assms(2) new by (auto simp: turnaround_save_one_def)
  next
    case (Some j)
    then show ?thesis
      using assms(2) new
      by (auto simp: turnaround_save_one_def dest!: subsetD [OF set_update_subset_insert])
  qed
qed

lemma turnaround_save_counts:
  "\<forall>(d, b)\<in>set entries. day_count b = counts_total (day_by_priority b) \<Longrightarrow>
   \<forall>x\<in>set turnaroundData. t_total_doses x = counts_total (by_priority x) \<Longrightarrow>
   \<forall>x\<in>set (fst (turnaround_save e k entries (turnaroundData, res))).
      t_total_doses x = counts_total (by_priority x)"
proof (induction entries arbitrary: k turnaroundData res)
  case Nil
  then show ?case by simp
next
  case (Cons entry entries)
  obtain d b where entry: "entry = (d, b)" by (cases entry)
  obtain data1 res1 where one: "turnaround_save_one e k (d, b) (turnaroundData, res) = (data1, res1)"
    by (cases "turnaround_save_one e k (d, b) (turnaroundData, res)")
  have "day_count b = counts_total (day_by_priority b)"
    using Cons.prems(1) entry by auto
  then have "\<forall>x\<in>set data1. t_total_doses x = counts_total (by_priority x)"
    using turnaround_save_one_counts [OF _ Cons.prems(2), of b e k d res] one by simp
  moreover have "\<forall>(d, b)\<in>set entries. day_count b = counts_total (day_by_priority b)"
    using Cons.prems(1) by auto
  ultimately show ?case
    using Cons.IH [of data1 "k + 2" res1] by (simp add: entry one)
qed

lemma ingested_turnaround_counts:
  "ingested_turnaround turnaroundData \<Longrightarrow>
   \<forall>x\<in>set turnaroundData. t_total_doses x = counts_total (by_priority x)"
proof (induction rule: ingested_turnaround.induct)
  case nothing
  then show ?case by simp
next
  case (upload st e rawData res st')
  obtain headerRow rows where raw: "rawData = headerRow # rows"
    using upload.hyps(2) by (cases rawData) (auto simp: turnaround_upload_def)
  obtain byDate n where rows: "turnaround_rows e (turnaround_columns headerRow) 1 rows ([], 0) = Inr (byDate, n)"
    using upload.hyps(2) raw by (auto simp: turnaround_upload_def split: sum.splits)
  have buckets: "\<forall>(d, b)\<in>set byDate. day_count b = counts_total (day_by_priority b)"
    using turnaround_rows_counts [OF rows] by simp
  let ?saved = "turnaround_save e (length rawData) byDate
                  (mem st, \<lparr> added = 0, updated = 0, counted_doses = n \<rparr>)"
  have "mem st' = sort_desc t_date (fst ?saved)"
    using upload.hyps(2) rows raw
    by (auto simp: turnaround_upload_def Let_def split: prod.splits)
  then show ?case
    using turnaround_save_counts [OF buckets upload.IH] by simp
qed
subsection \<open>The rollup\<close>

lemma priority_of_row [simp]: "priority (priority_row_of entry) = fst entry"
  and count_of_row [simp]: "row_count (priority_row_of entry) = count (snd entry)"
  by (cases entry, simp add: priority_row_of_def)+

lemma counts_total_concat:
  "counts_total (concat xss) = sum_list (map counts_total xss)"
  by (induction xss) (auto simp: counts_total_def)

lemma by_priority_keys:
  "map priority (turnaround_by_priority e days turnaroundData)
     = sort (map fst (merge_by_priority (turnaround_window e days turnaroundData)))"
  by (simp add: turnaround_by_priority_def turnaround_window_def map_sort_key comp_def)

lemma by_priority_row:
  assumes "x \<in> set (turnaround_by_priority e days turnaroundData)"
  shows "row_count x = count_at (priority x) (priority_entries (turnaround_window e days turnaroundData))
       \<and> row_avg_turnaround x
           = (if row_count x > 0
              then to_double (toFixed1 (to_double
                     (time_at (priority x)
                        (priority_entries (turnaround_window e days turnaroundData))
                      / real_of_int (row_count x))))
              else 0)
       \<and> priority_label x = getPriorityLabel (priority x)"
proof -
  let ?f = "turnaround_window e days turnaroundData"
  from assms obtain p s where ps: "(p, s) \<in> set (merge_by_priority ?f)"
    and x: "x = priority_row_of (p, s)"
    by (auto simp: turnaround_by_priority_def turnaround_window_def)
  have "count_at p (merge_by_priority ?f) = count s \<and> time_of p (merge_by_priority ?f) = total_time s"
    using merged_facts(1) ps by (rule distinct_key_count)
  then have "count_at p (priority_entries ?f) = count s" "time_at p (priority_entries ?f) = total_time s"
    by (simp_all add: merged_facts)
  then show ?thesis by (simp add: x priority_row_of_def average1_def)
qed

lemma by_priority_total:
  "sum_list (map row_count (turnaround_by_priority e days turnaroundData))
     = sum_list (map (\<lambda>d. counts_total (by_priority d)) (turnaround_window e days turnaroundData))"
proof -
  let ?f = "turnaround_window e days turnaroundData"
  have "sum_list (map row_count (turnaround_by_priority e days turnaroundData))
          = counts_total (merge_by_priority ?f)"
    by (simp add: turnaround_by_priority_def turnaround_window_def sum_sort_key comp_def
        counts_total_def)
  also have "\<dots> = counts_total (priority_entries ?f)" by (rule merged_facts)
  also have "\<dots> = sum_list (map (\<lambda>d. counts_total (by_priority d)) ?f)"
    by (simp add: priority_entries_def counts_total_concat comp_def)
  finally show ?thesis .
qed

text \<open>
  Claim C7. The by-priority rollup of the turnaround collection has exactly one row for each
  priority that occurs in the by-priority maps of the records of the window, in ascending
  order of the priority. The count of a row is the sum of the counts of all the entries of
  that priority in the records of the window. Its average is their total time divided by
  that count and rounded to one decimal (0 when the count is not positive), in the
  arithmetic of the program: the total time is the sum of the times of those entries, added
  in the stored order of the records, each sum and the quotient rounded to a double, and the
  quotient printed with one decimal. Its label is the label of the priority. For a
  collection that the uploads have produced, the counts of the rollup add up to the
  \<open>total_doses\<close> of the records of the window.
\<close>

theorem by_priority_rollup:
  "sorted (map priority (turnaround_by_priority e days turnaroundData))
   \<and> distinct (map priority (turnaround_by_priority e days turnaroundData))
   \<and> set (map priority (turnaround_by_priority e days turnaroundData))
       = fst ` set (priority_entries (turnaround_window e days turnaroundData))
   \<and> (\<forall>x\<in>set (turnaround_by_priority e days turnaroundData).
        row_count x = count_at (priority x) (priority_entries (turnaround_window e days turnaroundData))
        \<and> row_avg_turnaround x
            = (if row_count x > 0
               then to_double (toFixed1 (to_double
                      (time_at (priority x)
                         (priority_entries (turnaround_window e days turnaroundData))
                       / real_of_int (row_count x))))
               else 0)
        \<and> priority_label x = getPriorityLabel (priority x))
   \<and> (ingested_turnaround turnaroundData \<longrightarrow>
        sum_list (map row_count (turnaround_by_priority e days turnaroundData))
          = sum_list (map t_total_doses (turnaround_window e days turnaroundData)))"
proof -
  let ?f = "turnaround_window e days turnaroundData"
  let ?r = "turnaround_by_priority e days turnaroundData"
  have k: "map priority ?r = sort (map fst (merge_by_priority ?f))" by (rule by_priority_keys)
  have 1: "sorted (map priority ?r)" unfolding k by simp
  have 2: "distinct (map priority ?r)" unfolding k using merged_facts(1) [of ?f] by simp
  have 3: "set (map priority ?r) = fst ` set (priority_entries ?f)"
    unfolding k using merged_facts(2) [of ?f] by simp
  have 4: "\<forall>x\<in>set ?r.
        row_count x = count_at (priority x) (priority_entries ?f)
        \<and> row_avg_turnaround x
            = (if row_count x > 0
               then to_double (toFixed1 (to_double
                      (time_at (priority x) (priority_entries ?f) / real_of_int (row_count x))))
               else 0)
        \<and> priority_label x = getPriorityLabel (priority x)"
    using by_priority_row by blast
  have 5: "sum_list (map row_count ?r) = sum_list (map t_total_doses ?f)"
    if "ingested_turnaround turnaroundData"
  proof -
    have "\<forall>x\<in>set ?f. t_total_doses x = counts_total (by_priority x)"
      using ingested_turnaround_counts [OF that] by (simp add: turnaround_window_def)
    then have "map (\<lambda>d. counts_total (by_priority d)) ?f = map t_total_doses ?f"
      by (intro map_cong) simp_all
    then show ?thesis unfolding by_priority_total by (rule arg_cong)
  qed
  from 1 2 3 4 5 show ?thesis by blast
qed

theorem by_priority_rollup_witness:
  "turnaround_upload env_monday turnaround_monday no_turnaround
     = (Success \<lparr> added = 1, updated = 0, counted_doses = 4 \<rparr>, after_monday)
   \<and> turnaround_upload env0 turnaround_tuesday after_monday
     = (Success \<lparr> added = 1, updated = 0, counted_doses = 3 \<rparr>, after_tuesday)
   \<and> ingested_turnaround (mem after_tuesday)
   \<and> map (\<lambda>x. (t_date x, t_total_doses x)) (turnaround_window env1 None (mem after_tuesday))
       = [(''2023-11-14'', 3), (''2023-11-13'', 4)]
   \<and> priority_entries (turnaround_window env1 None (mem after_tuesday))
       = [(20, \<lparr> count = 2, total_time = 0.75 \<rparr>), (40, \<lparr> count = 1, total_time = 30 \<rparr>),
          (20, \<lparr> count = 3, total_time = 1 \<rparr>), (10, \<lparr> count = 1, total_time = 12.5 \<rparr>)]
   \<and> time_at 20 (priority_entries (turnaround_window env1 None (mem after_tuesday))) = 1.75
   \<and> to_double (1.75 / 5) < 0.35 \<and> toFixed1 (to_double (1.75 / 5)) = 0.3
   \<and> turnaround_by_priority env1 None (mem after_tuesday)
       = [\<lparr> priority = 10, priority_label = ''STAT'', row_count = 1, row_avg_turnaround = 12.5 \<rparr>,
          \<lparr> priority = 20, priority_label = ''ASAP'', row_count = 5,
            row_avg_turnaround = to_double 0.3 \<rparr>,
          \<lparr> priority = 40, priority_label = ''Routine'', row_count = 1, row_avg_turnaround = 30 \<rparr>]
   \<and> sorted (map priority (turnaround_by_priority env1 None (mem after_tuesday)))
   \<and> sum_list (map row_count (turnaround_by_priority env1 None (mem after_tuesday))) = 7"
proof -
  have u1: "turnaround_upload env_monday turnaround_monday no_turnaround
     = (Success \<lparr> added = 1, updated = 0, counted_doses = 4 \<rparr>, after_monday)"
    by code_simp
  have u2: "turnaround_upload env0 turnaround_tuesday after_monday
     = (Success \<lparr> added = 1, updated = 0, counted_doses = 3 \<rparr>, after_tuesday)"
    by code_simp
  have "ingested_turnaround (mem no_turnaround)"
    by (simp add: no_turnaround_def ingested_turnaround.nothing)
  then have "ingested_turnaround (mem after_monday)"
    using u1 by (rule ingested_turnaround.upload)
  then have i: "ingested_turnaround (mem after_tuesday)"
    using u2 by (rule ingested_turnaround.upload)
  have w: "map (\<lambda>x. (t_date x, t_total_doses x)) (turnaround_window env1 None (mem after_tuesday))
       = [(''2023-11-14'', 3), (''2023-11-13'', 4)]"
    by code_simp
  have p: "priority_entries (turnaround_window env1 None (mem after_tuesday))
       = [(20, \<lparr> count = 2, total_time = 0.75 \<rparr>), (40, \<lparr> count = 1, total_time = 30 \<rparr>),
          (20, \<lparr> count = 3, total_time = 1 \<rparr>), (10, \<lparr> count = 1, total_time = 12.5 \<rparr>)]"
    by code_simp
  have t: "time_at 20 (priority_entries (turnaround_window env1 None (mem after_tuesday))) = 1.75"
    by code_simp
  have q: "to_double (1.75 / 5) < 0.35" "toFixed1 (to_double (1.75 / 5)) = 0.3"
    by code_simp+
  have r: "turnaround_by_priority env1 None (mem after_tuesday)
       = [\<lparr> priority = 10, priority_label = ''STAT'', row_count = 1, row_avg_turnaround = 12.5 \<rparr>,
          \<lparr> priority = 20, priority_label = ''ASAP'', row_count = 5,
            row_avg_turnaround = to_double 0.3 \<rparr>,
          \<lparr> priority = 40, priority_label = ''Routine'', row_count = 1, row_avg_turnaround = 30 \<rparr>]"
    by code_simp
  have s: "sum_list (map t_total_doses (turnaround_window env1 None (mem after_tuesday))) = 7"
    by code_simp
  note c = by_priority_rollup [of env1 None "mem after_tuesday"]
  have 1: "sorted (map priority (turnaround_by_priority env1 None (mem after_tuesday)))"
    using c by blast
  have "sum_list (map row_count (turnaround_by_priority env1 None (mem after_tuesday)))
          = sum_list (map t_total_doses (turnaround_window env1 None (mem after_tuesday)))"
    using c i by blast
  then have 2: "sum_list (map row_count (turnaround_by_priority env1 None (mem after_tuesday))) = 7"
    by (simp only: s)
  show ?thesis
    by (insert u1 u2 i w p t q r 1 2, intro conjI, assumption+)
qed

section \<open>The date normalizer\<close>







section \<open>Classification of stock doses\<close>

lemma stock_row_skip: "\<not> truthy (dose_of r) \<Longrightarrow> stock_row r s = Inr s"
  by (simp add: stock_row_def Let_def split: prod.splits)

lemma stock_row_string:
  "truthy (dose_of r) \<Longrightarrow> dose_of r = Str d \<Longrightarrow>
   stock_row r (s, dl, res) =
     (if startsWith (toUpperCase d) ''DILUTION:''
      then Inr (s, dl @ [stock_record_of r d],
                res\<lparr>n_total_doses := n_total_doses res + parseInt_or0 (field r ''Total''),
                     n_dilutions := n_dilutions res + 1\<rparr>)
      else Inr (s @ [stock_record_of r d], dl,
                res\<lparr>n_total_doses := n_total_doses res + parseInt_or0 (field r ''Total''),
                     n_stocks := n_stocks res + 1\<rparr>))"
  by (simp add: stock_row_def stock_record_of_def Let_def)

lemma stock_row_throw:
  "truthy (dose_of r) \<Longrightarrow> (\<forall>d. dose_of r \<noteq> Str d) \<Longrightarrow> \<exists>err. stock_row r s = Inl err"
  by (cases "dose_of r") (auto simp: stock_row_def Let_def split: prod.splits)

text \<open>What a loop that ran to its end has collected.\<close>

lemma stock_rows_collect:
  "stock_rows rows (s, dl, res) = Inr (s', dl', res') \<Longrightarrow>
     s' = s @ map (\<lambda>r. stock_record_of r (dose_string r)) (filter is_stock_row rows)
   \<and> dl' = dl @ map (\<lambda>r. stock_record_of r (dose_string r)) (filter is_dilution_row rows)
   \<and> n_stocks res' = n_stocks res + length (filter is_stock_row rows)
   \<and> n_dilutions res' = n_dilutions res + length (filter is_dilution_row rows)
   \<and> (\<forall>r\<in>set rows. truthy (dose_of r) \<longrightarrow> dose_of r = Str (dose_string r))"
proof (induction rows arbitrary: s dl res)
  case Nil
  then show ?case by simp
next
  case (Cons r rows)
  show ?case
  proof (cases "truthy (dose_of r)")
    case False
    then have "stock_rows rows (s, dl, res) = Inr (s', dl', res')"
      using Cons.prems by (simp add: stock_row_skip)
    from Cons.IH [OF this] False show ?thesis
      by (simp add: is_stock_row_def is_dilution_row_def)
  next
    case True
    show ?thesis
    proof (cases "\<exists>d. dose_of r = Str d")
      case False
      then obtain err where "stock_row r (s, dl, res) = Inl err"
        using stock_row_throw [OF True] by blast
      then show ?thesis using Cons.prems by simp
    next
      case True
      then obtain d where d: "dose_of r = Str d" by blast
      then have ds: "dose_string r = d" by (simp add: dose_string_def)
      show ?thesis
      proof (cases "startsWith (toUpperCase d) ''DILUTION:''")
        case True
        then have "stock_rows rows (s, dl @ [stock_record_of r d],
                res\<lparr>n_total_doses := n_total_doses res + parseInt_or0 (field r ''Total''),
                     n_dilutions := n_dilutions res + 1\<rparr>) = Inr (s', dl', res')"
          using Cons.prems stock_row_string [OF \<open>truthy (dose_of r)\<close> d, of s dl res] by simp
        from Cons.IH [OF this] True \<open>truthy (dose_of r)\<close> d ds show ?thesis
          by (simp add: is_stock_row_def is_dilution_row_def)
      next
        case False
        then have "stock_rows rows (s @ [stock_record_of r d], dl,
                res\<lparr>n_total_doses := n_total_doses res + parseInt_or0 (field r ''Total''),
                     n_stocks := n_stocks res + 1\<rparr>) = Inr (s', dl', res')"
          using Cons.prems stock_row_string [OF \<open>truthy (dose_of r)\<close> d, of s dl res] by simp
        from Cons.IH [OF this] False \<open>truthy (dose_of r)\<close> d ds show ?thesis
          by (simp add: is_stock_row_def is_dilution_row_def)
      qed
    qed
  qed
qed

lemma stock_rows_drop_doseless:
  "stock_rows (filter (\<lambda>r. truthy (dose_of r)) rows) s = stock_rows rows s"
proof (induction rows arbitrary: s)
  case Nil
  then show ?case by simp
next
  case (Cons r rows)
  show ?case
  proof (cases "truthy (dose_of r)")
    case True
    then show ?thesis by (simp add: Cons.IH split: sum.splits)
  next
    case False
    then show ?thesis by (simp add: Cons.IH stock_row_skip)
  qed
qed

lemma partition_lengths:
  "length (filter is_stock_row rows) + length (filter is_dilution_row rows)
     = length (filter (\<lambda>r. truthy (dose_of r)) rows)"
  by (induction rows) (auto simp: is_stock_row_def is_dilution_row_def)

text \<open>
  Claim C9, as the code has it. After a successful stock-doses upload: every row whose
  Dose is a non-empty string starting with neither \<^verbatim>\<open>DILUTION:\<close> nor \<^verbatim>\<open>STOCK:\<close> (in any
  letter case) has its record in the stocks list, with type \<^verbatim>\<open>Other\<close>; the dilutions list
  holds records of Doses starting with \<^verbatim>\<open>DILUTION:\<close> only, the stocks list none of them;
  \<open>total_stock_types\<close> and \<open>total_dilution_types\<close> are the lengths of the two lists, which
  together have one record for each row with a non-empty Dose. A row whose Dose is missing
  or empty is skipped: the upload gives the same answer and document without such rows.
\<close>

theorem stock_rows_classified:
  assumes "stock_doses_upload e rawData st = (Success res, st')"
  shows "\<exists>doc. mem st' = Some doc \<and> disk st' = Some doc
     \<and> (\<forall>r\<in>set rawData. \<forall>d. dose_of r = Str d \<and> d \<noteq> []
            \<and> \<not> startsWith (toUpperCase d) ''DILUTION:'' \<and> \<not> startsWith (toUpperCase d) ''STOCK:''
          \<longrightarrow> (\<exists>x\<in>set (stocks doc). original x = d \<and> dose_type x = ''Other''
                  \<and> total' x = parseInt_or0 (field r ''Total'')))
     \<and> (\<forall>x\<in>set (dilutions doc). startsWith (toUpperCase (original x)) ''DILUTION:''
            \<and> dose_type x = ''Dilution'')
     \<and> (\<forall>x\<in>set (stocks doc). \<not> startsWith (toUpperCase (original x)) ''DILUTION:'')
     \<and> total_stock_types (summary doc) = length (stocks doc)
     \<and> total_dilution_types (summary doc) = length (dilutions doc)
     \<and> length (stocks doc) + length (dilutions doc)
          = length (filter (\<lambda>r. truthy (dose_of r)) rawData)
     \<and> stock_doses_upload e (filter (\<lambda>r. truthy (dose_of r)) rawData) st
          = stock_doses_upload e rawData st"
proof -
  let ?res0 = "\<lparr> n_stocks = 0, n_dilutions = 0, n_total_doses = 0 \<rparr>"
  let ?mk = "\<lambda>r. stock_record_of r (dose_string r)"
  obtain s1 d1 where run: "stock_rows rawData ([], [], ?res0) = Inr (s1, d1, res)"
    and st': "st' = \<lparr> mem = Some (stock_document e s1 d1 res),
                        disk = Some (stock_document e s1 d1 res) \<rparr>"
    using assms by (auto simp: stock_doses_upload_def split: sum.splits prod.splits)
  note c = stock_rows_collect [OF run]
  have s1: "s1 = map ?mk (filter is_stock_row rawData)"
    and d1: "d1 = map ?mk (filter is_dilution_row rawData)"
    and ns: "n_stocks res = length (filter is_stock_row rawData)"
    and nd: "n_dilutions res = length (filter is_dilution_row rawData)"
    using c by simp_all
  have other: "\<forall>r\<in>set rawData. \<forall>d. dose_of r = Str d \<and> d \<noteq> []
            \<and> \<not> startsWith (toUpperCase d) ''DILUTION:'' \<and> \<not> startsWith (toUpperCase d) ''STOCK:''
          \<longrightarrow> (\<exists>x\<in>set s1. original x = d \<and> dose_type x = ''Other''
                  \<and> total' x = parseInt_or0 (field r ''Total''))"
  proof (intro ballI allI impI)
    fix r d
    assume r: "r \<in> set rawData" and h: "dose_of r = Str d \<and> d \<noteq> []
            \<and> \<not> startsWith (toUpperCase d) ''DILUTION:'' \<and> \<not> startsWith (toUpperCase d) ''STOCK:''"
    then have "is_stock_row r" "dose_string r = d"
      by (simp_all add: is_stock_row_def dose_string_def)
    then have "?mk r \<in> set s1" "?mk r = stock_record_of r d" using r s1 by auto
    moreover have "original (stock_record_of r d) = d" "dose_type (stock_record_of r d) = ''Other''"
      "total' (stock_record_of r d) = parseInt_or0 (field r ''Total'')"
      using h by (simp_all add: stock_record_of_def)
    ultimately show "\<exists>x\<in>set s1. original x = d \<and> dose_type x = ''Other''
                  \<and> total' x = parseInt_or0 (field r ''Total'')"
      by metis
  qed
  have dil: "\<forall>x\<in>set d1. startsWith (toUpperCase (original x)) ''DILUTION:'' \<and> dose_type x = ''Dilution''"
    unfolding d1 by (auto simp: is_dilution_row_def stock_record_of_def)
  have sto: "\<forall>x\<in>set s1. \<not> startsWith (toUpperCase (original x)) ''DILUTION:''"
    unfolding s1 by (auto simp: is_stock_row_def stock_record_of_def)
  have len: "length s1 + length d1 = length (filter (\<lambda>r. truthy (dose_of r)) rawData)"
    unfolding s1 d1 using partition_lengths [of rawData] by simp
  have same: "stock_doses_upload e (filter (\<lambda>r. truthy (dose_of r)) rawData) st
          = stock_doses_upload e rawData st"
    by (simp add: stock_doses_upload_def stock_rows_drop_doseless)
  have doc: "stocks (stock_document e s1 d1 res) = sort_desc total' s1"
    "dilutions (stock_document e s1 d1 res) = sort_desc total' d1"
    "total_stock_types (summary (stock_document e s1 d1 res)) = n_stocks res"
    "total_dilution_types (summary (stock_document e s1 d1 res)) = n_dilutions res"
    by (simp_all add: stock_document_def)
  have lens: "n_stocks res = length s1" "n_dilutions res = length d1"
    using ns nd by (simp_all add: s1 d1)
  show ?thesis
  proof (intro exI [of _ "stock_document e s1 d1 res"] conjI)
    show "mem st' = Some (stock_document e s1 d1 res)" by (simp add: st')
    show "disk st' = Some (stock_document e s1 d1 res)" by (simp add: st')
    show "\<forall>r\<in>set rawData. \<forall>d. dose_of r = Str d \<and> d \<noteq> []
            \<and> \<not> startsWith (toUpperCase d) ''DILUTION:'' \<and> \<not> startsWith (toUpperCase d) ''STOCK:''
          \<longrightarrow> (\<exists>x\<in>set (stocks (stock_document e s1 d1 res)). original x = d \<and> dose_type x = ''Other''
                  \<and> total' x = parseInt_or0 (field r ''Total''))"
      using other by (simp only: doc set_sort_desc)
    show "\<forall>x\<in>set (dilutions (stock_document e s1 d1 res)).
            startsWith (toUpperCase (original x)) ''DILUTION:'' \<and> dose_type x = ''Dilution''"
      using dil by (simp only: doc set_sort_desc)
    show "\<forall>x\<in>set (stocks (stock_document e s1 d1 res)).
            \<not> startsWith (toUpperCase (original x)) ''DILUTION:''"
      using sto by (simp only: doc set_sort_desc)
    show "total_stock_types (summary (stock_document e s1 d1 res))
            = length (stocks (stock_document e s1 d1 res))"
      by (simp only: doc lens length_sort_desc)
    show "total_dilution_types (summary (stock_document e s1 d1 res))
            = length (dilutions (stock_document e s1 d1 res))"
      by (simp only: doc lens length_sort_desc)
    show "length (stocks (stock_document e s1 d1 res)) + length (dilutions (stock_document e s1 d1 res))
            = length (filter (\<lambda>r. truthy (dose_of r)) rawData)"
      using len by (simp only: doc length_sort_desc)
    show "stock_doses_upload e (filter (\<lambda>r. truthy (dose_of r)) rawData) st
            = stock_doses_upload e rawData st"
      by (rule same)
  qed
qed

theorem stock_rows_classified_witness:
  "fst (stock_doses_upload env0 stock_sheet no_stock_doc)
     = Success \<lparr> n_stocks = 2, n_dilutions = 1, n_total_doses = 19 \<rparr>
   \<and> length (filter (\<lambda>r. truthy (dose_of r)) stock_sheet) = 3
   \<and> (\<exists>doc. mem (snd (stock_doses_upload env0 stock_sheet no_stock_doc)) = Some doc
          \<and> map (\<lambda>x. (original x, dose_type x, total' x)) (stocks doc)
              = [(''stock: Heparin 10 units'', ''Stock'', 9), (''Cefazolin 1 g'', ''Other'', 6)]
          \<and> map (\<lambda>x. (original x, dose_type x, total' x)) (dilutions doc)
              = [(''DILUTION: BAXA - VIT C 25ML'', ''Dilution'', 4)]
          \<and> total_stock_types (summary doc) = length (stocks doc)
          \<and> total_dilution_types (summary doc) = length (dilutions doc)
          \<and> length (stocks doc) + length (dilutions doc) = 3)"
proof -
  let ?u = "stock_doses_upload env0 stock_sheet no_stock_doc"
  let ?s = "[\<lparr> name = ''Heparin 10 units'', original = ''stock: Heparin 10 units'', total' = 9,
               size' = ''10 units'', dose_type = ''Stock'' \<rparr>,
             \<lparr> name = ''Cefazolin 1 g'', original = ''Cefazolin 1 g'', total' = 6,
               size' = [], dose_type = ''Other'' \<rparr>]"
  let ?d = "[\<lparr> name = ''VIT C 25ML'', original = ''DILUTION: BAXA - VIT C 25ML'', total' = 4,
               size' = ''25ML'', dose_type = ''Dilution'' \<rparr>]"
  let ?r = "\<lparr> n_stocks = 2, n_dilutions = 1, n_total_doses = 19 \<rparr>"
  have e: "stock_rows stock_sheet ([], [], \<lparr> n_stocks = 0, n_dilutions = 0, n_total_doses = 0 \<rparr>)
             = Inr (?s, ?d, ?r)"
    by code_simp
  have u: "?u = (Success ?r, \<lparr> mem = Some (stock_document env0 ?s ?d ?r),
                                disk = Some (stock_document env0 ?s ?d ?r) \<rparr>)"
    by (simp add: stock_doses_upload_def e)
  have n: "length (filter (\<lambda>r. truthy (dose_of r)) stock_sheet) = 3"
    by code_simp
  have s: "stocks (stock_document env0 ?s ?d ?r) = ?s" "dilutions (stock_document env0 ?s ?d ?r) = ?d"
    by (simp_all add: stock_document_def sort_desc_def)
  from stock_rows_classified [OF u] obtain doc where
    d: "Some (stock_document env0 ?s ?d ?r) = Some doc"
       "total_stock_types (summary doc) = length (stocks doc)"
       "total_dilution_types (summary doc) = length (dilutions doc)"
       "length (stocks doc) + length (dilutions doc)
          = length (filter (\<lambda>r. truthy (dose_of r)) stock_sheet)"
    by auto
  show ?thesis
    using n d s by (simp add: u)
qed

text \<open>As the claim states it, no uploaded row would be left out of the classification.
  A row whose Dose is the empty string, which starts with neither prefix, and a row with no
  Dose cell are in neither list and in neither count.\<close>

theorem doseless_rows_left_out:
  "dose_of (doseless_sheet ! 0) = Str ''''
   \<and> \<not> startsWith (toUpperCase '''') ''DILUTION:'' \<and> \<not> startsWith (toUpperCase '''') ''STOCK:''
   \<and> stock_doses_upload env0 doseless_sheet no_stock_doc
       = (Success \<lparr> n_stocks = 0, n_dilutions = 0, n_total_doses = 0 \<rparr>,
          \<lparr> mem = Some \<lparr> stocks = [], dilutions = [], all' = [],
                          summary = \<lparr> total_stock_types = 0, total_dilution_types = 0,
                                      total_doses_made = 0 \<rparr>,
                          doc_uploaded_at = 1700000000000 \<rparr>,
            disk = Some \<lparr> stocks = [], dilutions = [], all' = [],
                          summary = \<lparr> total_stock_types = 0, total_dilution_types = 0,
                                      total_doses_made = 0 \<rparr>,
                          doc_uploaded_at = 1700000000000 \<rparr> \<rparr>)"
  by code_simp

section \<open>Location buckets of the usage and detailed-wastage ingest\<close>

subsection \<open>Objects built by grouping\<close>











subsection \<open>The sums in a location bucket\<close>



subsection \<open>The row loop of the usage ingest\<close>





subsection \<open>Saving the date buckets\<close>





subsection \<open>The row loop of the detailed-wastage ingest\<close>




subsection \<open>What the uploads store\<close>











end
